theory Spec2Isabelle
  imports Main "HOL-Library.Word"
begin

section \<open>The TensorRT driver of LivePortrait (tensorrt\_driver.py)\<close>

text \<open>
  The theory embeds \<^verbatim>\<open>src/LivePortrait/commons/utils/tensorrt_driver.py\<close>: the class
  \<^verbatim>\<open>Binding\<close> and the class \<^verbatim>\<open>TensorRTEngine\<close> with its constructor, its input
  validation, \<^verbatim>\<open>run_sequential_tasks\<close> (the spec's \<open>run\<close>) and
  \<^verbatim>\<open>inference_tensorrt\<close> (the spec's \<open>infer\<close>).

  Python exceptions are values of the type \<open>error\<close>; a function that can raise returns
  \<open>error + 'a\<close> together with the world it leaves behind, since what was done before the
  raise stays done. The libraries the driver calls (numpy, pycuda, TensorRT, ctypes) are
  modelled by their effect on an explicit world: the objects allocated so far, the device
  memory, the address tables of the execution contexts and the trace of library calls.
  What those libraries decide on their own (which files exist, what a kernel computes,
  whether the device fails) is the parameter \<open>env\<close>.
\<close>

subsection \<open>numpy arrays\<close>

datatype np_dtype =
  np_float32 | np_float16 | np_int8 | np_bool | np_int32 | np_int64 | np_float64 | np_uint8

fun itemsize :: "np_dtype \<Rightarrow> nat" where
  "itemsize np_float32 = 4"
| "itemsize np_float16 = 2"
| "itemsize np_int8 = 1"
| "itemsize np_bool = 1"
| "itemsize np_int32 = 4"
| "itemsize np_int64 = 8"
| "itemsize np_float64 = 8"
| "itemsize np_uint8 = 1"

text \<open>
  An array has the address of its data (\<^verbatim>\<open>ctypes.data\<close>), an element type, a shape
  (\<open>[]\<close> is the 0-dimensional shape \<^verbatim>\<open>()\<close>) and its elements in row-major order. The
  elements of an integer array are its values; the elements of a floating point array are
  kept as opaque integers (their bit patterns), which the driver only ever copies.
\<close>

record ndarray =
  ctypes_data :: nat
  a_dtype :: np_dtype
  a_shape :: "nat list"
  a_data :: "int list"

subsection \<open>Exceptions\<close>

datatype message =
    BindingIndexOutOfRange nat
  | ModelNotFound string
  | InputCountMismatch string
  | WrongShape nat "nat list" "nat list"
  | WrongDtype nat np_dtype np_dtype
  | CannotSafelyCast nat np_dtype np_dtype
  | InputsNotList
  | TaskNotFound string
  | ListIndexOutOfRange

datatype trt_DataType = FLOAT | HALF | INT8 | BOOL | INT32 | INT64 | UINT8 | FP8 | BF16 | INT4

datatype key = StrKey string | DataTypeKey trt_DataType

datatype error =
    ValueError message
  | TypeError message
  | IndexError message
  | KeyError key
  | OSError string
  | AttributeError
  | LogicError

subsection \<open>The engine as TensorRT reports it\<close>

datatype TensorIOMode = NONE | INPUT | OUTPUT

record tensor =
  tensor_name :: string
  tensor_mode :: TensorIOMode
  tensor_dtype :: trt_DataType
  tensor_shape :: "nat list"
  shape_inference_io :: bool

type_synonym engine = "tensor list"

definition num_io_tensors :: "engine \<Rightarrow> nat" where
  "num_io_tensors e = length e"

text \<open>An index out of range has no name; the lookups by name take the first tensor of
  that name and answer a name the engine does not have with TensorRT's defaults.\<close>

definition get_tensor_name :: "engine \<Rightarrow> nat \<Rightarrow> string" where
  "get_tensor_name e i = (if i < length e then tensor_name (e ! i) else [])"

definition get_tensor :: "engine \<Rightarrow> string \<Rightarrow> tensor option" where
  "get_tensor e n = find (\<lambda>t. tensor_name t = n) e"

definition get_tensor_mode :: "engine \<Rightarrow> string \<Rightarrow> TensorIOMode" where
  "get_tensor_mode e n = (case get_tensor e n of Some t \<Rightarrow> tensor_mode t | None \<Rightarrow> NONE)"

definition get_tensor_dtype :: "engine \<Rightarrow> string \<Rightarrow> trt_DataType" where
  "get_tensor_dtype e n = (case get_tensor e n of Some t \<Rightarrow> tensor_dtype t | None \<Rightarrow> FLOAT)"

definition get_tensor_shape :: "engine \<Rightarrow> string \<Rightarrow> nat list" where
  "get_tensor_shape e n = (case get_tensor e n of Some t \<Rightarrow> tensor_shape t | None \<Rightarrow> [])"

definition is_shape_inference_io :: "engine \<Rightarrow> string \<Rightarrow> bool" where
  "is_shape_inference_io e n =
     (case get_tensor e n of Some t \<Rightarrow> shape_inference_io t | None \<Rightarrow> False)"

subsection \<open>Binding\<close>

record Binding =
  name :: string
  is_input :: bool
  dtype :: np_dtype
  shape :: "nat list"
  host_buf :: "nat option"
  device_buf :: "nat option"

text \<open>The table \<^verbatim>\<open>dtype_map\<close> of \<^verbatim>\<open>Binding.__init__\<close>, for a TensorRT that has both
  \<^verbatim>\<open>INT32\<close> and \<^verbatim>\<open>INT64\<close> (lines 24 to 27); a TensorRT type outside it is a
  \<^verbatim>\<open>KeyError\<close>.\<close>

fun dtype_map :: "trt_DataType \<Rightarrow> np_dtype option" where
  "dtype_map FLOAT = Some np_float32"
| "dtype_map HALF = Some np_float16"
| "dtype_map INT8 = Some np_int8"
| "dtype_map BOOL = Some np_bool"
| "dtype_map INT32 = Some np_int32"
| "dtype_map INT64 = Some np_int64"
| "dtype_map _ = None"

definition Binding_init :: "engine \<Rightarrow> nat \<Rightarrow> error + Binding" where
  "Binding_init e idx =
     (let n = get_tensor_name e idx in
      if n = [] then Inl (IndexError (BindingIndexOutOfRange idx))
      else case dtype_map (get_tensor_dtype e n) of
             None \<Rightarrow> Inl (KeyError (DataTypeKey (get_tensor_dtype e n)))
           | Some d \<Rightarrow>
               Inr \<lparr>name = n, is_input = (get_tensor_mode e n = INPUT), dtype = d,
                    shape = get_tensor_shape e n, host_buf = None, device_buf = None\<rparr>)"

subsection \<open>The world\<close>

record dev_buffer =
  nbytes :: nat
  contents :: "int list"

datatype event =
    Ev_CDLL string
  | Ev_init_libnvinfer_plugins
  | Ev_Stream
  | Ev_deserialize_cuda_engine string
  | Ev_create_execution_context nat
  | Ev_gpuarray_empty nat nat
  | Ev_pagelocked_empty nat nat
  | Ev_get_async nat nat
  | Ev_memcpy_htod nat ndarray
  | Ev_set_tensor_address nat string nat
  | Ev_execute_async_v3 nat
  | Ev_synchronize
  | Ev_memcpy_dtoh nat nat
  | Ev_print string string

text \<open>
  \<open>heap\<close> holds the \<^verbatim>\<open>Binding\<close> objects; a reference to one is its index, so the lists
  \<^verbatim>\<open>self.bindings[m]\<close>, \<^verbatim>\<open>self.inputs[m]\<close> and \<^verbatim>\<open>self.outputs[m]\<close> share their objects as
  in Python. \<open>tables\<close> holds the address table of every execution context, \<open>device\<close>
  the device memory by address, \<open>pinned\<close> the page-locked host buffers. Host and device
  addresses are handed out in increasing order. \<open>trace\<close> lists the library calls with an
  effect outside the interpreter, oldest first.
\<close>

record world =
  heap :: "Binding list"
  tables :: "(string \<rightharpoonup> nat) list"
  device :: "nat \<rightharpoonup> dev_buffer"
  pinned :: "nat \<rightharpoonup> nat"
  next_device_ptr :: nat
  next_host_ptr :: nat
  trace :: "event list"

datatype path_content = Missing | Corrupt | Serialized engine

datatype exec_outcome =
    Raises_on_submit string
  | Raises_on_synchronize string
  | Completes "(nat \<times> int list) list"

text \<open>
  What the driver cannot decide: whether \<^verbatim>\<open>ctypes.CDLL\<close> finds the library, what a path
  holds, what fresh device and host memory contain, and what an execution does (raise in
  \<^verbatim>\<open>execute_async_v3\<close>, raise in \<^verbatim>\<open>synchronize\<close>, or complete with writes to device
  memory), given the engine, the address table and the device memory.
\<close>

record env =
  library_loads :: "string \<Rightarrow> bool"
  file_at :: "string \<Rightarrow> path_content"
  uninitialised :: "nat \<Rightarrow> int list"
  uninitialised_host :: "nat \<Rightarrow> int list"
  execute :: "engine \<Rightarrow> (string \<rightharpoonup> nat) \<Rightarrow> (nat \<rightharpoonup> dev_buffer) \<Rightarrow> exec_outcome"

definition log :: "event \<Rightarrow> world \<Rightarrow> world" where
  "log ev w = w\<lparr>trace := trace w @ [ev]\<rparr>"

subsection \<open>The lazy buffers of a Binding\<close>

definition volume :: "nat list \<Rightarrow> nat" where
  "volume s = prod_list s"

text \<open>\<^verbatim>\<open>Binding.device_buffer\<close>: \<^verbatim>\<open>pycuda.gpuarray.empty\<close> on first access, the cached
  buffer afterwards. The result is the buffer's address (\<^verbatim>\<open>.ptr\<close>).\<close>

definition device_buffer :: "env \<Rightarrow> nat \<Rightarrow> world \<Rightarrow> nat \<times> world" where
  "device_buffer en r w =
     (let b = heap w ! r in
      case device_buf b of
        Some p \<Rightarrow> (p, w)
      | None \<Rightarrow>
          (let p = next_device_ptr w; n = volume (shape b) * itemsize (dtype b) in
           (p, log (Ev_gpuarray_empty p n)
                 (w\<lparr>heap := (heap w)[r := b\<lparr>device_buf := Some p\<rparr>],
                    device := (device w)(p \<mapsto> \<lparr>nbytes = n, contents = uninitialised en p\<rparr>),
                    next_device_ptr := Suc p\<rparr>))))"

text \<open>\<^verbatim>\<open>Binding.host_buffer\<close>: \<^verbatim>\<open>cuda.pagelocked_empty\<close> on first access.\<close>

definition host_buffer :: "nat \<Rightarrow> world \<Rightarrow> nat \<times> world" where
  "host_buffer r w =
     (let b = heap w ! r in
      case host_buf b of
        Some p \<Rightarrow> (p, w)
      | None \<Rightarrow>
          (let p = next_host_ptr w; n = volume (shape b) * itemsize (dtype b) in
           (p, log (Ev_pagelocked_empty p n)
                 (w\<lparr>heap := (heap w)[r := b\<lparr>host_buf := Some p\<rparr>],
                    pinned := (pinned w)(p \<mapsto> n),
                    next_host_ptr := Suc p\<rparr>))))"

text \<open>\<^verbatim>\<open>Binding.get_async\<close> schedules the copy and returns the host buffer itself.\<close>

definition get_async :: "env \<Rightarrow> nat \<Rightarrow> world \<Rightarrow> nat \<times> world" where
  "get_async en r w =
     (let (d, w1) = device_buffer en r w; (h, w2) = host_buffer r w1
      in host_buffer r (log (Ev_get_async d h) w2))"

subsection \<open>The numpy and pycuda calls of the driver\<close>

text \<open>
  \<^verbatim>\<open>astype\<close> makes a new array. Narrowing to 32 bits keeps the low 32 bits of each value,
  read as two's complement; widening to 64 bits keeps the value.
\<close>

definition astype_int32 :: "ndarray \<Rightarrow> world \<Rightarrow> ndarray \<times> world" where
  "astype_int32 a w =
     (\<lparr>ctypes_data = next_host_ptr w, a_dtype = np_int32, a_shape = a_shape a,
       a_data = map (\<lambda>v. sint (word_of_int v :: 32 word)) (a_data a)\<rparr>,
      w\<lparr>next_host_ptr := Suc (next_host_ptr w)\<rparr>)"

definition astype_int64 :: "ndarray \<Rightarrow> world \<Rightarrow> ndarray \<times> world" where
  "astype_int64 a w =
     (\<lparr>ctypes_data = next_host_ptr w, a_dtype = np_int64, a_shape = a_shape a,
       a_data = map (\<lambda>v. sint (word_of_int v :: 64 word)) (a_data a)\<rparr>,
      w\<lparr>next_host_ptr := Suc (next_host_ptr w)\<rparr>)"

definition array_equal :: "ndarray \<Rightarrow> ndarray \<Rightarrow> bool" where
  "array_equal a b = (a_shape a = a_shape b \<and> a_data a = a_data b)"

text \<open>\<^verbatim>\<open>np.array(x)\<close> copies its argument into a new array.\<close>

definition np_array :: "ndarray \<Rightarrow> world \<Rightarrow> ndarray \<times> world" where
  "np_array a w =
     (a\<lparr>ctypes_data := next_host_ptr w\<rparr>, w\<lparr>next_host_ptr := Suc (next_host_ptr w)\<rparr>)"

text \<open>\<^verbatim>\<open>np.ascontiguousarray\<close> keeps the elements and gives a 0-dimensional array one
  dimension. Its result is only read by the copy to the device; whether it is a new array
  depends on the memory layout of its argument, which the model does not have.\<close>

definition ascontiguousarray :: "ndarray \<Rightarrow> ndarray" where
  "ascontiguousarray a = (if a_shape a = [] then a\<lparr>a_shape := [1]\<rparr> else a)"

definition np_empty :: "env \<Rightarrow> nat list \<Rightarrow> np_dtype \<Rightarrow> world \<Rightarrow> ndarray \<times> world" where
  "np_empty en s d w =
     (\<lparr>ctypes_data = next_host_ptr w, a_dtype = d, a_shape = s,
       a_data = uninitialised_host en (next_host_ptr w)\<rparr>,
      w\<lparr>next_host_ptr := Suc (next_host_ptr w)\<rparr>)"

text \<open>The copies between host and device; an address that is no device buffer is an
  error of the CUDA driver.\<close>

definition memcpy_htod :: "nat \<Rightarrow> ndarray \<Rightarrow> world \<Rightarrow> (error + unit) \<times> world" where
  "memcpy_htod p a w =
     (case device w p of
        None \<Rightarrow> (Inl LogicError, w)
      | Some buf \<Rightarrow>
          (Inr (), log (Ev_memcpy_htod p a)
                     (w\<lparr>device := (device w)(p \<mapsto> buf\<lparr>contents := a_data a\<rparr>)\<rparr>)))"

definition memcpy_dtoh :: "ndarray \<Rightarrow> nat \<Rightarrow> world \<Rightarrow> (error + ndarray) \<times> world" where
  "memcpy_dtoh a p w =
     (case device w p of
        None \<Rightarrow> (Inl LogicError, w)
      | Some buf \<Rightarrow>
          (Inr (a\<lparr>a_data := contents buf\<rparr>), log (Ev_memcpy_dtoh (ctypes_data a) p) w))"

definition set_tensor_address :: "nat \<Rightarrow> string \<Rightarrow> nat \<Rightarrow> world \<Rightarrow> world" where
  "set_tensor_address ctx n a w =
     log (Ev_set_tensor_address ctx n a)
       (w\<lparr>tables := (tables w)[ctx := (tables w ! ctx)(n \<mapsto> a)]\<rparr>)"

text \<open>The writes of a completed execution reach the device buffers they name.\<close>

fun apply_writes :: "(nat \<times> int list) list \<Rightarrow> (nat \<rightharpoonup> dev_buffer) \<Rightarrow> (nat \<rightharpoonup> dev_buffer)" where
  "apply_writes [] d = d"
| "apply_writes ((p, xs) # ws) d =
     apply_writes ws (case d p of None \<Rightarrow> d | Some buf \<Rightarrow> d(p \<mapsto> buf\<lparr>contents := xs\<rparr>))"

subsection \<open>TensorRTEngine.check\_input\_validity\<close>

text \<open>
  Line 122 rebinds \<^verbatim>\<open>input_array\<close> to the narrowed array, so line 123 compares the
  narrowed array with its own widening, and the message of line 125 names the narrowed
  array's type.
\<close>

definition check_input_validity ::
  "nat \<Rightarrow> ndarray \<Rightarrow> Binding \<Rightarrow> world \<Rightarrow> (error + ndarray) \<times> world" where
  "check_input_validity input_idx input_array input_binding w =
     (if a_shape input_array \<noteq> shape input_binding \<and>
         \<not> (shape input_binding = [1] \<and> a_shape input_array = [])
      then (Inl (ValueError (WrongShape input_idx (shape input_binding) (a_shape input_array))), w)
      else if a_dtype input_array \<noteq> dtype input_binding then
        (if a_dtype input_array = np_int64 \<and> dtype input_binding = np_int32 then
           (let (input_array', w1) = astype_int32 input_array w;
                (widened, w2) = astype_int64 input_array' w1
            in if \<not> array_equal input_array' widened
               then (Inl (TypeError (CannotSafelyCast input_idx (dtype input_binding)
                                       (a_dtype input_array'))), w2)
               else (Inr input_array', w2))
         else (Inl (TypeError (WrongDtype input_idx (dtype input_binding)
                                 (a_dtype input_array))), w))
      else (Inr input_array, w))"

subsection \<open>The manager\<close>

record TensorRTEngine =
  cfg :: "string \<rightharpoonup> string"
  model_paths :: "(string \<times> string) list"
  plugin_path :: string
  engines :: "string \<rightharpoonup> engine"
  contexts :: "string \<rightharpoonup> nat"
  bindings :: "string \<rightharpoonup> nat list"
  binding_addresses :: "string \<rightharpoonup> nat list"
  inputs :: "string \<rightharpoonup> nat list"
  outputs :: "string \<rightharpoonup> nat list"

datatype run_inputs = InList "ndarray list" | InDict "string \<rightharpoonup> ndarray"

datatype pyval = PyNone | PyInt int | PyTuple "pyval list" | PyList "pyval list" | PyArray ndarray

subsection \<open>Construction\<close>

text \<open>Lines 59 to 76: the six model names with the key of \<^verbatim>\<open>cfg\<close> each path is read
  from, in the order of the dictionary literal.\<close>

definition model_keys :: "bool \<Rightarrow> (string \<times> string) list" where
  "model_keys half =
     (if half then
        [(''feature_extractor'', ''rt_F_half''),
         (''motion_extractor'', ''rt_M_half''),
         (''generator'', ''rt_GW_half''),
         (''stitching_retargeting'', ''rt_S_half''),
         (''stitching_retargeting_eye'', ''rt_SE_half''),
         (''stitching_retargeting_lip'', ''rt_SL_half'')]
      else
        [(''feature_extractor'', ''rt_F''),
         (''motion_extractor'', ''rt_M''),
         (''generator'', ''rt_GW''),
         (''stitching_retargeting'', ''rt_S''),
         (''stitching_retargeting_eye'', ''rt_SE''),
         (''stitching_retargeting_lip'', ''rt_SL'')])"

fun read_paths ::
  "(string \<rightharpoonup> string) \<Rightarrow> (string \<times> string) list \<Rightarrow> error + (string \<times> string) list" where
  "read_paths c [] = Inr []"
| "read_paths c ((model_name, k) # rest) =
     (case c k of
        None \<Rightarrow> Inl (KeyError (StrKey k))
      | Some path \<Rightarrow>
          (case read_paths c rest of
             Inl e \<Rightarrow> Inl e
           | Inr ps \<Rightarrow> Inr ((model_name, path) # ps)))"

definition load_plugins :: "env \<Rightarrow> string \<Rightarrow> world \<Rightarrow> (error + unit) \<times> world" where
  "load_plugins en path w =
     (if library_loads en path
      then (Inr (), log Ev_init_libnvinfer_plugins (log (Ev_CDLL path) w))
      else (Inl (OSError path), w))"

text \<open>\<^verbatim>\<open>load_engine\<close>: \<^verbatim>\<open>open\<close> raises for a missing file, and
  \<^verbatim>\<open>deserialize_cuda_engine\<close> returns \<^verbatim>\<open>None\<close> for a blob that is no engine.\<close>

definition load_engine :: "env \<Rightarrow> string \<Rightarrow> world \<Rightarrow> (error + engine option) \<times> world" where
  "load_engine en engine_file_path w =
     (case file_at en engine_file_path of
        Missing \<Rightarrow> (Inl (OSError engine_file_path), w)
      | Corrupt \<Rightarrow> (Inr None, log (Ev_deserialize_cuda_engine engine_file_path) w)
      | Serialized e \<Rightarrow> (Inr (Some e), log (Ev_deserialize_cuda_engine engine_file_path) w))"

text \<open>Line 96: \<^verbatim>\<open>[Binding(engine, i) for i in range(engine.num_io_tensors)]\<close>; each new
  object goes to the end of the heap.\<close>

fun make_bindings :: "engine \<Rightarrow> nat list \<Rightarrow> world \<Rightarrow> (error + nat list) \<times> world" where
  "make_bindings e [] w = (Inr [], w)"
| "make_bindings e (i # is) w =
     (case Binding_init e i of
        Inl err \<Rightarrow> (Inl err, w)
      | Inr b \<Rightarrow>
          (case make_bindings e is (w\<lparr>heap := heap w @ [b]\<rparr>) of
             (Inl err, w1) \<Rightarrow> (Inl err, w1)
           | (Inr rs, w1) \<Rightarrow> (Inr (length (heap w) # rs), w1)))"

text \<open>Line 100: \<^verbatim>\<open>[b.device_buffer.ptr for b in bindings]\<close>.\<close>

fun device_ptrs :: "env \<Rightarrow> nat list \<Rightarrow> world \<Rightarrow> nat list \<times> world" where
  "device_ptrs en [] w = ([], w)"
| "device_ptrs en (r # rs) w =
     (let (p, w1) = device_buffer en r w; (ps, w2) = device_ptrs en rs w1 in (p # ps, w2))"

text \<open>Lines 111 and 112: the loop of \<^verbatim>\<open>prepare_buffers\<close> reads \<^verbatim>\<open>device_buffer\<close> of every
  input and output binding and drops the result.\<close>

fun force_device_buffers :: "env \<Rightarrow> nat list \<Rightarrow> world \<Rightarrow> world" where
  "force_device_buffers en [] w = w"
| "force_device_buffers en (r # rs) w = force_device_buffers en rs (snd (device_buffer en r w))"

definition prepare_buffers ::
  "env \<Rightarrow> TensorRTEngine \<Rightarrow> string \<Rightarrow> world \<Rightarrow> (error + unit) \<times> world" where
  "prepare_buffers en self model_name w =
     (case inputs self model_name of
        None \<Rightarrow> (Inl (KeyError (StrKey model_name)), w)
      | Some ins \<Rightarrow>
          (case outputs self model_name of
             None \<Rightarrow> (Inl (KeyError (StrKey model_name)), w)
           | Some outs \<Rightarrow> (Inr (), force_device_buffers en (ins @ outs) w)))"

text \<open>Lines 94 to 103: the body of the loop of \<^verbatim>\<open>initialize_engines\<close> for one entry of
  \<^verbatim>\<open>self.model_paths\<close>.\<close>

definition load_model ::
  "env \<Rightarrow> string \<Rightarrow> string \<Rightarrow> TensorRTEngine \<Rightarrow> world \<Rightarrow> (error + TensorRTEngine) \<times> world"
  where
  "load_model en model_name model_path self w =
     (case load_engine en model_path w of
        (Inl err, w1) \<Rightarrow> (Inl err, w1)
      | (Inr None, w1) \<Rightarrow> (Inl AttributeError, w1)
      | (Inr (Some e), w1) \<Rightarrow>
          (let ctx = length (tables w1);
               w2 = log (Ev_create_execution_context ctx) (w1\<lparr>tables := tables w1 @ [Map.empty]\<rparr>)
           in case make_bindings e [0 ..< num_io_tensors e] w2 of
                (Inl err, w3) \<Rightarrow> (Inl err, w3)
              | (Inr bs, w3) \<Rightarrow>
                  (let (addrs, w4) = device_ptrs en bs w3;
                       self1 = self
                         \<lparr>engines := (engines self)(model_name \<mapsto> e),
                          contexts := (contexts self)(model_name \<mapsto> ctx),
                          bindings := (bindings self)(model_name \<mapsto> bs),
                          binding_addresses := (binding_addresses self)(model_name \<mapsto> addrs),
                          inputs := (inputs self)
                            (model_name \<mapsto> filter (\<lambda>r. is_input (heap w4 ! r)) bs),
                          outputs := (outputs self)
                            (model_name \<mapsto> filter (\<lambda>r. \<not> is_input (heap w4 ! r)) bs)\<rparr>
                   in case prepare_buffers en self1 model_name w4 of
                        (Inl err, w5) \<Rightarrow> (Inl err, w5)
                      | (Inr u, w5) \<Rightarrow> (Inr self1, w5))))"

text \<open>Line 93: the loop over \<^verbatim>\<open>self.model_paths.items()\<close>, for the entries still to do.\<close>

fun initialize_engines ::
  "env \<Rightarrow> (string \<times> string) list \<Rightarrow> TensorRTEngine \<Rightarrow> world \<Rightarrow> (error + TensorRTEngine) \<times> world"
  where
  "initialize_engines en [] self w = (Inr self, w)"
| "initialize_engines en ((model_name, model_path) # rest) self w =
     (case load_model en model_name model_path self w of
        (Inl err, w1) \<Rightarrow> (Inl err, w1)
      | (Inr self1, w1) \<Rightarrow> initialize_engines en rest self1 w1)"

text \<open>\<^verbatim>\<open>TensorRTEngine.__init__\<close>.\<close>

definition TensorRTEngine_init ::
  "env \<Rightarrow> bool \<Rightarrow> (string \<rightharpoonup> string) \<Rightarrow> world \<Rightarrow> (error + TensorRTEngine) \<times> world" where
  "TensorRTEngine_init en half kwargs w =
     (case read_paths kwargs (model_keys half) of
        Inl err \<Rightarrow> (Inl err, w)
      | Inr paths \<Rightarrow>
          (case kwargs ''grid_sample_3d'' of
             None \<Rightarrow> (Inl (KeyError (StrKey ''grid_sample_3d'')), w)
           | Some pp \<Rightarrow>
               (case load_plugins en pp w of
                  (Inl err, w1) \<Rightarrow> (Inl err, w1)
                | (Inr u, w1) \<Rightarrow>
                    initialize_engines en paths
                      \<lparr>cfg = kwargs, model_paths = paths, plugin_path = pp,
                       engines = Map.empty, contexts = Map.empty, bindings = Map.empty,
                       binding_addresses = Map.empty, inputs = Map.empty,
                       outputs = Map.empty\<rparr>
                      (log Ev_Stream w1))))"

subsection \<open>TensorRTEngine.run\_sequential\_tasks\<close>

text \<open>Line 141: \<^verbatim>\<open>[inputs[b.name] for b in inputs_bindings]\<close>.\<close>

fun by_name :: "(string \<rightharpoonup> ndarray) \<Rightarrow> Binding list \<Rightarrow> error + ndarray list" where
  "by_name d [] = Inr []"
| "by_name d (b # bs) =
     (case d (name b) of
        None \<Rightarrow> Inl (KeyError (StrKey (name b)))
      | Some a \<Rightarrow> (case by_name d bs of Inl e \<Rightarrow> Inl e | Inr as \<Rightarrow> Inr (a # as)))"

text \<open>Lines 140 and 141: a dictionary is turned into the list of its arrays in the
  order of the input bindings; anything else is used as the list it is.\<close>

definition as_list :: "run_inputs \<Rightarrow> Binding list \<Rightarrow> error + ndarray list" where
  "as_list ins inputs_bindings =
     (case ins of InList xs \<Rightarrow> Inr xs | InDict d \<Rightarrow> by_name d inputs_bindings)"

text \<open>Lines 145 to 148: each input is validated and then copied at once, before the next
  input is looked at.\<close>

fun copy_inputs ::
  "env \<Rightarrow> nat \<Rightarrow> (ndarray \<times> nat) list \<Rightarrow> world \<Rightarrow> (error + unit) \<times> world" where
  "copy_inputs en i [] w = (Inr (), w)"
| "copy_inputs en i ((input_array, r) # rest) w =
     (case check_input_validity i input_array (heap w ! r) w of
        (Inl e, w1) \<Rightarrow> (Inl e, w1)
      | (Inr checked, w1) \<Rightarrow>
          (let (p, w2) = device_buffer en r w1 in
           case memcpy_htod p (ascontiguousarray checked) w2 of
             (Inl e, w3) \<Rightarrow> (Inl e, w3)
           | (Inr u, w3) \<Rightarrow> copy_inputs en (Suc i) rest w3))"

text \<open>Lines 150 to 155, for the tensor indices still to do.\<close>

fun bind_tensors ::
  "engine \<Rightarrow> nat \<Rightarrow> nat list \<Rightarrow> ndarray list \<Rightarrow> nat list \<Rightarrow> world \<Rightarrow> (error + unit) \<times> world" where
  "bind_tensors e ctx addrs xs [] w = (Inr (), w)"
| "bind_tensors e ctx addrs xs (i # is) w =
     (let tensor_name = get_tensor_name e i in
      if i < length xs \<and> is_shape_inference_io e tensor_name
      then bind_tensors e ctx addrs xs is
             (set_tensor_address ctx tensor_name (ctypes_data (xs ! i)) w)
      else if i < length addrs
      then bind_tensors e ctx addrs xs is (set_tensor_address ctx tensor_name (addrs ! i) w)
      else (Inl (IndexError ListIndexOutOfRange), w))"

text \<open>Lines 164 to 168.\<close>

fun fetch_outputs :: "env \<Rightarrow> nat list \<Rightarrow> world \<Rightarrow> (error + ndarray list) \<times> world" where
  "fetch_outputs en [] w = (Inr [], w)"
| "fetch_outputs en (r # rs) w =
     (let (host_output, w1) = np_empty en (shape (heap w ! r)) (dtype (heap w ! r)) w;
          (p, w2) = device_buffer en r w1
      in case memcpy_dtoh host_output p w2 of
           (Inl e, w3) \<Rightarrow> (Inl e, w3)
         | (Inr filled, w3) \<Rightarrow>
             (case fetch_outputs en rs w3 of
                (Inl e, w4) \<Rightarrow> (Inl e, w4)
              | (Inr others, w4) \<Rightarrow> (Inr (filled # others), w4)))"

text \<open>Lines 157 to 170: the execution, its \<^verbatim>\<open>except\<close> branch and the outputs.\<close>

definition execute_and_fetch ::
  "env \<Rightarrow> string \<Rightarrow> engine \<Rightarrow> nat \<Rightarrow> nat list \<Rightarrow> world \<Rightarrow> (error + pyval) \<times> world" where
  "execute_and_fetch en model_name e ctx outputs_bindings w =
     (case execute en e (tables w ! ctx) (device w) of
        Raises_on_submit msg \<Rightarrow>
          (Inr (PyTuple [PyNone, PyInt 0]),
           log (Ev_print model_name msg) (log (Ev_execute_async_v3 ctx) w))
      | Raises_on_synchronize msg \<Rightarrow>
          (Inr (PyTuple [PyNone, PyInt 0]),
           log (Ev_print model_name msg) (log Ev_synchronize (log (Ev_execute_async_v3 ctx) w)))
      | Completes writes \<Rightarrow>
          (case fetch_outputs en outputs_bindings
                  (log Ev_synchronize (log (Ev_execute_async_v3 ctx)
                     (w\<lparr>device := apply_writes writes (device w)\<rparr>))) of
             (Inl err, w1) \<Rightarrow> (Inl err, w1)
           | (Inr arrays, w1) \<Rightarrow> (Inr (PyList (map PyArray arrays)), w1)))"

text \<open>Lines 132 to 155: everything \<^verbatim>\<open>run_sequential_tasks\<close> does before the \<^verbatim>\<open>try\<close>
  block. The result is what the rest of the function still reads: the engine, the
  context and the output bindings.\<close>

definition validate_and_bind ::
  "env \<Rightarrow> TensorRTEngine \<Rightarrow> string \<Rightarrow> run_inputs \<Rightarrow> world
     \<Rightarrow> (error + engine \<times> nat \<times> nat list) \<times> world" where
  "validate_and_bind en self model_name ins w =
     (case engines self model_name of
        None \<Rightarrow> (Inl (ValueError (ModelNotFound model_name)), w)
      | Some e \<Rightarrow>
     (case contexts self model_name of
        None \<Rightarrow> (Inl (KeyError (StrKey model_name)), w)
      | Some ctx \<Rightarrow>
     (case binding_addresses self model_name of
        None \<Rightarrow> (Inl (KeyError (StrKey model_name)), w)
      | Some addrs \<Rightarrow>
     (case inputs self model_name of
        None \<Rightarrow> (Inl (KeyError (StrKey model_name)), w)
      | Some inputs_bindings \<Rightarrow>
     (case outputs self model_name of
        None \<Rightarrow> (Inl (KeyError (StrKey model_name)), w)
      | Some outputs_bindings \<Rightarrow>
     (case as_list ins (map (\<lambda>r. heap w ! r) inputs_bindings) of
        Inl err \<Rightarrow> (Inl err, w)
      | Inr xs \<Rightarrow>
          if length xs \<noteq> length inputs_bindings
          then (Inl (ValueError (InputCountMismatch model_name)), w)
          else
            (case copy_inputs en 0 (zip xs inputs_bindings) w of
               (Inl err, w1) \<Rightarrow> (Inl err, w1)
             | (Inr u, w1) \<Rightarrow>
                 (case bind_tensors e ctx addrs xs [0 ..< num_io_tensors e] w1 of
                    (Inl err, w2) \<Rightarrow> (Inl err, w2)
                  | (Inr u', w2) \<Rightarrow> (Inr (e, ctx, outputs_bindings), w2)))))))))"

definition run_sequential_tasks ::
  "env \<Rightarrow> TensorRTEngine \<Rightarrow> string \<Rightarrow> run_inputs \<Rightarrow> world \<Rightarrow> (error + pyval) \<times> world" where
  "run_sequential_tasks en self model_name ins w =
     (case validate_and_bind en self model_name ins w of
        (Inl err, w1) \<Rightarrow> (Inl err, w1)
      | (Inr (e, ctx, outputs_bindings), w2) \<Rightarrow>
          execute_and_fetch en model_name e ctx outputs_bindings w2)"

subsection \<open>TensorRTEngine.inference\_tensorrt\<close>

text \<open>Lines 179 and 180: every element is copied by \<^verbatim>\<open>np.array\<close> and validated against
  \<^verbatim>\<open>self.inputs[task][i]\<close>, all of them before \<^verbatim>\<open>run_sequential_tasks\<close> is called.\<close>

fun check_all ::
  "nat \<Rightarrow> ndarray list \<Rightarrow> nat list \<Rightarrow> world \<Rightarrow> (error + ndarray list) \<times> world" where
  "check_all i [] rs w = (Inr [], w)"
| "check_all i (input_array # rest) rs w =
     (let (copied, w1) = np_array input_array w in
      if \<not> i < length rs then (Inl (IndexError ListIndexOutOfRange), w1)
      else case check_input_validity i copied (heap w1 ! (rs ! i)) w1 of
             (Inl e, w2) \<Rightarrow> (Inl e, w2)
           | (Inr checked, w2) \<Rightarrow>
               (case check_all (Suc i) rest rs w2 of
                  (Inl e, w3) \<Rightarrow> (Inl e, w3)
                | (Inr others, w3) \<Rightarrow> (Inr (checked # others), w3)))"

definition inference_tensorrt ::
  "env \<Rightarrow> TensorRTEngine \<Rightarrow> string \<Rightarrow> run_inputs \<Rightarrow> world \<Rightarrow> (error + pyval) \<times> world" where
  "inference_tensorrt en self task ins w =
     (case ins of
        InDict d \<Rightarrow> (Inl (TypeError InputsNotList), w)
      | InList xs \<Rightarrow>
          (case inputs self task of
             None \<Rightarrow> (Inl (ValueError (TaskNotFound task)), w)
           | Some rs \<Rightarrow>
               (case check_all 0 xs rs w of
                  (Inl e, w1) \<Rightarrow> (Inl e, w1)
                | (Inr checked, w1) \<Rightarrow> run_sequential_tasks en self task (InList checked) w1)))"

section \<open>Invariants and names used in the proofs\<close>

subsection \<open>A well-formed manager\<close>

text \<open>
  A binding is allocated when its device buffer exists and has the size of its tensor:
  the volume of the shape times the size of an element. A binding describes the tensor
  of an index when its fields are what \<^verbatim>\<open>Binding.__init__\<close> reads from the engine for that
  index.
\<close>

definition allocated :: "world \<Rightarrow> nat \<Rightarrow> bool" where
  "allocated w r \<longleftrightarrow>
     r < length (heap w) \<and>
     (\<exists>p buf. device_buf (heap w ! r) = Some p \<and> p < next_device_ptr w \<and>
        device w p = Some buf \<and>
        nbytes buf = volume (shape (heap w ! r)) * itemsize (dtype (heap w ! r)))"

definition describes :: "engine \<Rightarrow> nat \<Rightarrow> Binding \<Rightarrow> bool" where
  "describes e i b \<longleftrightarrow>
     name b = get_tensor_name e i \<and>
     is_input b = (get_tensor_mode e (get_tensor_name e i) = INPUT) \<and>
     dtype_map (get_tensor_dtype e (get_tensor_name e i)) = Some (dtype b) \<and>
     shape b = get_tensor_shape e (get_tensor_name e i)"

text \<open>
  The state of one model after \<^verbatim>\<open>initialize_engines\<close>: its context exists, its bindings
  are one per tensor in the engine's order, all allocated, \<^verbatim>\<open>binding_addresses\<close> caches
  their device addresses, and \<^verbatim>\<open>inputs\<close> and \<^verbatim>\<open>outputs\<close> are the input and the other
  bindings in that order. A manager is well-formed when this holds for every model it has,
  and \<^verbatim>\<open>self.inputs\<close> has the keys of \<^verbatim>\<open>self.engines\<close>.
\<close>

definition model_facts ::
  "TensorRTEngine \<Rightarrow> world \<Rightarrow> string \<Rightarrow> engine \<Rightarrow> nat \<Rightarrow> nat list \<Rightarrow> nat list \<Rightarrow> bool" where
  "model_facts self w n e ctx bs addrs \<longleftrightarrow>
     contexts self n = Some ctx \<and> ctx < length (tables w) \<and>
     bindings self n = Some bs \<and> binding_addresses self n = Some addrs \<and>
     inputs self n = Some (filter (\<lambda>r. is_input (heap w ! r)) bs) \<and>
     outputs self n = Some (filter (\<lambda>r. \<not> is_input (heap w ! r)) bs) \<and>
     length bs = length e \<and>
     (\<forall>i<length e. allocated w (bs ! i) \<and> describes e i (heap w ! (bs ! i))) \<and>
     map (\<lambda>r. device_buf (heap w ! r)) bs = map Some addrs"

definition wf_model :: "TensorRTEngine \<Rightarrow> world \<Rightarrow> string \<Rightarrow> engine \<Rightarrow> bool" where
  "wf_model self w n e \<longleftrightarrow> (\<exists>ctx bs addrs. model_facts self w n e ctx bs addrs)"

definition wf :: "TensorRTEngine \<Rightarrow> world \<Rightarrow> bool" where
  "wf self w \<longleftrightarrow>
     (\<forall>n e. engines self n = Some e \<longrightarrow> wf_model self w n e) \<and>
     dom (inputs self) = dom (engines self)"

text \<open>
  No binding of the manager has a page-locked host buffer; and every host address in use
  (a host buffer of any binding, a page-locked block) lies below the next address that the
  host allocator hands out.
\<close>

definition lazy_hosts :: "TensorRTEngine \<Rightarrow> world \<Rightarrow> bool" where
  "lazy_hosts self w \<longleftrightarrow>
     (\<forall>n e bs. engines self n = Some e \<longrightarrow> bindings self n = Some bs \<longrightarrow>
        (\<forall>r\<in>set bs. host_buf (heap w ! r) = None))"

definition hosts_below :: "world \<Rightarrow> bool" where
  "hosts_below w \<longleftrightarrow>
     (\<forall>b\<in>set (heap w). \<forall>q. host_buf b = Some q \<longrightarrow> q < next_host_ptr w) \<and>
     (\<forall>q. pinned w q \<noteq> None \<longrightarrow> q < next_host_ptr w)"

subsection \<open>Relations between worlds\<close>

text \<open>
  \<open>same_buffers\<close>: no \<^verbatim>\<open>Binding\<close> object, no buffer allocation and no context was added
  or changed; only the contents of device buffers, the address tables, the host allocator
  and the trace may differ. \<open>grows\<close>: bindings without a device buffer may have received
  one, everything allocated before is as it was. \<open>keeps\<close>: what was allocated is still
  allocated and is the same object.
\<close>

definition same_buffers :: "world \<Rightarrow> world \<Rightarrow> bool" where
  "same_buffers w w' \<longleftrightarrow>
     heap w' = heap w \<and> pinned w' = pinned w \<and> next_device_ptr w' = next_device_ptr w \<and>
     length (tables w') = length (tables w) \<and>
     (\<forall>p. map_option nbytes (device w' p) = map_option nbytes (device w p)) \<and>
     next_host_ptr w \<le> next_host_ptr w'"

definition good :: "world \<Rightarrow> nat \<Rightarrow> bool" where
  "good w r \<longleftrightarrow> r < length (heap w) \<and> (device_buf (heap w ! r) = None \<or> allocated w r)"

definition grows :: "world \<Rightarrow> world \<Rightarrow> bool" where
  "grows w w' \<longleftrightarrow>
     length (heap w') = length (heap w) \<and> tables w' = tables w \<and> pinned w' = pinned w \<and>
     next_host_ptr w' = next_host_ptr w \<and> next_device_ptr w \<le> next_device_ptr w' \<and>
     (\<forall>p<next_device_ptr w. device w' p = device w p) \<and>
     (\<forall>r<length (heap w).
        heap w' ! r = heap w ! r \<or>
        (device_buf (heap w ! r) = None \<and> allocated w' r \<and>
         (\<exists>p. heap w' ! r = (heap w ! r)\<lparr>device_buf := Some p\<rparr>)))"

definition keeps :: "world \<Rightarrow> world \<Rightarrow> bool" where
  "keeps w w' \<longleftrightarrow>
     length (tables w) \<le> length (tables w') \<and>
     (\<forall>r. allocated w r \<longrightarrow> allocated w' r \<and> heap w' ! r = heap w ! r)"

text \<open>
  The events of loading and registering the plugin, and a step that adds none of them
  to the trace.
\<close>

definition plugin_event :: "event \<Rightarrow> bool" where
  "plugin_event ev = (case ev of Ev_CDLL p \<Rightarrow> True | Ev_init_libnvinfer_plugins \<Rightarrow> True | _ \<Rightarrow> False)"

definition quiet :: "world \<Rightarrow> world \<Rightarrow> bool" where
  "quiet w w' \<longleftrightarrow> (\<exists>evs. trace w' = trace w @ evs \<and> list_all (\<lambda>ev. \<not> plugin_event ev) evs)"

subsection \<open>Names for what the code computes\<close>

text \<open>
  The world after the copy of a validated input to its device buffer (lines 147 and 148);
  the array that lines 166 and 167 build for an output binding at a host address; the
  arrays \<^verbatim>\<open>check_input_validity\<close> lets through, and the exception it raises for the
  others; the address that lines 152 to 155 bind to a tensor index.
\<close>

definition after_copy :: "nat \<Rightarrow> ndarray \<Rightarrow> world \<Rightarrow> world" where
  "after_copy p a w =
     log (Ev_memcpy_htod p (ascontiguousarray a))
       (w\<lparr>device := (device w)
             (p \<mapsto> (the (device w p))\<lparr>contents := a_data (ascontiguousarray a)\<rparr>)\<rparr>)"

definition fetched :: "world \<Rightarrow> nat \<times> nat \<Rightarrow> ndarray" where
  "fetched w = (\<lambda>(h, r).
     \<lparr>ctypes_data = h, a_dtype = dtype (heap w ! r), a_shape = shape (heap w ! r),
      a_data = contents (the (device w (the (device_buf (heap w ! r)))))\<rparr>)"

definition acceptable :: "ndarray \<Rightarrow> Binding \<Rightarrow> bool" where
  "acceptable a b \<longleftrightarrow>
     (a_shape a = shape b \<or> (shape b = [1] \<and> a_shape a = [])) \<and>
     (a_dtype a = dtype b \<or> (a_dtype a = np_int64 \<and> dtype b = np_int32))"

definition rejection :: "nat \<Rightarrow> ndarray \<Rightarrow> Binding \<Rightarrow> error" where
  "rejection i a b =
     (if a_shape a \<noteq> shape b \<and> \<not> (shape b = [1] \<and> a_shape a = [])
      then ValueError (WrongShape i (shape b) (a_shape a))
      else TypeError (WrongDtype i (dtype b) (a_dtype a)))"

definition bound_address :: "engine \<Rightarrow> nat list \<Rightarrow> ndarray list \<Rightarrow> nat \<Rightarrow> nat" where
  "bound_address e addrs xs i =
     (if i < length xs \<and> is_shape_inference_io e (get_tensor_name e i)
      then ctypes_data (xs ! i) else addrs ! i)"

text \<open>
  The manager before the first model is loaded; a sequence of calls to
  \<^verbatim>\<open>run_sequential_tasks\<close> on one manager; and an engine that lists every input tensor
  before every other tensor, which is what line 152 relies on when it uses a tensor index
  as an index into \<^verbatim>\<open>inputs\<close>.
\<close>

definition no_manager :: "(string \<rightharpoonup> string) \<Rightarrow> (string \<times> string) list \<Rightarrow> string \<Rightarrow> TensorRTEngine"
  where
  "no_manager kwargs paths pp =
     \<lparr>cfg = kwargs, model_paths = paths, plugin_path = pp,
      engines = Map.empty, contexts = Map.empty, bindings = Map.empty,
      binding_addresses = Map.empty, inputs = Map.empty, outputs = Map.empty\<rparr>"

fun run_calls :: "env \<Rightarrow> TensorRTEngine \<Rightarrow> (string \<times> run_inputs) list \<Rightarrow> world \<Rightarrow> world" where
  "run_calls en self [] w = w"
| "run_calls en self ((n, ins) # calls) w =
     run_calls en self calls (snd (run_sequential_tasks en self n ins w))"

definition inputs_first :: "engine \<Rightarrow> bool" where
  "inputs_first e \<longleftrightarrow>
     list_all (\<lambda>t. tensor_mode t \<noteq> INPUT) (dropWhile (\<lambda>t. tensor_mode t = INPUT) e)"

subsection \<open>A small installation\<close>

text \<open>
  The concrete inputs of the examples below: the feature extractor has two inputs (a pair
  of 32-bit integers and a unit-shape float that is a shape-inference tensor) and one
  output, the other five models have one output each, every file and the plugin library
  exist, and the outcome of every execution is the parameter of \<open>tiny_env\<close>.
  \<open>tiny_self\<close> and \<open>tiny_world\<close> are the manager and the world that the constructor
  leaves behind (lemma \<open>tiny_init\<close>).
\<close>

definition tiny_engine :: engine where
  "tiny_engine =
     [\<lparr>tensor_name = ''x'', tensor_mode = INPUT, tensor_dtype = INT32, tensor_shape = [2],
       shape_inference_io = False\<rparr>,
      \<lparr>tensor_name = ''s'', tensor_mode = INPUT, tensor_dtype = FLOAT, tensor_shape = [1],
       shape_inference_io = True\<rparr>,
      \<lparr>tensor_name = ''y'', tensor_mode = OUTPUT, tensor_dtype = FLOAT, tensor_shape = [2],
       shape_inference_io = False\<rparr>]"

definition unit_engine :: engine where
  "unit_engine =
     [\<lparr>tensor_name = ''o'', tensor_mode = OUTPUT, tensor_dtype = HALF, tensor_shape = [1],
       shape_inference_io = False\<rparr>]"

definition tiny_env :: "exec_outcome \<Rightarrow> env" where
  "tiny_env out =
     \<lparr>library_loads = (\<lambda>p. True),
      file_at = (\<lambda>p. if p = ''F.trt'' then Serialized tiny_engine else Serialized unit_engine),
      uninitialised = (\<lambda>p. []), uninitialised_host = (\<lambda>p. []),
      execute = (\<lambda>e t d. out)\<rparr>"

definition tiny_cfg :: "string \<rightharpoonup> string" where
  "tiny_cfg = map_of
     [(''rt_F'', ''F.trt''), (''rt_M'', ''M.trt''), (''rt_GW'', ''GW.trt''),
      (''rt_S'', ''S.trt''), (''rt_SE'', ''SE.trt''), (''rt_SL'', ''SL.trt''),
      (''grid_sample_3d'', ''grid_sample_3d.so'')]"

definition fresh_world :: world where
  "fresh_world =
     \<lparr>heap = [], tables = [], device = Map.empty, pinned = Map.empty,
      next_device_ptr = 0, next_host_ptr = 100, trace = []\<rparr>"

definition tiny_self :: TensorRTEngine where
  "tiny_self =
     \<lparr>cfg = tiny_cfg,
      model_paths =
        [(''feature_extractor'', ''F.trt''), (''motion_extractor'', ''M.trt''),
         (''generator'', ''GW.trt''), (''stitching_retargeting'', ''S.trt''),
         (''stitching_retargeting_eye'', ''SE.trt''),
         (''stitching_retargeting_lip'', ''SL.trt'')],
      plugin_path = ''grid_sample_3d.so'',
      engines =
        [''feature_extractor'' \<mapsto> tiny_engine, ''motion_extractor'' \<mapsto> unit_engine,
         ''generator'' \<mapsto> unit_engine, ''stitching_retargeting'' \<mapsto> unit_engine,
         ''stitching_retargeting_eye'' \<mapsto> unit_engine,
         ''stitching_retargeting_lip'' \<mapsto> unit_engine],
      contexts =
        [''feature_extractor'' \<mapsto> 0, ''motion_extractor'' \<mapsto> 1, ''generator'' \<mapsto> 2,
         ''stitching_retargeting'' \<mapsto> 3, ''stitching_retargeting_eye'' \<mapsto> 4,
         ''stitching_retargeting_lip'' \<mapsto> 5],
      bindings =
        [''feature_extractor'' \<mapsto> [0, 1, 2], ''motion_extractor'' \<mapsto> [3],
         ''generator'' \<mapsto> [4], ''stitching_retargeting'' \<mapsto> [5],
         ''stitching_retargeting_eye'' \<mapsto> [6], ''stitching_retargeting_lip'' \<mapsto> [7]],
      binding_addresses =
        [''feature_extractor'' \<mapsto> [0, 1, 2], ''motion_extractor'' \<mapsto> [3],
         ''generator'' \<mapsto> [4], ''stitching_retargeting'' \<mapsto> [5],
         ''stitching_retargeting_eye'' \<mapsto> [6], ''stitching_retargeting_lip'' \<mapsto> [7]],
      inputs =
        [''feature_extractor'' \<mapsto> [0, 1], ''motion_extractor'' \<mapsto> [],
         ''generator'' \<mapsto> [], ''stitching_retargeting'' \<mapsto> [],
         ''stitching_retargeting_eye'' \<mapsto> [], ''stitching_retargeting_lip'' \<mapsto> []],
      outputs =
        [''feature_extractor'' \<mapsto> [2], ''motion_extractor'' \<mapsto> [3],
         ''generator'' \<mapsto> [4], ''stitching_retargeting'' \<mapsto> [5],
         ''stitching_retargeting_eye'' \<mapsto> [6], ''stitching_retargeting_lip'' \<mapsto> [7]]\<rparr>"

definition unit_binding :: "nat \<Rightarrow> Binding" where
  "unit_binding p =
     \<lparr>name = ''o'', is_input = False, dtype = np_float16, shape = [1], host_buf = None,
      device_buf = Some p\<rparr>"

definition tiny_world :: world where
  "tiny_world =
     \<lparr>heap =
        [\<lparr>name = ''x'', is_input = True, dtype = np_int32, shape = [2], host_buf = None,
          device_buf = Some 0\<rparr>,
         \<lparr>name = ''s'', is_input = True, dtype = np_float32, shape = [1], host_buf = None,
          device_buf = Some 1\<rparr>,
         \<lparr>name = ''y'', is_input = False, dtype = np_float32, shape = [2], host_buf = None,
          device_buf = Some 2\<rparr>,
         unit_binding 3, unit_binding 4, unit_binding 5, unit_binding 6, unit_binding 7],
      tables = [Map.empty, Map.empty, Map.empty, Map.empty, Map.empty, Map.empty],
      device =
        [0 \<mapsto> \<lparr>nbytes = 8, contents = []\<rparr>, 1 \<mapsto> \<lparr>nbytes = 4, contents = []\<rparr>,
         2 \<mapsto> \<lparr>nbytes = 8, contents = []\<rparr>, 3 \<mapsto> \<lparr>nbytes = 2, contents = []\<rparr>,
         4 \<mapsto> \<lparr>nbytes = 2, contents = []\<rparr>, 5 \<mapsto> \<lparr>nbytes = 2, contents = []\<rparr>,
         6 \<mapsto> \<lparr>nbytes = 2, contents = []\<rparr>, 7 \<mapsto> \<lparr>nbytes = 2, contents = []\<rparr>],
      pinned = Map.empty,
      next_device_ptr = 8,
      next_host_ptr = 100,
      trace =
        [Ev_CDLL ''grid_sample_3d.so'', Ev_init_libnvinfer_plugins, Ev_Stream,
         Ev_deserialize_cuda_engine ''F.trt'', Ev_create_execution_context 0,
         Ev_gpuarray_empty 0 8, Ev_gpuarray_empty 1 4, Ev_gpuarray_empty 2 8,
         Ev_deserialize_cuda_engine ''M.trt'', Ev_create_execution_context 1,
         Ev_gpuarray_empty 3 2,
         Ev_deserialize_cuda_engine ''GW.trt'', Ev_create_execution_context 2,
         Ev_gpuarray_empty 4 2,
         Ev_deserialize_cuda_engine ''S.trt'', Ev_create_execution_context 3,
         Ev_gpuarray_empty 5 2,
         Ev_deserialize_cuda_engine ''SE.trt'', Ev_create_execution_context 4,
         Ev_gpuarray_empty 6 2,
         Ev_deserialize_cuda_engine ''SL.trt'', Ev_create_execution_context 5,
         Ev_gpuarray_empty 7 2]\<rparr>"

definition good_x :: ndarray where
  "good_x = \<lparr>ctypes_data = 10, a_dtype = np_int32, a_shape = [2], a_data = [3, 4]\<rparr>"

definition wide_x :: ndarray where
  "wide_x = \<lparr>ctypes_data = 10, a_dtype = np_int64, a_shape = [2], a_data = [1, 2147483648]\<rparr>"

definition scalar_s :: ndarray where
  "scalar_s = \<lparr>ctypes_data = 11, a_dtype = np_float32, a_shape = [], a_data = [7]\<rparr>"

definition long_s :: ndarray where
  "long_s = \<lparr>ctypes_data = 11, a_dtype = np_float32, a_shape = [3], a_data = [7, 8, 9]\<rparr>"

subsection \<open>An installation whose feature extractor lists its output first\<close>

text \<open>
  The same installation with another engine for the feature extractor: its first tensor
  is the output \<open>y\<close>, its second the input \<open>s\<close>, a shape-inference tensor of shape
  \<open>(1,)\<close>. \<open>swapped_self\<close> and \<open>swapped_world\<close> are the manager and the world that the
  constructor leaves behind (lemma \<open>swapped_init\<close>).
\<close>

definition swapped_engine :: engine where
  "swapped_engine =
     [\<lparr>tensor_name = ''y'', tensor_mode = OUTPUT, tensor_dtype = FLOAT, tensor_shape = [2],
       shape_inference_io = False\<rparr>,
      \<lparr>tensor_name = ''s'', tensor_mode = INPUT, tensor_dtype = FLOAT, tensor_shape = [1],
       shape_inference_io = True\<rparr>]"

definition swapped_env :: "exec_outcome \<Rightarrow> env" where
  "swapped_env out =
     \<lparr>library_loads = (\<lambda>p. True),
      file_at = (\<lambda>p. if p = ''F.trt'' then Serialized swapped_engine else Serialized unit_engine),
      uninitialised = (\<lambda>p. []), uninitialised_host = (\<lambda>p. []),
      execute = (\<lambda>e t d. out)\<rparr>"

definition swapped_self :: TensorRTEngine where
  "swapped_self =
     \<lparr>cfg = tiny_cfg,
      model_paths =
        [(''feature_extractor'', ''F.trt''), (''motion_extractor'', ''M.trt''),
         (''generator'', ''GW.trt''), (''stitching_retargeting'', ''S.trt''),
         (''stitching_retargeting_eye'', ''SE.trt''),
         (''stitching_retargeting_lip'', ''SL.trt'')],
      plugin_path = ''grid_sample_3d.so'',
      engines =
        [''feature_extractor'' \<mapsto> swapped_engine, ''motion_extractor'' \<mapsto> unit_engine,
         ''generator'' \<mapsto> unit_engine, ''stitching_retargeting'' \<mapsto> unit_engine,
         ''stitching_retargeting_eye'' \<mapsto> unit_engine,
         ''stitching_retargeting_lip'' \<mapsto> unit_engine],
      contexts =
        [''feature_extractor'' \<mapsto> 0, ''motion_extractor'' \<mapsto> 1, ''generator'' \<mapsto> 2,
         ''stitching_retargeting'' \<mapsto> 3, ''stitching_retargeting_eye'' \<mapsto> 4,
         ''stitching_retargeting_lip'' \<mapsto> 5],
      bindings =
        [''feature_extractor'' \<mapsto> [0, 1], ''motion_extractor'' \<mapsto> [2],
         ''generator'' \<mapsto> [3], ''stitching_retargeting'' \<mapsto> [4],
         ''stitching_retargeting_eye'' \<mapsto> [5], ''stitching_retargeting_lip'' \<mapsto> [6]],
      binding_addresses =
        [''feature_extractor'' \<mapsto> [0, 1], ''motion_extractor'' \<mapsto> [2],
         ''generator'' \<mapsto> [3], ''stitching_retargeting'' \<mapsto> [4],
         ''stitching_retargeting_eye'' \<mapsto> [5], ''stitching_retargeting_lip'' \<mapsto> [6]],
      inputs =
        [''feature_extractor'' \<mapsto> [1], ''motion_extractor'' \<mapsto> [],
         ''generator'' \<mapsto> [], ''stitching_retargeting'' \<mapsto> [],
         ''stitching_retargeting_eye'' \<mapsto> [], ''stitching_retargeting_lip'' \<mapsto> []],
      outputs =
        [''feature_extractor'' \<mapsto> [0], ''motion_extractor'' \<mapsto> [2],
         ''generator'' \<mapsto> [3], ''stitching_retargeting'' \<mapsto> [4],
         ''stitching_retargeting_eye'' \<mapsto> [5], ''stitching_retargeting_lip'' \<mapsto> [6]]\<rparr>"

definition swapped_world :: world where
  "swapped_world =
     \<lparr>heap =
        [\<lparr>name = ''y'', is_input = False, dtype = np_float32, shape = [2], host_buf = None,
          device_buf = Some 0\<rparr>,
         \<lparr>name = ''s'', is_input = True, dtype = np_float32, shape = [1], host_buf = None,
          device_buf = Some 1\<rparr>,
         unit_binding 2, unit_binding 3, unit_binding 4, unit_binding 5, unit_binding 6],
      tables = [Map.empty, Map.empty, Map.empty, Map.empty, Map.empty, Map.empty],
      device =
        [0 \<mapsto> \<lparr>nbytes = 8, contents = []\<rparr>, 1 \<mapsto> \<lparr>nbytes = 4, contents = []\<rparr>,
         2 \<mapsto> \<lparr>nbytes = 2, contents = []\<rparr>, 3 \<mapsto> \<lparr>nbytes = 2, contents = []\<rparr>,
         4 \<mapsto> \<lparr>nbytes = 2, contents = []\<rparr>, 5 \<mapsto> \<lparr>nbytes = 2, contents = []\<rparr>,
         6 \<mapsto> \<lparr>nbytes = 2, contents = []\<rparr>],
      pinned = Map.empty,
      next_device_ptr = 7,
      next_host_ptr = 100,
      trace =
        [Ev_CDLL ''grid_sample_3d.so'', Ev_init_libnvinfer_plugins, Ev_Stream,
         Ev_deserialize_cuda_engine ''F.trt'', Ev_create_execution_context 0,
         Ev_gpuarray_empty 0 8, Ev_gpuarray_empty 1 4,
         Ev_deserialize_cuda_engine ''M.trt'', Ev_create_execution_context 1,
         Ev_gpuarray_empty 2 2,
         Ev_deserialize_cuda_engine ''GW.trt'', Ev_create_execution_context 2,
         Ev_gpuarray_empty 3 2,
         Ev_deserialize_cuda_engine ''S.trt'', Ev_create_execution_context 3,
         Ev_gpuarray_empty 4 2,
         Ev_deserialize_cuda_engine ''SE.trt'', Ev_create_execution_context 4,
         Ev_gpuarray_empty 5 2,
         Ev_deserialize_cuda_engine ''SL.trt'', Ev_create_execution_context 5,
         Ev_gpuarray_empty 6 2]\<rparr>"

section \<open>Lemmas\<close>

subsection \<open>Validation, copies and fetches keep the buffers\<close>

lemma same_buffers_refl: "same_buffers w w"
  by (simp add: same_buffers_def)

lemma same_buffers_trans: "same_buffers w w1 \<Longrightarrow> same_buffers w1 w2 \<Longrightarrow> same_buffers w w2"
  by (auto simp: same_buffers_def)

lemma allocated_same_buffers: "same_buffers w w' \<Longrightarrow> allocated w r \<Longrightarrow> allocated w' r"
  unfolding same_buffers_def allocated_def
  apply clarsimp
  subgoal for p buf
    apply (drule spec [of _ p])
    apply (cases "device w' p")
     apply auto
    done
  done

lemma model_facts_same_buffers:
  assumes "same_buffers w w'" "model_facts self w n e ctx bs addrs"
  shows "model_facts self w' n e ctx bs addrs"
proof -
  from assms(1) have h: "heap w' = heap w" and t: "length (tables w') = length (tables w)"
    by (simp_all add: same_buffers_def)
  show ?thesis
    using assms(2) allocated_same_buffers [OF assms(1)]
    unfolding model_facts_def by (simp add: h t)
qed

lemma wf_model_same_buffers:
  "same_buffers w w' \<Longrightarrow> wf_model self w n e \<Longrightarrow> wf_model self w' n e"
  unfolding wf_model_def by (blast intro: model_facts_same_buffers)

lemma wf_same_buffers: "same_buffers w w' \<Longrightarrow> wf self w \<Longrightarrow> wf self w'"
  unfolding wf_def by (blast intro: wf_model_same_buffers)

lemma check_input_validity_world:
  "\<exists>k. snd (check_input_validity i a b w) = w\<lparr>next_host_ptr := next_host_ptr w + k\<rparr>"
proof (cases "snd (check_input_validity i a b w) = w")
  case True
  then show ?thesis by (intro exI [of _ 0]) simp
next
  case False
  then have "snd (check_input_validity i a b w) = w\<lparr>next_host_ptr := next_host_ptr w + 2\<rparr>"
    by (auto simp: check_input_validity_def astype_int32_def astype_int64_def Let_def
        split: if_splits)
  then show ?thesis by blast
qed

lemma check_input_validity_same_buffers:
  "same_buffers w (snd (check_input_validity i a b w))"
  using check_input_validity_world [of i a b w] by (auto simp: same_buffers_def)

lemma check_input_validity_fields:
  "device (snd (check_input_validity i a b w)) = device w"
  "tables (snd (check_input_validity i a b w)) = tables w"
  "trace (snd (check_input_validity i a b w)) = trace w"
  "heap (snd (check_input_validity i a b w)) = heap w"
  using check_input_validity_world [of i a b w] by auto

lemma device_buffer_allocated:
  assumes "allocated w r"
  shows "\<exists>p buf. device_buffer en r w = (p, w) \<and> device_buf (heap w ! r) = Some p \<and>
           device w p = Some buf"
  using assms by (auto simp: allocated_def device_buffer_def)

lemma copy_inputs_step:
  assumes "allocated w r"
  shows "(\<exists>err w1. check_input_validity i a (heap w ! r) w = (Inl err, w1) \<and>
            copy_inputs en i ((a, r) # rest) w = (Inl err, w1)) \<or>
         (\<exists>a' w1 p. check_input_validity i a (heap w ! r) w = (Inr a', w1) \<and>
            device_buf (heap w ! r) = Some p \<and> device w p \<noteq> None \<and>
            copy_inputs en i ((a, r) # rest) w = copy_inputs en (Suc i) rest (after_copy p a' w1))"
proof (cases "check_input_validity i a (heap w ! r) w")
  case (Pair res w1)
  have sb: "same_buffers w w1" and dv: "device w1 = device w"
    using check_input_validity_same_buffers [of w i a "heap w ! r"]
      check_input_validity_fields(1) [of i a "heap w ! r" w] Pair by simp_all
  show ?thesis
  proof (cases res)
    case (Inl err)
    with Pair show ?thesis by simp
  next
    case (Inr a')
    from allocated_same_buffers [OF sb assms] obtain p buf where
      d: "device_buffer en r w1 = (p, w1)" "device_buf (heap w1 ! r) = Some p"
         "device w1 p = Some buf"
      using device_buffer_allocated by blast
    have h: "heap w1 = heap w" using sb by (simp add: same_buffers_def)
    show ?thesis
      using Pair Inr d dv h by (simp add: memcpy_htod_def after_copy_def)
  qed
qed

lemma copy_inputs_step_Inr:
  assumes "allocated w r" "fst (check_input_validity i a (heap w ! r) w) = Inr a'"
  shows "\<exists>w1 p. check_input_validity i a (heap w ! r) w = (Inr a', w1) \<and> device w p \<noteq> None \<and>
           copy_inputs en i ((a, r) # rest) w = copy_inputs en (Suc i) rest (after_copy p a' w1)"
proof -
  from copy_inputs_step [OF assms(1), of i a en rest] show ?thesis
  proof (elim disjE exE conjE)
    fix err w1
    assume "check_input_validity i a (heap w ! r) w = (Inl err, w1)"
    with assms(2) show ?thesis by simp
  next
    fix a'' w1 p
    assume c: "check_input_validity i a (heap w ! r) w = (Inr a'', w1)"
      and d: "device w p \<noteq> None"
      and r: "copy_inputs en i ((a, r) # rest) w =
                copy_inputs en (Suc i) rest (after_copy p a'' w1)"
    from c assms(2) have "a'' = a'" by simp
    with c d r show ?thesis by blast
  qed
qed

lemma after_copy_same_buffers: "device w p \<noteq> None \<Longrightarrow> same_buffers w (after_copy p a w)"
  by (auto simp: same_buffers_def after_copy_def log_def)

lemma after_copy_fields:
  "heap (after_copy p a w) = heap w"
  "tables (after_copy p a w) = tables w"
  "next_host_ptr (after_copy p a w) = next_host_ptr w"
  "trace (after_copy p a w) = trace w @ [Ev_memcpy_htod p (ascontiguousarray a)]"
  by (simp_all add: after_copy_def log_def)

lemma copy_inputs_same_buffers:
  "\<forall>z\<in>set zs. allocated w (snd z) \<Longrightarrow>
   same_buffers w (snd (copy_inputs en i zs w)) \<and> tables (snd (copy_inputs en i zs w)) = tables w"
proof (induction zs arbitrary: i w)
  case Nil
  then show ?case by (simp add: same_buffers_refl)
next
  case (Cons z zs)
  obtain a r where z: "z = (a, r)" by (cases z)
  from Cons.prems z have al: "allocated w r" by simp
  from copy_inputs_step [OF al, of i a en zs]
  show ?case
  proof (elim disjE exE conjE)
    fix err w1
    assume c: "check_input_validity i a (heap w ! r) w = (Inl err, w1)"
      and r: "copy_inputs en i ((a, r) # zs) w = (Inl err, w1)"
    from check_input_validity_same_buffers [of w i a "heap w ! r"]
      check_input_validity_fields(2) [of i a "heap w ! r" w] c r z
    show ?thesis by simp
  next
    fix a' w1 p
    assume c: "check_input_validity i a (heap w ! r) w = (Inr a', w1)"
      and d: "device w p \<noteq> None"
      and r: "copy_inputs en i ((a, r) # zs) w = copy_inputs en (Suc i) zs (after_copy p a' w1)"
    have sb1: "same_buffers w w1" and t1: "tables w1 = tables w" and d1: "device w1 = device w"
      using check_input_validity_same_buffers [of w i a "heap w ! r"]
        check_input_validity_fields [of i a "heap w ! r" w] c by simp_all
    have sb2: "same_buffers w (after_copy p a' w1)"
      using sb1 after_copy_same_buffers [of w1 p a'] d d1 same_buffers_trans by auto
    have "\<forall>z\<in>set zs. allocated (after_copy p a' w1) (snd z)"
      using Cons.prems allocated_same_buffers [OF sb2] by simp
    from Cons.IH [OF this, of "Suc i"] sb2 t1 r z
    show ?thesis by (auto simp: after_copy_fields intro: same_buffers_trans)
  qed
qed

lemma set_tensor_address_fields:
  "heap (set_tensor_address ctx n a w) = heap w"
  "device (set_tensor_address ctx n a w) = device w"
  "pinned (set_tensor_address ctx n a w) = pinned w"
  "next_device_ptr (set_tensor_address ctx n a w) = next_device_ptr w"
  "next_host_ptr (set_tensor_address ctx n a w) = next_host_ptr w"
  "length (tables (set_tensor_address ctx n a w)) = length (tables w)"
  "trace (set_tensor_address ctx n a w) = trace w @ [Ev_set_tensor_address ctx n a]"
  by (simp_all add: set_tensor_address_def log_def)

lemma bind_tensors_fields:
  "heap (snd (bind_tensors e ctx addrs xs is w)) = heap w \<and>
   device (snd (bind_tensors e ctx addrs xs is w)) = device w \<and>
   pinned (snd (bind_tensors e ctx addrs xs is w)) = pinned w \<and>
   next_device_ptr (snd (bind_tensors e ctx addrs xs is w)) = next_device_ptr w \<and>
   next_host_ptr (snd (bind_tensors e ctx addrs xs is w)) = next_host_ptr w \<and>
   length (tables (snd (bind_tensors e ctx addrs xs is w))) = length (tables w)"
  by (induction "is" arbitrary: w) (simp_all add: Let_def set_tensor_address_fields)

lemma bind_tensors_same_buffers: "same_buffers w (snd (bind_tensors e ctx addrs xs is w))"
  using bind_tensors_fields [of e ctx addrs xs "is" w] by (simp add: same_buffers_def)

lemma bind_tensors_succeeds:
  "\<forall>i\<in>set is. i < length addrs \<Longrightarrow> \<exists>w'. bind_tensors e ctx addrs xs is w = (Inr (), w')"
  by (induction "is" arbitrary: w) (simp_all add: Let_def)

lemma fetched_cong: "heap w' = heap w \<Longrightarrow> device w' = device w \<Longrightarrow> fetched w' = fetched w"
  by (simp add: fetched_def)

lemma fetch_outputs_allocated:
  "\<forall>r\<in>set rs. allocated w r \<Longrightarrow>
   \<exists>w'. fetch_outputs en rs w =
           (Inr (map (fetched w) (zip [next_host_ptr w ..< next_host_ptr w + length rs] rs)), w')
        \<and> same_buffers w w' \<and> device w' = device w \<and> tables w' = tables w
        \<and> next_host_ptr w' = next_host_ptr w + length rs
        \<and> trace w' = trace w @
             map (\<lambda>(h, r). Ev_memcpy_dtoh h (the (device_buf (heap w ! r))))
               (zip [next_host_ptr w ..< next_host_ptr w + length rs] rs)"
proof (induction rs arbitrary: w)
  case Nil
  then show ?case by (simp add: same_buffers_refl)
next
  case (Cons r rs)
  define nh where "nh = next_host_ptr w"
  define w1 where "w1 = w\<lparr>next_host_ptr := Suc nh\<rparr>"
  have sb1: "same_buffers w w1" by (simp add: same_buffers_def w1_def nh_def)
  from Cons.prems have "allocated w r" by simp
  then obtain p buf where pb: "device_buffer en r w1 = (p, w1)"
      "device_buf (heap w1 ! r) = Some p" "device w1 p = Some buf"
    using device_buffer_allocated allocated_same_buffers [OF sb1] by blast
  define w3 where "w3 = log (Ev_memcpy_dtoh nh p) w1"
  have sb3: "same_buffers w w3" and f3: "heap w3 = heap w" "device w3 = device w"
    "tables w3 = tables w" "next_host_ptr w3 = Suc nh" "trace w3 = trace w @ [Ev_memcpy_dtoh nh p]"
    by (simp_all add: same_buffers_def w3_def w1_def nh_def log_def)
  have "\<forall>r\<in>set rs. allocated w3 r"
    using Cons.prems allocated_same_buffers [OF sb3] by simp
  from Cons.IH [OF this] obtain w' where
    ih: "fetch_outputs en rs w3 =
           (Inr (map (fetched w3) (zip [Suc nh ..< Suc nh + length rs] rs)), w')"
      "same_buffers w3 w'" "device w' = device w3" "tables w' = tables w3"
      "next_host_ptr w' = Suc nh + length rs"
      "trace w' = trace w3 @
             map (\<lambda>(h, r). Ev_memcpy_dtoh h (the (device_buf (heap w3 ! r))))
               (zip [Suc nh ..< Suc nh + length rs] rs)"
    by (auto simp: f3)
  have up: "[nh ..< nh + length (r # rs)] = nh # [Suc nh ..< Suc nh + length rs]"
    using upt_conv_Cons [of nh "nh + Suc (length rs)"] by simp
  have step: "fetch_outputs en (r # rs) w =
      (Inr (fetched w (nh, r) # map (fetched w3) (zip [Suc nh ..< Suc nh + length rs] rs)), w')"
    using pb ih(1)
    by (simp add: np_empty_def memcpy_dtoh_def Let_def nh_def [symmetric] w1_def [symmetric]
        w3_def [symmetric] fetched_def, simp add: w1_def)
  show ?case
    apply (rule exI [of _ w'])
    unfolding nh_def [symmetric] up
    using step ih sb3 f3 pb(2) fetched_cong [OF f3(1,2)]
    by (auto simp: w1_def intro: same_buffers_trans)
qed

lemma apply_writes_nbytes: "map_option nbytes (apply_writes ws d p) = map_option nbytes (d p)"
  by (induction ws arbitrary: d) (auto split: option.splits)

lemma widen_narrowed: "sint (scast (x :: 32 word) :: 64 word) = sint x"
proof -
  have "is_up (scast :: 32 word \<Rightarrow> 64 word)"
    by (simp add: is_up_def source_size_def target_size_def word_size)
  then show ?thesis
    by (simp add: sint_up_scast)
qed

lemma narrowed_array_equal:
  "array_equal (fst (astype_int32 a w)) (fst (astype_int64 (fst (astype_int32 a w)) w'))"
  by (simp add: array_equal_def astype_int32_def astype_int64_def widen_narrowed)

lemma check_input_validity_result:
  "fst (check_input_validity i a b w) =
     (if a_shape a \<noteq> shape b \<and> \<not> (shape b = [1] \<and> a_shape a = [])
      then Inl (ValueError (WrongShape i (shape b) (a_shape a)))
      else if a_dtype a = dtype b then Inr a
      else if a_dtype a = np_int64 \<and> dtype b = np_int32
      then Inr \<lparr>ctypes_data = next_host_ptr w, a_dtype = np_int32, a_shape = a_shape a,
                a_data = map (\<lambda>v. sint (word_of_int v :: 32 word)) (a_data a)\<rparr>
      else Inl (TypeError (WrongDtype i (dtype b) (a_dtype a))))"
  using narrowed_array_equal [of a w "snd (astype_int32 a w)"]
  by (auto simp: check_input_validity_def Let_def split_beta)
     (simp_all add: astype_int32_def)

lemma check_input_validity_accepts:
  "(\<exists>a'. fst (check_input_validity i a b w) = Inr a') \<longleftrightarrow> acceptable a b"
  by (auto simp: check_input_validity_result acceptable_def)

lemma check_input_validity_rejects:
  "\<not> acceptable a b \<Longrightarrow> fst (check_input_validity i a b w) = Inl (rejection i a b)"
  by (auto simp: check_input_validity_result acceptable_def rejection_def)

lemma copy_inputs_first_rejected:
  "\<forall>z\<in>set zs. allocated w (snd z) \<Longrightarrow> k < length zs \<Longrightarrow>
   \<forall>j<k. acceptable (fst (zs ! j)) (heap w ! snd (zs ! j)) \<Longrightarrow>
   \<not> acceptable (fst (zs ! k)) (heap w ! snd (zs ! k)) \<Longrightarrow>
   fst (copy_inputs en i zs w) = Inl (rejection (i + k) (fst (zs ! k)) (heap w ! snd (zs ! k)))"
proof (induction zs arbitrary: i w k)
  case Nil
  then show ?case by simp
next
  case (Cons z zs)
  obtain a r where z: "z = (a, r)" by (cases z)
  from Cons.prems z have al: "allocated w r" by simp
  show ?case
  proof (cases k)
    case 0
    with Cons.prems(4) z have "\<not> acceptable a (heap w ! r)" by simp
    then have "fst (check_input_validity i a (heap w ! r) w) = Inl (rejection i a (heap w ! r))"
      by (rule check_input_validity_rejects)
    then show ?thesis using 0 z
      by (cases "check_input_validity i a (heap w ! r) w") simp
  next
    case (Suc k')
    with Cons.prems(3) z have "acceptable a (heap w ! r)" by fastforce
    then obtain a' where a': "fst (check_input_validity i a (heap w ! r) w) = Inr a'"
      using check_input_validity_accepts by blast
    from copy_inputs_step_Inr [OF al a', of en zs]
    obtain w1 p where
      c: "check_input_validity i a (heap w ! r) w = (Inr a', w1)"
      and d: "device w p \<noteq> None"
      and r: "copy_inputs en i ((a, r) # zs) w = copy_inputs en (Suc i) zs (after_copy p a' w1)"
      by blast
    have sb1: "same_buffers w w1" and d1: "device w1 = device w"
      using check_input_validity_same_buffers [of w i a "heap w ! r"]
        check_input_validity_fields [of i a "heap w ! r" w] c by simp_all
    have sb2: "same_buffers w (after_copy p a' w1)"
      using sb1 after_copy_same_buffers [of w1 p a'] d d1 same_buffers_trans by auto
    then have h2: "heap (after_copy p a' w1) = heap w" by (simp add: same_buffers_def)
    have al2: "\<forall>z\<in>set zs. allocated (after_copy p a' w1) (snd z)"
      using Cons.prems(1) allocated_same_buffers [OF sb2] by simp
    have k': "k' < length zs" using Cons.prems(2) Suc by simp
    have acc: "\<forall>j<k'. acceptable (fst (zs ! j)) (heap (after_copy p a' w1) ! snd (zs ! j))"
      using Cons.prems(3) Suc h2 by fastforce
    have rej: "\<not> acceptable (fst (zs ! k')) (heap (after_copy p a' w1) ! snd (zs ! k'))"
      using Cons.prems(4) Suc h2 by simp
    from Cons.IH [OF al2 k' acc rej, of "Suc i"] r z Suc h2
    show ?thesis by simp
  qed
qed

lemma copy_inputs_accepts:
  "\<forall>z\<in>set zs. allocated w (snd z) \<Longrightarrow>
   \<forall>z\<in>set zs. acceptable (fst z) (heap w ! snd z) \<Longrightarrow>
   \<exists>w'. copy_inputs en i zs w = (Inr (), w')"
proof (induction zs arbitrary: i w)
  case Nil
  then show ?case by simp
next
  case (Cons z zs)
  obtain a r where z: "z = (a, r)" by (cases z)
  from Cons.prems z have al: "allocated w r" by simp
  from Cons.prems(2) z have "acceptable a (heap w ! r)" by simp
  then obtain a' where a': "fst (check_input_validity i a (heap w ! r) w) = Inr a'"
    using check_input_validity_accepts by blast
  from copy_inputs_step_Inr [OF al a', of en zs]
  obtain w1 p where
    c: "check_input_validity i a (heap w ! r) w = (Inr a', w1)"
    and d: "device w p \<noteq> None"
    and r: "copy_inputs en i ((a, r) # zs) w = copy_inputs en (Suc i) zs (after_copy p a' w1)"
    by blast
  have sb1: "same_buffers w w1" and d1: "device w1 = device w"
    using check_input_validity_same_buffers [of w i a "heap w ! r"]
      check_input_validity_fields [of i a "heap w ! r" w] c by simp_all
  have sb2: "same_buffers w (after_copy p a' w1)"
    using sb1 after_copy_same_buffers [of w1 p a'] d d1 same_buffers_trans by auto
  then have h2: "heap (after_copy p a' w1) = heap w" by (simp add: same_buffers_def)
  have al2: "\<forall>z\<in>set zs. allocated (after_copy p a' w1) (snd z)"
    using Cons.prems(1) allocated_same_buffers [OF sb2] by simp
  have acc: "\<forall>z\<in>set zs. acceptable (fst z) (heap (after_copy p a' w1) ! snd z)"
    using Cons.prems(2) h2 by simp
  from Cons.IH [OF al2 acc, of "Suc i"] r z show ?case by simp
qed

subsection \<open>A call on a well-formed manager\<close>

lemma wf_modelD:
  assumes "wf self w" "engines self n = Some e"
  shows "\<exists>ctx bs addrs. model_facts self w n e ctx bs addrs"
  using assms by (simp add: wf_def wf_model_def)

lemma model_facts_lengths:
  assumes "model_facts self w n e ctx bs addrs"
  shows "length addrs = length e" "\<forall>r\<in>set bs. allocated w r"
proof -
  from assms have l: "length bs = length e"
    and m: "map (\<lambda>r. device_buf (heap w ! r)) bs = map Some addrs"
    and al: "\<forall>i<length e. allocated w (bs ! i)"
    by (simp_all add: model_facts_def)
  show "length addrs = length e" using l arg_cong [OF m, of length] by simp
  show "\<forall>r\<in>set bs. allocated w r" using l al by (auto simp: in_set_conv_nth)
qed

lemma validate_and_bind_Inr:
  assumes "validate_and_bind en self n ins w = (Inr (e, ctx, outs), w2)"
  shows "engines self n = Some e \<and> contexts self n = Some ctx \<and> outputs self n = Some outs \<and>
    (\<exists>addrs insb xs w1. binding_addresses self n = Some addrs \<and> inputs self n = Some insb \<and>
       as_list ins (map (\<lambda>r. heap w ! r) insb) = Inr xs \<and> length xs = length insb \<and>
       copy_inputs en 0 (zip xs insb) w = (Inr (), w1) \<and>
       bind_tensors e ctx addrs xs [0 ..< num_io_tensors e] w1 = (Inr (), w2))"
proof -
  obtain e' where e: "engines self n = Some e'"
    using assms by (cases "engines self n") (auto simp: validate_and_bind_def)
  obtain ctx' where c: "contexts self n = Some ctx'"
    using assms e by (cases "contexts self n") (auto simp: validate_and_bind_def)
  obtain addrs where a: "binding_addresses self n = Some addrs"
    using assms e c by (cases "binding_addresses self n") (auto simp: validate_and_bind_def)
  obtain insb where i: "inputs self n = Some insb"
    using assms e c a by (cases "inputs self n") (auto simp: validate_and_bind_def)
  obtain outs' where out: "outputs self n = Some outs'"
    using assms e c a i by (cases "outputs self n") (auto simp: validate_and_bind_def)
  obtain xs where x: "as_list ins (map (\<lambda>r. heap w ! r) insb) = Inr xs"
    using assms e c a i out
    by (cases "as_list ins (map (\<lambda>r. heap w ! r) insb)") (auto simp: validate_and_bind_def)
  have l: "length xs = length insb"
    using assms e c a i out x by (auto simp: validate_and_bind_def split: if_splits)
  obtain w1 where c1: "copy_inputs en 0 (zip xs insb) w = (Inr (), w1)"
    using assms e c a i out x l
    by (cases "copy_inputs en 0 (zip xs insb) w")
       (auto simp: validate_and_bind_def split: sum.splits)
  have b: "bind_tensors e' ctx' addrs xs [0 ..< num_io_tensors e'] w1 = (Inr (), w2)
           \<and> e' = e \<and> ctx' = ctx \<and> outs' = outs"
    using assms e c a i out x l c1
    by (cases "bind_tensors e' ctx' addrs xs [0 ..< num_io_tensors e'] w1")
       (auto simp: validate_and_bind_def split: sum.splits)
  show ?thesis using e c a i out x l c1 b by auto
qed

lemma validate_and_bind_unfold:
  assumes "engines self n = Some e" "contexts self n = Some ctx"
    "binding_addresses self n = Some addrs" "inputs self n = Some insb"
    "outputs self n = Some outs" "length addrs = length e"
  shows "validate_and_bind en self n ins w =
     (case as_list ins (map (\<lambda>r. heap w ! r) insb) of
        Inl err \<Rightarrow> (Inl err, w)
      | Inr xs \<Rightarrow>
          if length xs \<noteq> length insb
          then (Inl (ValueError (InputCountMismatch n)), w)
          else (case copy_inputs en 0 (zip xs insb) w of
                  (Inl err, w1) \<Rightarrow> (Inl err, w1)
                | (Inr u, w1) \<Rightarrow>
                    (Inr (e, ctx, outs),
                     snd (bind_tensors e ctx addrs xs [0 ..< length e] w1))))"
proof -
  have "\<And>xs w1. \<exists>w2. bind_tensors e ctx addrs xs [0 ..< length e] w1 = (Inr (), w2)"
    using bind_tensors_succeeds [of "[0 ..< length e]" addrs e ctx] assms(6) by simp
  then have b: "\<And>xs w1. bind_tensors e ctx addrs xs [0 ..< length e] w1 =
      (Inr (), snd (bind_tensors e ctx addrs xs [0 ..< length e] w1))"
    by (metis snd_conv)
  show ?thesis
    unfolding validate_and_bind_def
    apply (simp only: assms(1-5) option.case num_io_tensors_def)
    apply (rule sum.case_cong [OF refl refl])
    apply (rule if_cong [OF refl refl])
    apply (rule prod.case_cong [OF refl])
    apply (rule sum.case_cong [OF refl refl])
    apply (subst b)
    apply (simp only: prod.case sum.case)
    done
qed

lemma validate_and_bind_same_buffers:
  assumes "wf self w"
  shows "same_buffers w (snd (validate_and_bind en self n ins w))"
proof (cases "engines self n")
  case None
  then show ?thesis by (simp add: validate_and_bind_def same_buffers_refl)
next
  case (Some e)
  from wf_modelD [OF assms Some] obtain ctx bs addrs where
    mf: "model_facts self w n e ctx bs addrs" by blast
  then have a: "contexts self n = Some ctx"
       "binding_addresses self n = Some addrs"
       "inputs self n = Some (filter (\<lambda>r. is_input (heap w ! r)) bs)"
       "outputs self n = Some (filter (\<lambda>r. \<not> is_input (heap w ! r)) bs)"
    by (simp_all add: model_facts_def)
  note a = a model_facts_lengths [OF mf]
  define insb where "insb = filter (\<lambda>r. is_input (heap w ! r)) bs"
  note u = validate_and_bind_unfold [OF Some a(1,2) a(3) [folded insb_def] a(4,5), of en ins w]
  show ?thesis
  proof (cases "as_list ins (map (\<lambda>r. heap w ! r) insb)")
    case (Inl err)
    then show ?thesis by (simp add: u same_buffers_refl)
  next
    case (Inr xs)
    have al: "\<forall>z\<in>set (zip xs insb). allocated w (snd z)"
    proof
      fix z assume "z \<in> set (zip xs insb)"
      then have "snd z \<in> set insb"
        using set_zip_rightD [of "fst z" "snd z" xs insb] by simp
      then show "allocated w (snd z)" using a(6) by (simp add: insb_def)
    qed
    from copy_inputs_same_buffers [OF al, of en 0]
    have sb1: "same_buffers w (snd (copy_inputs en 0 (zip xs insb) w))" by simp
    show ?thesis
    proof (cases "copy_inputs en 0 (zip xs insb) w")
      case (Pair res w1)
      with sb1 have sb1': "same_buffers w w1" by simp
      show ?thesis
      proof (cases res)
        case (Inl err)
        then show ?thesis using Inr Pair sb1' by (simp add: u same_buffers_refl)
      next
        case r: (Inr uu)
        have "same_buffers w (snd (bind_tensors e ctx addrs xs [0 ..< length e] w1))"
          by (rule same_buffers_trans [OF sb1' bind_tensors_same_buffers])
        then show ?thesis using Inr Pair r by (simp add: u same_buffers_refl)
      qed
    qed
  qed
qed

lemma execute_and_fetch_same_buffers:
  assumes "\<forall>r\<in>set outs. allocated w r"
  shows "same_buffers w (snd (execute_and_fetch en n e ctx outs w))"
proof (cases "execute en e (tables w ! ctx) (device w)")
  case (Raises_on_submit msg)
  then show ?thesis by (simp add: execute_and_fetch_def same_buffers_def log_def)
next
  case (Raises_on_synchronize msg)
  then show ?thesis by (simp add: execute_and_fetch_def same_buffers_def log_def)
next
  case (Completes ws)
  define w1 where "w1 = log Ev_synchronize (log (Ev_execute_async_v3 ctx)
                     (w\<lparr>device := apply_writes ws (device w)\<rparr>))"
  have sb1: "same_buffers w w1"
    by (simp add: w1_def same_buffers_def log_def apply_writes_nbytes)
  then have "\<forall>r\<in>set outs. allocated w1 r"
    using assms allocated_same_buffers by blast
  from fetch_outputs_allocated [OF this, of en] obtain arrays w' where
    f: "fetch_outputs en outs w1 = (Inr arrays, w')" and sb2: "same_buffers w1 w'"
    by blast
  have "snd (execute_and_fetch en n e ctx outs w) = w'"
    using Completes f by (simp add: execute_and_fetch_def w1_def [symmetric])
  then show ?thesis
    using same_buffers_trans [OF sb1 sb2] by simp
qed

lemma wf_outputs_allocated:
  assumes "wf self w" "engines self n = Some e" "outputs self n = Some outs"
  shows "\<forall>r\<in>set outs. allocated w r"
proof -
  from wf_modelD [OF assms(1,2)] obtain ctx bs addrs where
    mf: "model_facts self w n e ctx bs addrs" by blast
  then have "outs = filter (\<lambda>r. \<not> is_input (heap w ! r)) bs"
    using assms(3) by (simp add: model_facts_def)
  then show ?thesis using model_facts_lengths(2) [OF mf] by simp
qed

lemma run_sequential_tasks_same_buffers:
  assumes "wf self w"
  shows "same_buffers w (snd (run_sequential_tasks en self n ins w))"
proof (cases "validate_and_bind en self n ins w")
  case (Pair res w2)
  have sb: "same_buffers w w2"
    using validate_and_bind_same_buffers [OF assms, of en n ins] Pair by simp
  show ?thesis
  proof (cases res)
    case (Inl err)
    with Pair sb show ?thesis by (simp add: run_sequential_tasks_def)
  next
    case (Inr t)
    obtain e ctx outs where t: "t = (e, ctx, outs)" by (cases t)
    have v: "validate_and_bind en self n ins w = (Inr (e, ctx, outs), w2)"
      using Pair Inr t by simp
    from validate_and_bind_Inr [OF v]
    have "engines self n = Some e" "outputs self n = Some outs" by simp_all
    from wf_outputs_allocated [OF assms this]
    have "\<forall>r\<in>set outs. allocated w2 r" using allocated_same_buffers [OF sb] by blast
    from execute_and_fetch_same_buffers [OF this, of en n e ctx]
    have "same_buffers w2 (snd (execute_and_fetch en n e ctx outs w2))" .
    from same_buffers_trans [OF sb this]
    show ?thesis using v by (simp add: run_sequential_tasks_def)
  qed
qed

subsection \<open>Allocating device buffers\<close>

lemma grows_refl: "grows w w"
  by (simp add: grows_def)

lemma grows_allocated:
  assumes "grows w w'" "allocated w r"
  shows "allocated w' r" "heap w' ! r = heap w ! r"
proof -
  from assms(2) obtain p buf where
    a: "r < length (heap w)" "device_buf (heap w ! r) = Some p" "p < next_device_ptr w"
       "device w p = Some buf"
       "nbytes buf = volume (shape (heap w ! r)) * itemsize (dtype (heap w ! r))"
    by (auto simp: allocated_def)
  from assms(1) a(1,2) show h: "heap w' ! r = heap w ! r"
    by (auto simp: grows_def)
  from assms(1) a(3) have "device w' p = device w p" "p < next_device_ptr w'"
    "length (heap w') = length (heap w)"
    by (auto simp: grows_def)
  with a h show "allocated w' r" by (auto simp: allocated_def)
qed

lemma grows_trans:
  assumes "grows w w1" "grows w1 w2"
  shows "grows w w2"
proof -
  have "\<forall>r<length (heap w).
        heap w2 ! r = heap w ! r \<or>
        (device_buf (heap w ! r) = None \<and> allocated w2 r \<and>
         (\<exists>p. heap w2 ! r = (heap w ! r)\<lparr>device_buf := Some p\<rparr>))"
  proof (intro allI impI)
    fix r assume r: "r < length (heap w)"
    then have r1: "r < length (heap w1)" using assms(1) by (simp add: grows_def)
    from assms(1) r consider
      (same) "heap w1 ! r = heap w ! r"
      | (new) p where "device_buf (heap w ! r) = None" "allocated w1 r"
          "heap w1 ! r = (heap w ! r)\<lparr>device_buf := Some p\<rparr>"
      by (auto simp: grows_def)
    then show "heap w2 ! r = heap w ! r \<or>
        (device_buf (heap w ! r) = None \<and> allocated w2 r \<and>
         (\<exists>p. heap w2 ! r = (heap w ! r)\<lparr>device_buf := Some p\<rparr>))"
    proof cases
      case same
      from assms(2) r1 have "heap w2 ! r = heap w1 ! r \<or>
        (device_buf (heap w1 ! r) = None \<and> allocated w2 r \<and>
         (\<exists>p. heap w2 ! r = (heap w1 ! r)\<lparr>device_buf := Some p\<rparr>))"
        by (simp add: grows_def)
      then show ?thesis by (simp add: same)
    next
      case new
      with grows_allocated [OF assms(2) new(2)] show ?thesis by auto
    qed
  qed
  then show ?thesis
    using assms unfolding grows_def by auto
qed

lemma grows_good: "grows w w' \<Longrightarrow> good w r \<Longrightarrow> good w' r"
  unfolding good_def
  using grows_allocated(1) by (auto simp: grows_def)

lemma device_buffer_grows:
  assumes "r < length (heap w)"
  shows "grows w (snd (device_buffer en r w))"
proof (cases "device_buf (heap w ! r)")
  case (Some p)
  then show ?thesis by (simp add: device_buffer_def grows_refl)
next
  case None
  define p where "p = next_device_ptr w"
  define w' where "w' = snd (device_buffer en r w)"
  have f: "heap w' = (heap w)[r := (heap w ! r)\<lparr>device_buf := Some p\<rparr>]"
    "device w' = (device w)(p \<mapsto> \<lparr>nbytes = volume (shape (heap w ! r)) * itemsize (dtype (heap w ! r)),
                                 contents = uninitialised en p\<rparr>)"
    "next_device_ptr w' = Suc p" "tables w' = tables w" "pinned w' = pinned w"
    "next_host_ptr w' = next_host_ptr w"
    using None by (simp_all add: w'_def device_buffer_def Let_def log_def p_def)
  have "allocated w' r"
    using assms by (simp add: allocated_def f)
  then show ?thesis
    unfolding w'_def [symmetric] grows_def
    using assms None f p_def by (auto simp: nth_list_update)
qed

lemma device_buffer_allocates:
  assumes "good w r"
  shows "allocated (snd (device_buffer en r w)) r \<and>
    device_buf (heap (snd (device_buffer en r w)) ! r) = Some (fst (device_buffer en r w))"
proof (cases "device_buf (heap w ! r)")
  case (Some p)
  with assms show ?thesis
    by (simp add: device_buffer_def good_def)
next
  case None
  moreover from assms have "r < length (heap w)" by (simp add: good_def)
  ultimately show ?thesis
    by (simp add: device_buffer_def Let_def log_def allocated_def)
qed

lemma device_ptrs_effect:
  "\<forall>r\<in>set rs. good w r \<Longrightarrow>
   grows w (snd (device_ptrs en rs w)) \<and>
   (\<forall>r\<in>set rs. allocated (snd (device_ptrs en rs w)) r) \<and>
   map (\<lambda>r. device_buf (heap (snd (device_ptrs en rs w)) ! r)) rs =
     map Some (fst (device_ptrs en rs w))"
proof (induction rs arbitrary: w)
  case Nil
  then show ?case by (simp add: grows_refl)
next
  case (Cons r rs)
  define p where "p = fst (device_buffer en r w)"
  define w1 where "w1 = snd (device_buffer en r w)"
  have db: "device_buffer en r w = (p, w1)" by (simp add: p_def w1_def)
  from Cons.prems have gr: "good w r" by simp
  then have g1: "grows w w1" unfolding w1_def by (simp add: device_buffer_grows good_def)
  have a1: "allocated w1 r" "device_buf (heap w1 ! r) = Some p"
    using device_buffer_allocates [OF gr, of en] by (simp_all add: w1_def p_def)
  have "\<forall>r\<in>set rs. good w1 r" using Cons.prems grows_good [OF g1] by simp
  from Cons.IH [OF this]
  have ih: "grows w1 (snd (device_ptrs en rs w1))"
    "\<forall>r\<in>set rs. allocated (snd (device_ptrs en rs w1)) r"
    "map (\<lambda>r. device_buf (heap (snd (device_ptrs en rs w1)) ! r)) rs =
       map Some (fst (device_ptrs en rs w1))"
    by simp_all
  have r: "device_ptrs en (r # rs) w =
      (p # fst (device_ptrs en rs w1), snd (device_ptrs en rs w1))"
    by (simp add: db split_beta)
  show ?case
    unfolding r
    using grows_trans [OF g1 ih(1)] ih(2,3) grows_allocated [OF ih(1) a1(1)] a1(2)
    by simp
qed

lemma force_device_buffers_allocated:
  "\<forall>r\<in>set rs. allocated w r \<Longrightarrow> force_device_buffers en rs w = w"
proof (induction rs)
  case Nil
  then show ?case by simp
next
  case (Cons r rs)
  then have "allocated w r" by simp
  then have "snd (device_buffer en r w) = w"
    using device_buffer_allocated [of w r en] by auto
  with Cons show ?case by simp
qed

lemma make_bindings_effect:
  "make_bindings e is w = (Inr bs, w') \<Longrightarrow>
   \<exists>B. w' = w\<lparr>heap := heap w @ B\<rparr> \<and> length B = length is \<and>
       bs = [length (heap w) ..< length (heap w) + length is] \<and>
       (\<forall>k<length is. Binding_init e (is ! k) = Inr (B ! k))"
proof (induction "is" arbitrary: w bs w')
  case Nil
  then show ?case by simp
next
  case (Cons i "is")
  from Cons.prems obtain b where b: "Binding_init e i = Inr b"
    by (cases "Binding_init e i") simp_all
  define w1 where "w1 = w\<lparr>heap := heap w @ [b]\<rparr>"
  from Cons.prems b obtain rs where
    m: "make_bindings e is w1 = (Inr rs, w')" and bs: "bs = length (heap w) # rs"
    by (cases "make_bindings e is w1") (auto simp: w1_def split: sum.splits)
  from Cons.IH [OF m] obtain B where
    B: "w' = w1\<lparr>heap := heap w1 @ B\<rparr>" "length B = length is"
       "rs = [length (heap w1) ..< length (heap w1) + length is]"
       "\<forall>k<length is. Binding_init e (is ! k) = Inr (B ! k)"
    by blast
  have "\<forall>k<length (i # is). Binding_init e ((i # is) ! k) = Inr ((b # B) ! k)"
    using b B(4) by (auto simp: nth_Cons split: nat.splits)
  moreover have "bs = [length (heap w) ..< length (heap w) + length (i # is)]"
    using bs B(3) upt_conv_Cons [of "length (heap w)" "length (heap w) + Suc (length is)"]
    by (simp add: w1_def)
  moreover have "w' = w\<lparr>heap := heap w @ (b # B)\<rparr>"
    using B(1) by (simp add: w1_def)
  ultimately show ?case using B(2) by (intro exI [of _ "b # B"]) simp
qed

subsection \<open>What the models loaded earlier keep\<close>

lemma keeps_trans: "keeps w w1 \<Longrightarrow> keeps w1 w2 \<Longrightarrow> keeps w w2"
  by (auto simp: keeps_def)

lemma grows_keeps: "grows w w' \<Longrightarrow> keeps w w'"
  unfolding keeps_def
proof (intro conjI allI impI)
  assume g: "grows w w'"
  then show "length (tables w) \<le> length (tables w')" by (simp add: grows_def)
  fix r assume "allocated w r"
  from grows_allocated [OF g this] show "allocated w' r" "heap w' ! r = heap w ! r" .
qed

lemma append_keeps:
  assumes "heap w' = heap w @ B" "tables w' = tables w @ T" "device w' = device w"
    "next_device_ptr w' = next_device_ptr w"
  shows "keeps w w'"
  using assms by (auto simp: keeps_def allocated_def nth_append)

lemma model_facts_keeps:
  assumes "keeps w w'" "model_facts self w n e ctx bs addrs"
  shows "model_facts self w' n e ctx bs addrs"
proof -
  from assms(2) have al: "\<forall>r\<in>set bs. allocated w r"
    by (rule model_facts_lengths(2))
  then have same: "\<forall>r\<in>set bs. heap w' ! r = heap w ! r" and al': "\<forall>r\<in>set bs. allocated w' r"
    using assms(1) by (auto simp: keeps_def)
  have f1: "filter (\<lambda>r. is_input (heap w' ! r)) bs = filter (\<lambda>r. is_input (heap w ! r)) bs"
    and f2: "filter (\<lambda>r. \<not> is_input (heap w' ! r)) bs = filter (\<lambda>r. \<not> is_input (heap w ! r)) bs"
    and f3: "map (\<lambda>r. device_buf (heap w' ! r)) bs = map (\<lambda>r. device_buf (heap w ! r)) bs"
    using same by (auto intro: filter_cong)
  have "\<forall>i<length bs. heap w' ! (bs ! i) = heap w ! (bs ! i) \<and> allocated w' (bs ! i)"
    using same al' by simp
  moreover have "length (tables w) \<le> length (tables w')"
    using assms(1) by (simp add: keeps_def)
  ultimately show ?thesis
    using assms(2) unfolding model_facts_def f1 f2 f3 by simp
qed

lemma Binding_init_describes:
  assumes "Binding_init e i = Inr b"
  shows "describes e i b" "host_buf b = None" "device_buf b = None"
  using assms
  by (auto simp: Binding_init_def describes_def Let_def split: if_splits option.splits)

lemma describes_device_buf: "describes e i (b\<lparr>device_buf := x\<rparr>) = describes e i b"
  by (simp add: describes_def)

subsection \<open>Loading one model\<close>

lemma load_model_Inr:
  assumes "load_model en n path self w = (Inr self1, w')"
  shows "\<exists>e bs w3. file_at en path = Serialized e \<and>
     make_bindings e [0 ..< length e]
       (log (Ev_create_execution_context (length (tables w)))
          (log (Ev_deserialize_cuda_engine path) w\<lparr>tables := tables w @ [Map.empty]\<rparr>)) = (Inr bs, w3) \<and>
     w' = force_device_buffers en
            (filter (\<lambda>r. is_input (heap (snd (device_ptrs en bs w3)) ! r)) bs @
             filter (\<lambda>r. \<not> is_input (heap (snd (device_ptrs en bs w3)) ! r)) bs)
            (snd (device_ptrs en bs w3)) \<and>
     self1 = self
       \<lparr>engines := (engines self)(n \<mapsto> e),
        contexts := (contexts self)(n \<mapsto> length (tables w)),
        bindings := (bindings self)(n \<mapsto> bs),
        binding_addresses := (binding_addresses self)(n \<mapsto> fst (device_ptrs en bs w3)),
        inputs := (inputs self)
          (n \<mapsto> filter (\<lambda>r. is_input (heap (snd (device_ptrs en bs w3)) ! r)) bs),
        outputs := (outputs self)
          (n \<mapsto> filter (\<lambda>r. \<not> is_input (heap (snd (device_ptrs en bs w3)) ! r)) bs)\<rparr>"
proof (cases "file_at en path")
  case Missing
  with assms show ?thesis by (simp add: load_model_def load_engine_def)
next
  case Corrupt
  with assms show ?thesis by (simp add: load_model_def load_engine_def)
next
  case (Serialized e)
  define w2 where "w2 = log (Ev_create_execution_context (length (tables w)))
          (log (Ev_deserialize_cuda_engine path) w\<lparr>tables := tables w @ [Map.empty]\<rparr>)"
  have t: "tables (log (Ev_deserialize_cuda_engine path) w) = tables w" by (simp add: log_def)
  show ?thesis
  proof (cases "make_bindings e [0 ..< length e] w2")
    case (Pair res w3)
    show ?thesis
    proof (cases res)
      case (Inl err)
      with assms Serialized Pair show ?thesis
        by (simp add: load_model_def load_engine_def num_io_tensors_def t w2_def [symmetric])
    next
      case (Inr bs)
      with assms Serialized Pair show ?thesis
        unfolding w2_def [symmetric]
        by (simp add: load_model_def load_engine_def num_io_tensors_def t w2_def [symmetric]
            split_beta prepare_buffers_def Let_def)
    qed
  qed
qed

lemma load_model_wf:
  assumes lm: "load_model en n path self w = (Inr self1, w')"
    and wf: "wf self w" and lz: "lazy_hosts self w"
  shows "wf self1 w' \<and> lazy_hosts self1 w' \<and> dom (engines self1) = insert n (dom (engines self))"
proof -
  define w2 where "w2 = log (Ev_create_execution_context (length (tables w)))
          (log (Ev_deserialize_cuda_engine path) w\<lparr>tables := tables w @ [Map.empty]\<rparr>)"
  from load_model_Inr [OF lm] obtain e bs w3 where
    mb: "make_bindings e [0 ..< length e] w2 = (Inr bs, w3)"
    and w': "w' = force_device_buffers en
            (filter (\<lambda>r. is_input (heap (snd (device_ptrs en bs w3)) ! r)) bs @
             filter (\<lambda>r. \<not> is_input (heap (snd (device_ptrs en bs w3)) ! r)) bs)
            (snd (device_ptrs en bs w3))"
    and self1: "self1 = self
       \<lparr>engines := (engines self)(n \<mapsto> e),
        contexts := (contexts self)(n \<mapsto> length (tables w)),
        bindings := (bindings self)(n \<mapsto> bs),
        binding_addresses := (binding_addresses self)(n \<mapsto> fst (device_ptrs en bs w3)),
        inputs := (inputs self)
          (n \<mapsto> filter (\<lambda>r. is_input (heap (snd (device_ptrs en bs w3)) ! r)) bs),
        outputs := (outputs self)
          (n \<mapsto> filter (\<lambda>r. \<not> is_input (heap (snd (device_ptrs en bs w3)) ! r)) bs)\<rparr>"
    unfolding w2_def by blast
  define w4 where "w4 = snd (device_ptrs en bs w3)"
  define addrs where "addrs = fst (device_ptrs en bs w3)"
  define h where "h = length (heap w)"
  have w2f: "heap w2 = heap w" "tables w2 = tables w @ [Map.empty]" "device w2 = device w"
    "next_device_ptr w2 = next_device_ptr w"
    by (simp_all add: w2_def log_def)
  from make_bindings_effect [OF mb] obtain B where
    B: "w3 = w2\<lparr>heap := heap w2 @ B\<rparr>" "length B = length e"
       "bs = [h ..< h + length e]"
       "\<forall>k<length e. Binding_init e k = Inr (B ! k)"
    by (auto simp: w2f h_def)
  have w3f: "heap w3 = heap w @ B" "tables w3 = tables w @ [Map.empty]" "device w3 = device w"
    "next_device_ptr w3 = next_device_ptr w"
    using B(1) w2f by simp_all
  have k3: "keeps w w3" by (rule append_keeps [OF w3f])
  have lbs: "length bs = length e" and nbs: "\<forall>i<length e. bs ! i = h + i"
    using B(3) by simp_all
  have raw: "\<forall>i<length e. heap w3 ! (bs ! i) = B ! i"
    using nbs B(2) by (simp add: w3f h_def nth_append)
  have good3: "\<forall>r\<in>set bs. good w3 r"
  proof
    fix r assume "r \<in> set bs"
    then obtain i where i: "i < length e" "r = bs ! i"
      using lbs by (auto simp: in_set_conv_nth)
    then have "heap w3 ! r = B ! i" using raw by simp
    moreover have "device_buf (B ! i) = None"
      using B(4) i(1) Binding_init_describes(3) by blast
    moreover have "r < length (heap w3)"
      using i nbs B(2) by (simp add: w3f h_def)
    ultimately show "good w3 r" by (simp add: good_def)
  qed
  from device_ptrs_effect [OF good3, of en]
  have g4: "grows w3 w4" and al4: "\<forall>r\<in>set bs. allocated w4 r"
    and m4: "map (\<lambda>r. device_buf (heap w4 ! r)) bs = map Some addrs"
    by (simp_all add: w4_def addrs_def)
  have k4: "keeps w w4" using keeps_trans [OF k3 grows_keeps [OF g4]] .
  have "\<forall>r\<in>set (filter (\<lambda>r. is_input (heap w4 ! r)) bs @
                   filter (\<lambda>r. \<not> is_input (heap w4 ! r)) bs). allocated w4 r"
    using al4 by auto
  from force_device_buffers_allocated [OF this, of en]
  have w'4: "w' = w4" by (simp add: w' w4_def)
  have t4: "length (tables w4) = Suc (length (tables w))"
    using g4 w3f by (simp add: grows_def)
  have entry: "\<forall>i<length e. describes e i (heap w4 ! (bs ! i)) \<and> host_buf (heap w4 ! (bs ! i)) = None"
  proof (intro allI impI)
    fix i assume i: "i < length e"
    have d: "describes e i (B ! i)" "host_buf (B ! i) = None"
      using B(4) i Binding_init_describes by blast+
    have "bs ! i < length (heap w3)" using i nbs B(2) by (simp add: w3f h_def)
    with g4 have "heap w4 ! (bs ! i) = heap w3 ! (bs ! i) \<or>
        (\<exists>p. heap w4 ! (bs ! i) = (heap w3 ! (bs ! i))\<lparr>device_buf := Some p\<rparr>)"
      by (auto simp: grows_def)
    then show "describes e i (heap w4 ! (bs ! i)) \<and> host_buf (heap w4 ! (bs ! i)) = None"
      using d raw i by (auto simp: describes_device_buf)
  qed
  have new: "model_facts self1 w4 n e (length (tables w)) bs addrs"
    unfolding model_facts_def
    using lbs al4 m4 t4 entry
    by (simp add: self1 w4_def [symmetric] addrs_def [symmetric])
  have old: "wf_model self1 w4 n' e'" if "engines self1 n' = Some e'" "n' \<noteq> n" for n' e'
  proof -
    from that have "engines self n' = Some e'" by (simp add: self1)
    from wf_modelD [OF wf this] obtain ctx' bs' addrs' where
      "model_facts self w n' e' ctx' bs' addrs'" by blast
    from model_facts_keeps [OF k4 this]
    have "model_facts self1 w4 n' e' ctx' bs' addrs'"
      using that(2) by (simp add: model_facts_def self1)
    then show ?thesis unfolding wf_model_def by blast
  qed
  have dom: "dom (inputs self1) = dom (engines self1)"
    using wf by (simp add: wf_def self1)
  have wf1: "wf self1 w4"
    unfolding wf_def
  proof (intro conjI allI impI)
    fix n' e' assume e': "engines self1 n' = Some e'"
    show "wf_model self1 w4 n' e'"
    proof (cases "n' = n")
      case True
      with e' have "e' = e" by (simp add: self1)
      with new True show ?thesis unfolding wf_model_def by blast
    next
      case False
      with e' show ?thesis by (rule old)
    qed
  qed (rule dom)
  have lz1: "lazy_hosts self1 w4"
    unfolding lazy_hosts_def
  proof (intro allI impI ballI)
    fix n' e' bs' r
    assume e': "engines self1 n' = Some e'" and b': "bindings self1 n' = Some bs'"
      and r: "r \<in> set bs'"
    show "host_buf (heap w4 ! r) = None"
    proof (cases "n' = n")
      case True
      with b' have "bs' = bs" by (simp add: self1)
      with r obtain i where "i < length e" "r = bs ! i"
        using lbs by (auto simp: in_set_conv_nth)
      with entry show ?thesis by simp
    next
      case False
      with b' e' have b: "bindings self n' = Some bs'" and e0: "engines self n' = Some e'"
        by (simp_all add: self1)
      have "host_buf (heap w ! r) = None" using lz b e0 r by (auto simp: lazy_hosts_def)
      moreover have "allocated w r"
      proof -
        from wf_modelD [OF wf e0] obtain ctx' bs'' addrs' where
          mf: "model_facts self w n' e' ctx' bs'' addrs'" by blast
        then have "bs'' = bs'" using b by (simp add: model_facts_def)
        with model_facts_lengths(2) [OF mf] r show ?thesis by simp
      qed
      ultimately show ?thesis using k4 by (auto simp: keeps_def)
    qed
  qed
  show ?thesis using wf1 lz1 w'4 by (simp add: self1)
qed

subsection \<open>The constructor\<close>

lemma initialize_engines_wf:
  "wf self w \<Longrightarrow> lazy_hosts self w \<Longrightarrow>
   initialize_engines en paths self w = (Inr self', w') \<Longrightarrow>
   wf self' w' \<and> lazy_hosts self' w' \<and>
   dom (engines self') = dom (engines self) \<union> fst ` set paths"
proof (induction paths arbitrary: self w)
  case Nil
  then show ?case by simp
next
  case (Cons np paths)
  obtain n path where np: "np = (n, path)" by (cases np)
  from Cons.prems(3) np obtain self1 w1 where
    lm: "load_model en n path self w = (Inr self1, w1)"
    and ie: "initialize_engines en paths self1 w1 = (Inr self', w')"
    by (cases "load_model en n path self w") (auto split: sum.splits)
  from load_model_wf [OF lm Cons.prems(1,2)]
  have s1: "wf self1 w1" "lazy_hosts self1 w1"
    "dom (engines self1) = insert n (dom (engines self))"
    by simp_all
  from Cons.IH [OF s1(1,2) ie] s1(3) np show ?case by auto
qed

lemma read_paths_names:
  "read_paths c ks = Inr ps \<Longrightarrow> map fst ps = map fst ks"
proof (induction ks arbitrary: ps)
  case Nil
  then show ?case by simp
next
  case (Cons k ks)
  obtain n key where k: "k = (n, key)" by (cases k)
  from Cons.prems k obtain path ps' where
    "c key = Some path" "read_paths c ks = Inr ps'" "ps = (n, path) # ps'"
    by (auto split: option.splits sum.splits)
  with Cons.IH [of ps'] k show ?case by simp
qed

lemma TensorRTEngine_init_Inr:
  assumes "TensorRTEngine_init en half kwargs w0 = (Inr self, w)"
  shows "\<exists>paths pp. read_paths kwargs (model_keys half) = Inr paths \<and>
           kwargs ''grid_sample_3d'' = Some pp \<and> library_loads en pp \<and>
           initialize_engines en paths (no_manager kwargs paths pp)
             (log Ev_Stream (log Ev_init_libnvinfer_plugins (log (Ev_CDLL pp) w0))) = (Inr self, w)"
  using assms unfolding TensorRTEngine_init_def no_manager_def load_plugins_def
  by (cases "read_paths kwargs (model_keys half)"; cases "kwargs ''grid_sample_3d''")
     (auto split: if_splits)

lemma TensorRTEngine_init_wf:
  assumes "TensorRTEngine_init en half kwargs w0 = (Inr self, w)"
  shows "wf self w" "lazy_hosts self w" "dom (engines self) = fst ` set (model_keys half)"
proof -
  from TensorRTEngine_init_Inr [OF assms] obtain paths pp where
    rp: "read_paths kwargs (model_keys half) = Inr paths"
    and ie: "initialize_engines en paths (no_manager kwargs paths pp)
             (log Ev_Stream (log Ev_init_libnvinfer_plugins (log (Ev_CDLL pp) w0))) = (Inr self, w)"
    by blast
  have "wf (no_manager kwargs paths pp) w1" "lazy_hosts (no_manager kwargs paths pp) w1" for w1
    by (simp_all add: wf_def lazy_hosts_def no_manager_def)
  from initialize_engines_wf [OF this ie]
  have r: "wf self w" "lazy_hosts self w" "dom (engines self) = fst ` set paths"
    by (simp_all add: no_manager_def)
  have "fst ` set paths = fst ` set (model_keys half)"
    using read_paths_names [OF rp] by (metis set_map)
  with r show "wf self w" "lazy_hosts self w" "dom (engines self) = fst ` set (model_keys half)"
    by simp_all
qed

lemma quiet_refl: "quiet w w"
  by (simp add: quiet_def)

lemma quiet_trans: "quiet w w1 \<Longrightarrow> quiet w1 w2 \<Longrightarrow> quiet w w2"
  unfolding quiet_def by (metis append.assoc list_all_append)

lemma quiet_log: "\<not> plugin_event ev \<Longrightarrow> quiet w (log ev w)"
  by (simp add: quiet_def log_def)

lemma quiet_same_trace: "trace w' = trace w \<Longrightarrow> quiet w w'"
  by (simp add: quiet_def)

lemma device_buffer_quiet: "quiet w (snd (device_buffer en r w))"
  by (auto simp: device_buffer_def Let_def quiet_def log_def plugin_event_def split: option.splits)

lemma device_ptrs_quiet: "quiet w (snd (device_ptrs en rs w))"
proof (induction rs arbitrary: w)
  case Nil
  then show ?case by (simp add: quiet_refl)
next
  case (Cons r rs)
  have "snd (device_ptrs en (r # rs) w) = snd (device_ptrs en rs (snd (device_buffer en r w)))"
    by (simp add: split_beta)
  then show ?case
    using quiet_trans [OF device_buffer_quiet Cons.IH] by simp
qed

lemma force_device_buffers_quiet: "quiet w (force_device_buffers en rs w)"
proof (induction rs arbitrary: w)
  case Nil
  then show ?case by (simp add: quiet_refl)
next
  case (Cons r rs)
  show ?case
    using quiet_trans [OF device_buffer_quiet Cons.IH] by simp
qed

lemma make_bindings_trace: "trace (snd (make_bindings e is w)) = trace w"
proof (induction "is" arbitrary: w)
  case Nil
  then show ?case by simp
next
  case (Cons i "is")
  show ?case
  proof (cases "Binding_init e i")
    case (Inl err)
    then show ?thesis by simp
  next
    case (Inr b)
    have "trace (snd (make_bindings e is (w\<lparr>heap := heap w @ [b]\<rparr>))) = trace w"
      using Cons.IH [of "w\<lparr>heap := heap w @ [b]\<rparr>"] by simp
    then show ?thesis
      using Inr by (cases "make_bindings e is (w\<lparr>heap := heap w @ [b]\<rparr>)")
        (auto split: sum.splits)
  qed
qed

lemma load_model_quiet: "quiet w (snd (load_model en n path self w))"
proof (cases "file_at en path")
  case Missing
  then show ?thesis by (simp add: load_model_def load_engine_def quiet_refl)
next
  case Corrupt
  then show ?thesis by (simp add: load_model_def load_engine_def quiet_log plugin_event_def)
next
  case (Serialized e)
  define w2 where "w2 = log (Ev_create_execution_context (length (tables w)))
          (log (Ev_deserialize_cuda_engine path) w\<lparr>tables := tables w @ [Map.empty]\<rparr>)"
  have q2: "quiet w w2"
    by (simp add: w2_def quiet_def log_def plugin_event_def)
  have t: "tables (log (Ev_deserialize_cuda_engine path) w) = tables w" by (simp add: log_def)
  show ?thesis
  proof (cases "make_bindings e [0 ..< length e] w2")
    case (Pair res w3)
    have q3: "quiet w w3"
      using make_bindings_trace [of e "[0 ..< length e]" w2] Pair q2
      by (auto intro: quiet_trans quiet_same_trace)
    show ?thesis
    proof (cases res)
      case (Inl err)
      with Serialized Pair q3 show ?thesis
        by (simp add: load_model_def load_engine_def num_io_tensors_def t w2_def [symmetric])
    next
      case (Inr bs)
      have "quiet w3 (force_device_buffers en
            (filter (\<lambda>r. is_input (heap (snd (device_ptrs en bs w3)) ! r)) bs @
             filter (\<lambda>r. \<not> is_input (heap (snd (device_ptrs en bs w3)) ! r)) bs)
            (snd (device_ptrs en bs w3)))"
        using quiet_trans [OF device_ptrs_quiet force_device_buffers_quiet] .
      from quiet_trans [OF q3 this]
      show ?thesis
        using Serialized Pair Inr
        by (simp add: load_model_def load_engine_def num_io_tensors_def t w2_def [symmetric]
            split_beta prepare_buffers_def Let_def)
    qed
  qed
qed

lemma initialize_engines_quiet: "quiet w (snd (initialize_engines en paths self w))"
proof (induction paths arbitrary: self w)
  case Nil
  then show ?case by (simp add: quiet_refl)
next
  case (Cons np paths)
  obtain n path where np: "np = (n, path)" by (cases np)
  show ?case
  proof (cases "load_model en n path self w")
    case (Pair res w1)
    then have q1: "quiet w w1" using load_model_quiet [of w en n path self] by simp
    show ?thesis
    proof (cases res)
      case (Inl err)
      with Pair q1 np show ?thesis by simp
    next
      case (Inr self1)
      with Pair np quiet_trans [OF q1 Cons.IH [of w1 self1]] show ?thesis by simp
    qed
  qed
qed

subsection \<open>The result of a call\<close>

lemma run_unknown_model:
  "engines self n = None \<Longrightarrow>
   run_sequential_tasks en self n ins w = (Inl (ValueError (ModelNotFound n)), w)"
  by (simp add: run_sequential_tasks_def validate_and_bind_def)

lemma infer_unknown_task:
  assumes "inputs self n = None"
  shows "inference_tensorrt en self n ins w =
     (case ins of InList xs \<Rightarrow> (Inl (ValueError (TaskNotFound n)), w)
                | InDict d \<Rightarrow> (Inl (TypeError InputsNotList), w))"
  using assms by (cases ins) (simp_all add: inference_tensorrt_def)

lemma wf_inputs_None: "wf self w \<Longrightarrow> engines self n = None \<Longrightarrow> inputs self n = None"
  unfolding wf_def by (metis domIff)

lemma execute_and_fetch_cases:
  "execute_and_fetch en n e ctx outs w =
     (case execute en e (tables w ! ctx) (device w) of
        Raises_on_submit msg \<Rightarrow>
          (Inr (PyTuple [PyNone, PyInt 0]),
           log (Ev_print n msg) (log (Ev_execute_async_v3 ctx) w))
      | Raises_on_synchronize msg \<Rightarrow>
          (Inr (PyTuple [PyNone, PyInt 0]),
           log (Ev_print n msg) (log Ev_synchronize (log (Ev_execute_async_v3 ctx) w)))
      | Completes writes \<Rightarrow>
          (case fetch_outputs en outs
                  (log Ev_synchronize (log (Ev_execute_async_v3 ctx)
                     (w\<lparr>device := apply_writes writes (device w)\<rparr>))) of
             (Inl err, w1) \<Rightarrow> (Inl err, w1)
           | (Inr arrays, w1) \<Rightarrow> (Inr (PyList (map PyArray arrays)), w1)))"
  by (simp add: execute_and_fetch_def)

lemma execute_and_fetch_pair_iff:
  "fst (execute_and_fetch en n e ctx outs w) = Inr (PyTuple [PyNone, PyInt 0]) \<longleftrightarrow>
   (\<exists>msg. execute en e (tables w ! ctx) (device w) = Raises_on_submit msg \<or>
          execute en e (tables w ! ctx) (device w) = Raises_on_synchronize msg)"
  by (cases "execute en e (tables w ! ctx) (device w)")
     (auto simp: execute_and_fetch_cases split: prod.splits sum.splits)

lemma execute_and_fetch_value:
  "fst (execute_and_fetch en n e ctx outs w) = Inr v \<Longrightarrow>
   v = PyTuple [PyNone, PyInt 0] \<or> (\<exists>arrays. v = PyList (map PyArray arrays))"
  by (cases "execute en e (tables w ! ctx) (device w)")
     (auto simp: execute_and_fetch_cases split: prod.splits sum.splits)

lemma run_after_validation:
  "validate_and_bind en self n ins w = (Inr (e, ctx, outs), w2) \<Longrightarrow>
   run_sequential_tasks en self n ins w = execute_and_fetch en n e ctx outs w2"
  by (simp add: run_sequential_tasks_def)

lemma run_validation_fails:
  "validate_and_bind en self n ins w = (Inl err, w1) \<Longrightarrow>
   run_sequential_tasks en self n ins w = (Inl err, w1)"
  by (simp add: run_sequential_tasks_def)

lemma run_pair_iff:
  "fst (run_sequential_tasks en self n ins w) = Inr (PyTuple [PyNone, PyInt 0]) \<longleftrightarrow>
   (\<exists>e ctx outs w2 msg. validate_and_bind en self n ins w = (Inr (e, ctx, outs), w2) \<and>
      (execute en e (tables w2 ! ctx) (device w2) = Raises_on_submit msg \<or>
       execute en e (tables w2 ! ctx) (device w2) = Raises_on_synchronize msg))"
proof (cases "validate_and_bind en self n ins w")
  case (Pair res w2)
  show ?thesis
  proof (cases res)
    case (Inl err)
    with Pair show ?thesis by (simp add: run_validation_fails)
  next
    case (Inr t)
    obtain e ctx outs where "t = (e, ctx, outs)" by (cases t)
    with Pair Inr have v: "validate_and_bind en self n ins w = (Inr (e, ctx, outs), w2)" by simp
    show ?thesis
      by (simp add: run_after_validation [OF v] v execute_and_fetch_pair_iff)
  qed
qed

lemma run_value:
  assumes "fst (run_sequential_tasks en self n ins w) = Inr v"
  shows "v = PyTuple [PyNone, PyInt 0] \<or> (\<exists>arrays. v = PyList (map PyArray arrays))"
proof (cases "validate_and_bind en self n ins w")
  case (Pair res w2)
  show ?thesis
  proof (cases res)
    case (Inl err)
    with Pair assms show ?thesis by (simp add: run_validation_fails)
  next
    case (Inr t)
    obtain e ctx outs where "t = (e, ctx, outs)" by (cases t)
    with Pair Inr have v: "validate_and_bind en self n ins w = (Inr (e, ctx, outs), w2)" by simp
    show ?thesis
      using assms execute_and_fetch_value by (simp add: run_after_validation [OF v])
  qed
qed

lemma run_completes:
  assumes "wf self w" "validate_and_bind en self n ins w = (Inr (e, ctx, outs), w2)"
    "execute en e (tables w2 ! ctx) (device w2) = Completes ws"
  shows "\<exists>arrays. fst (run_sequential_tasks en self n ins w) = Inr (PyList (map PyArray arrays))"
proof -
  define w3 where "w3 = log Ev_synchronize (log (Ev_execute_async_v3 ctx)
                     (w2\<lparr>device := apply_writes ws (device w2)\<rparr>))"
  have sb: "same_buffers w w2"
    using validate_and_bind_same_buffers [OF assms(1), of en n ins] assms(2) by simp
  have sb3: "same_buffers w2 w3"
    by (simp add: w3_def same_buffers_def log_def apply_writes_nbytes)
  from validate_and_bind_Inr [OF assms(2)]
  have "engines self n = Some e" "outputs self n = Some outs" by simp_all
  from wf_outputs_allocated [OF assms(1) this]
  have "\<forall>r\<in>set outs. allocated w3 r"
    using allocated_same_buffers [OF sb] allocated_same_buffers [OF sb3] by blast
  from fetch_outputs_allocated [OF this, of en] obtain arrays w' where
    "fetch_outputs en outs w3 = (Inr arrays, w')" by blast
  then have "fst (run_sequential_tasks en self n ins w) = Inr (PyList (map PyArray arrays))"
    using assms(3)
    by (simp add: run_after_validation [OF assms(2)] execute_and_fetch_cases w3_def [symmetric])
  then show ?thesis by blast
qed

subsection \<open>Sequences of calls\<close>

lemma run_calls_same_buffers: "wf self w \<Longrightarrow> same_buffers w (run_calls en self calls w)"
proof (induction calls arbitrary: w)
  case Nil
  then show ?case by (simp add: same_buffers_refl)
next
  case (Cons c calls)
  obtain n ins where c: "c = (n, ins)" by (cases c)
  have sb: "same_buffers w (snd (run_sequential_tasks en self n ins w))"
    by (rule run_sequential_tasks_same_buffers [OF Cons.prems])
  from Cons.IH [OF wf_same_buffers [OF sb Cons.prems]]
  show ?case using c same_buffers_trans [OF sb] by simp
qed

lemma same_buffers_dom: "same_buffers w w' \<Longrightarrow> dom (device w') = dom (device w)"
proof -
  assume sb: "same_buffers w w'"
  have "device w' p = None \<longleftrightarrow> device w p = None" for p
    using sb unfolding same_buffers_def by (metis option.map_disc_iff)
  then show ?thesis by (auto simp: dom_def)
qed

lemma run_returns:
  assumes "wf self w" "validate_and_bind en self n ins w = (Inr (e, ctx, outs), w2)"
  shows "\<exists>v. fst (run_sequential_tasks en self n ins w) = Inr v"
proof (cases "execute en e (tables w2 ! ctx) (device w2)")
  case (Completes ws)
  from run_completes [OF assms this] show ?thesis by blast
next
  case (Raises_on_submit msg)
  then show ?thesis by (simp add: run_after_validation [OF assms(2)] execute_and_fetch_cases)
next
  case (Raises_on_synchronize msg)
  then show ?thesis by (simp add: run_after_validation [OF assms(2)] execute_and_fetch_cases)
qed

lemma run_unfold_wf:
  assumes "wf self w" "engines self n = Some e" "inputs self n = Some insb"
    "as_list ins (map (\<lambda>r. heap w ! r) insb) = Inr xs"
  shows "\<exists>ctx addrs outs.
    (\<forall>z\<in>set (zip xs insb). allocated w (snd z)) \<and>
    validate_and_bind en self n ins w =
     (if length xs \<noteq> length insb
      then (Inl (ValueError (InputCountMismatch n)), w)
      else (case copy_inputs en 0 (zip xs insb) w of
              (Inl err, w1) \<Rightarrow> (Inl err, w1)
            | (Inr u, w1) \<Rightarrow>
                (Inr (e, ctx, outs), snd (bind_tensors e ctx addrs xs [0 ..< length e] w1))))"
proof -
  from wf_modelD [OF assms(1,2)] obtain ctx bs addrs where
    mf: "model_facts self w n e ctx bs addrs" by blast
  then have a: "contexts self n = Some ctx" "binding_addresses self n = Some addrs"
    "inputs self n = Some (filter (\<lambda>r. is_input (heap w ! r)) bs)"
    "outputs self n = Some (filter (\<lambda>r. \<not> is_input (heap w ! r)) bs)"
    by (simp_all add: model_facts_def)
  note l = model_facts_lengths [OF mf]
  have insb: "insb = filter (\<lambda>r. is_input (heap w ! r)) bs" using a(3) assms(3) by simp
  have al: "\<forall>z\<in>set (zip xs insb). allocated w (snd z)"
  proof
    fix z assume "z \<in> set (zip xs insb)"
    then have "snd z \<in> set insb"
      using set_zip_rightD [of "fst z" "snd z" xs insb] by simp
    then show "allocated w (snd z)" using l(2) by (simp add: insb)
  qed
  show ?thesis
    apply (rule exI [of _ ctx], rule exI [of _ addrs],
        rule exI [of _ "filter (\<lambda>r. \<not> is_input (heap w ! r)) bs"])
    using al validate_and_bind_unfold [OF assms(2) a(1,2) assms(3) a(4) l(1), of en ins w]
    by (simp add: assms(4))
qed

subsection \<open>Rejected and accepted inputs\<close>

lemma run_rejects_first:
  assumes "wf self w" "engines self n = Some e" "inputs self n = Some insb"
    "as_list ins (map (\<lambda>r. heap w ! r) insb) = Inr xs"
    and len: "length xs = length insb" and k: "k < length xs"
    and before: "\<forall>j<k. acceptable (xs ! j) (heap w ! (insb ! j))"
    and bad: "\<not> acceptable (xs ! k) (heap w ! (insb ! k))"
  shows "fst (run_sequential_tasks en self n ins w) =
           Inl (rejection k (xs ! k) (heap w ! (insb ! k)))"
proof -
  from run_unfold_wf [OF assms(1-4), of en] obtain ctx addrs outs where
    al: "\<forall>z\<in>set (zip xs insb). allocated w (snd z)"
    and v: "validate_and_bind en self n ins w =
      (case copy_inputs en 0 (zip xs insb) w of
              (Inl err, w1) \<Rightarrow> (Inl err, w1)
            | (Inr u, w1) \<Rightarrow>
                (Inr (e, ctx, outs), snd (bind_tensors e ctx addrs xs [0 ..< length e] w1)))"
    using len by auto
  have kz: "k < length (zip xs insb)" using k len by simp
  have b': "\<forall>j<k. acceptable (fst (zip xs insb ! j)) (heap w ! snd (zip xs insb ! j))"
    using before k len by simp
  have bad': "\<not> acceptable (fst (zip xs insb ! k)) (heap w ! snd (zip xs insb ! k))"
    using bad k len by simp
  from copy_inputs_first_rejected [OF al kz b' bad', of en 0]
  have c: "fst (copy_inputs en 0 (zip xs insb) w) = Inl (rejection k (xs ! k) (heap w ! (insb ! k)))"
    using k len by simp
  then obtain w1 where
    "copy_inputs en 0 (zip xs insb) w = (Inl (rejection k (xs ! k) (heap w ! (insb ! k))), w1)"
    by (cases "copy_inputs en 0 (zip xs insb) w") simp
  with v have "validate_and_bind en self n ins w =
      (Inl (rejection k (xs ! k) (heap w ! (insb ! k))), w1)" by simp
  from run_validation_fails [OF this] show ?thesis by simp
qed

lemma run_accepts:
  assumes "wf self w" "engines self n = Some e" "inputs self n = Some insb"
    "as_list ins (map (\<lambda>r. heap w ! r) insb) = Inr xs"
    and len: "length xs = length insb"
    and ok: "\<forall>k<length xs. acceptable (xs ! k) (heap w ! (insb ! k))"
  shows "\<exists>v. fst (run_sequential_tasks en self n ins w) = Inr v"
proof -
  from run_unfold_wf [OF assms(1-4), of en] obtain ctx addrs outs where
    al: "\<forall>z\<in>set (zip xs insb). allocated w (snd z)"
    and v: "validate_and_bind en self n ins w =
      (case copy_inputs en 0 (zip xs insb) w of
              (Inl err, w1) \<Rightarrow> (Inl err, w1)
            | (Inr u, w1) \<Rightarrow>
                (Inr (e, ctx, outs), snd (bind_tensors e ctx addrs xs [0 ..< length e] w1)))"
    using len by auto
  have "\<forall>z\<in>set (zip xs insb). acceptable (fst z) (heap w ! snd z)"
    using ok len by (auto simp: in_set_conv_nth)
  from copy_inputs_accepts [OF al this, of en 0] obtain w1 where
    "copy_inputs en 0 (zip xs insb) w = (Inr (), w1)" by blast
  with v have "validate_and_bind en self n ins w =
     (Inr (e, ctx, outs), snd (bind_tensors e ctx addrs xs [0 ..< length e] w1))" by simp
  from run_returns [OF assms(1) this] show ?thesis .
qed

lemma rejection_class: "(\<exists>m. rejection k a b = ValueError m) \<or> (\<exists>m. rejection k a b = TypeError m)"
  by (simp add: rejection_def)

lemma run_rejects_some:
  assumes "wf self w" "engines self n = Some e" "inputs self n = Some insb"
    "as_list ins (map (\<lambda>r. heap w ! r) insb) = Inr xs"
    and k: "k < length xs" "k < length insb"
    and bad: "\<not> acceptable (xs ! k) (heap w ! (insb ! k))"
  shows "\<exists>m. fst (run_sequential_tasks en self n ins w) = Inl (ValueError m) \<or>
             fst (run_sequential_tasks en self n ins w) = Inl (TypeError m)"
proof (cases "length xs = length insb")
  case False
  from run_unfold_wf [OF assms(1-4), of en] False
  have "validate_and_bind en self n ins w = (Inl (ValueError (InputCountMismatch n)), w)"
    by auto
  from run_validation_fails [OF this] show ?thesis by simp
next
  case True
  define j where "j = (LEAST j. \<not> acceptable (xs ! j) (heap w ! (insb ! j)))"
  have bj: "\<not> acceptable (xs ! j) (heap w ! (insb ! j))"
    unfolding j_def using bad by (rule LeastI)
  have jk: "j \<le> k" unfolding j_def using bad by (rule Least_le)
  have before: "\<forall>i<j. acceptable (xs ! i) (heap w ! (insb ! i))"
    unfolding j_def using not_less_Least by blast
  from jk k have "j < length xs" by simp
  from run_rejects_first [OF assms(1-4) True this before bj, of en]
  show ?thesis using rejection_class [of j "xs ! j" "heap w ! (insb ! j)"] by auto
qed

subsection \<open>The address table\<close>

lemma bind_tensors_table:
  assumes "ctx < length (tables w)" "\<forall>i\<in>set is. i < length addrs"
  shows "tables (snd (bind_tensors e ctx addrs xs is w)) ! ctx =
     fold (\<lambda>i t. t(get_tensor_name e i \<mapsto> bound_address e addrs xs i)) is (tables w ! ctx)"
  using assms
proof (induction "is" arbitrary: w)
  case Nil
  then show ?case by simp
next
  case (Cons i "is")
  define w1 where
    "w1 = set_tensor_address ctx (get_tensor_name e i) (bound_address e addrs xs i) w"
  have s: "bind_tensors e ctx addrs xs (i # is) w = bind_tensors e ctx addrs xs is w1"
    using Cons.prems(2) by (simp add: Let_def w1_def bound_address_def)
  have t1: "ctx < length (tables w1)"
    "tables w1 ! ctx = (tables w ! ctx)(get_tensor_name e i \<mapsto> bound_address e addrs xs i)"
    using Cons.prems(1) by (simp_all add: w1_def set_tensor_address_def log_def)
  show ?case
    unfolding s using Cons.IH [OF t1(1)] Cons.prems(2) by (simp add: t1(2))
qed

lemma fold_upd_other:
  "k \<notin> f ` set is \<Longrightarrow> fold (\<lambda>i t. t(f i \<mapsto> g i)) is t0 k = t0 k"
  by (induction "is" arbitrary: t0) auto

lemma fold_upd_lookup:
  "distinct (map f is) \<Longrightarrow> j \<in> set is \<Longrightarrow> fold (\<lambda>i t. t(f i \<mapsto> g i)) is t0 (f j) = Some (g j)"
proof (induction "is" arbitrary: t0)
  case Nil
  then show ?case by simp
next
  case (Cons i "is")
  show ?case
  proof (cases "j = i")
    case True
    from Cons.prems(1) have n: "f i \<notin> f ` set is" by simp
    have "fold (\<lambda>i t. t(f i \<mapsto> g i)) (i # is) t0 (f i) =
          fold (\<lambda>i t. t(f i \<mapsto> g i)) is (t0(f i \<mapsto> g i)) (f i)"
      by (simp only: fold_simps o_apply)
    also have "\<dots> = (t0(f i \<mapsto> g i)) (f i)"
      by (rule fold_upd_other [OF n])
    also have "\<dots> = Some (g i)" by simp
    finally show ?thesis unfolding True .
  next
    case False
    with Cons show ?thesis by simp
  qed
qed

lemma get_tensor_names: "map (get_tensor_name e) [0 ..< length e] = map tensor_name e"
  by (rule nth_equalityI) (simp_all add: get_tensor_name_def)

lemma find_distinct:
  "distinct (map f xs) \<Longrightarrow> i < length xs \<Longrightarrow> find (\<lambda>t. f t = f (xs ! i)) xs = Some (xs ! i)"
proof (induction xs arbitrary: i)
  case Nil
  then show ?case by simp
next
  case (Cons x xs)
  show ?case
  proof (cases i)
    case 0
    then show ?thesis by simp
  next
    case (Suc i')
    with Cons.prems have "f x \<noteq> f (xs ! i')"
      using nth_mem [of i' xs] by auto
    with Cons Suc show ?thesis by simp
  qed
qed

lemma get_tensor_distinct:
  "distinct (map tensor_name e) \<Longrightarrow> i < length e \<Longrightarrow>
   get_tensor e (get_tensor_name e i) = Some (e ! i)"
  by (simp add: get_tensor_def get_tensor_name_def find_distinct)

lemma filter_takeWhile:
  "list_all (\<lambda>t. \<not> P t) (dropWhile P xs) \<Longrightarrow> filter P xs = takeWhile P xs"
proof (induction xs)
  case Nil
  then show ?case by simp
next
  case (Cons x xs)
  show ?case
  proof (cases "P x")
    case True
    with Cons show ?thesis by simp
  next
    case False
    with Cons.prems have "list_all (\<lambda>t. \<not> P t) xs" by simp
    then have "filter P xs = []" by (simp add: list_all_iff filter_empty_conv)
    with False show ?thesis by simp
  qed
qed

lemma inputs_prefix:
  "list_all (\<lambda>t. \<not> P t) (dropWhile P xs) \<Longrightarrow> i < length xs \<Longrightarrow>
   P (xs ! i) \<longleftrightarrow> i < length (takeWhile P xs)"
proof (induction xs arbitrary: i)
  case Nil
  then show ?case by simp
next
  case (Cons x xs)
  show ?case
  proof (cases "P x")
    case True
    with Cons show ?thesis by (cases i) simp_all
  next
    case False
    with Cons.prems have "list_all (\<lambda>t. \<not> P t) (x # xs)" by simp
    then have "\<not> P ((x # xs) ! i)" using Cons.prems(2) by (simp add: list_all_length)
    with False show ?thesis by simp
  qed
qed

lemma filter_prefix:
  "\<forall>i<length bs. Q (bs ! i) \<longleftrightarrow> i < m \<Longrightarrow> filter Q bs = take m bs"
proof (induction bs arbitrary: m)
  case Nil
  then show ?case by simp
next
  case (Cons b bs)
  show ?case
  proof (cases m)
    case 0
    with Cons.prems have "\<forall>x\<in>set (b # bs). \<not> Q x"
      by (metis in_set_conv_nth not_less_zero)
    with 0 show ?thesis by simp
  next
    case (Suc m')
    from Cons.prems Suc have "Q b" by fastforce
    moreover have "\<forall>i<length bs. Q (bs ! i) \<longleftrightarrow> i < m'"
      using Cons.prems Suc by fastforce
    ultimately show ?thesis using Cons.IH [of m'] Suc by simp
  qed
qed

lemma address_table_when_inputs_first:
  assumes wf: "wf self w"
    and v: "validate_and_bind en self n ins w = (Inr (e, ctx, outs), w2)"
    and ins: "inputs self n = Some insb" "as_list ins (map (\<lambda>r. heap w ! r) insb) = Inr xs"
    and d: "distinct (map tensor_name e)" and f: "inputs_first e"
  shows "\<exists>bs. bindings self n = Some bs \<and> length bs = num_io_tensors e \<and>
          run_sequential_tasks en self n ins w = execute_and_fetch en n e ctx outs w2 \<and>
          (\<forall>i<num_io_tensors e.
             (tensor_mode (e ! i) = INPUT \<longrightarrow> i < length xs \<and> insb ! i = bs ! i) \<and>
             (if tensor_mode (e ! i) = INPUT \<and> shape_inference_io (e ! i)
              then (tables w2 ! ctx) (tensor_name (e ! i)) = Some (ctypes_data (xs ! i))
              else (\<exists>p buf. device_buf (heap w2 ! (bs ! i)) = Some p \<and>
                     device w2 p = Some buf \<and>
                     (tables w2 ! ctx) (tensor_name (e ! i)) = Some p)))"
proof -
  from validate_and_bind_Inr [OF v] ins obtain addrs w1 where
    e: "engines self n = Some e" and c: "contexts self n = Some ctx"
    and a: "binding_addresses self n = Some addrs"
    and len: "length xs = length insb"
    and cp: "copy_inputs en 0 (zip xs insb) w = (Inr (), w1)"
    and bt: "bind_tensors e ctx addrs xs [0 ..< num_io_tensors e] w1 = (Inr (), w2)"
    by auto
  from wf_modelD [OF wf e] obtain ctx' bs addrs' where
    mf: "model_facts self w n e ctx' bs addrs'" by blast
  with c a have [simp]: "ctx' = ctx" "addrs' = addrs" by (simp_all add: model_facts_def)
  from mf have b: "bindings self n = Some bs" "length bs = length e" "ctx < length (tables w)"
    and insb: "insb = filter (\<lambda>r. is_input (heap w ! r)) bs"
    and ds: "\<forall>i<length e. describes e i (heap w ! (bs ! i))"
    and al: "\<forall>i<length e. allocated w (bs ! i)"
    and dv: "map (\<lambda>r. device_buf (heap w ! r)) bs = map Some addrs"
    using ins(1) by (simp_all add: model_facts_def)
  note l = model_facts_lengths [OF mf]
  have sb2: "same_buffers w w2"
    using validate_and_bind_same_buffers [OF wf, of en n ins] v by simp
  then have h2: "heap w2 = heap w" by (simp add: same_buffers_def)
  have alz: "\<forall>z\<in>set (zip xs insb). allocated w (snd z)"
  proof
    fix z assume "z \<in> set (zip xs insb)"
    then have "snd z \<in> set insb"
      using set_zip_rightD [of "fst z" "snd z" xs insb] by simp
    then show "allocated w (snd z)" using l(2) by (simp add: insb)
  qed
  have t1: "tables w1 = tables w"
    using copy_inputs_same_buffers [OF alz, of en 0] cp by simp
  have tab: "tables w2 ! ctx =
      fold (\<lambda>i t. t(get_tensor_name e i \<mapsto> bound_address e addrs xs i)) [0 ..< length e]
        (tables w1 ! ctx)"
    using bind_tensors_table [of ctx w1 "[0 ..< length e]" addrs e xs] b(3) l(1) bt
    by (simp add: t1 num_io_tensors_def)
  have dn: "distinct (map (get_tensor_name e) [0 ..< length e])"
    using d by (simp add: get_tensor_names)
  have look: "(tables w2 ! ctx) (tensor_name (e ! i)) = Some (bound_address e addrs xs i)"
    if "i < length e" for i
    using fold_upd_lookup [OF dn, of i "bound_address e addrs xs" "tables w1 ! ctx"] that
    by (simp add: tab get_tensor_name_def)
  define m where "m = length (takeWhile (\<lambda>t. tensor_mode t = INPUT) e)"
  have pre: "tensor_mode (e ! i) = INPUT \<longleftrightarrow> i < m" if "i < length e" for i
    unfolding m_def using inputs_prefix [of "\<lambda>t. tensor_mode t = INPUT" e i] f that
    by (simp add: inputs_first_def)
  have mle: "m \<le> length e" unfolding m_def by (rule length_takeWhile_le)
  have q: "is_input (heap w ! (bs ! i)) \<longleftrightarrow> i < m" if "i < length e" for i
    using ds that get_tensor_distinct [OF d that] pre [OF that]
    by (simp add: describes_def get_tensor_mode_def)
  have "insb = take m bs"
    unfolding insb using q b(2) by (intro filter_prefix) simp
  then have li: "length xs = m" and ni: "\<forall>i<m. insb ! i = bs ! i"
    using len mle b(2) by simp_all
  have sh: "is_shape_inference_io e (get_tensor_name e i) = shape_inference_io (e ! i)"
    if "i < length e" for i
    using get_tensor_distinct [OF d that] by (simp add: is_shape_inference_io_def)
  have main: "(tensor_mode (e ! i) = INPUT \<longrightarrow> i < length xs \<and> insb ! i = bs ! i) \<and>
             (if tensor_mode (e ! i) = INPUT \<and> shape_inference_io (e ! i)
              then (tables w2 ! ctx) (tensor_name (e ! i)) = Some (ctypes_data (xs ! i))
              else (\<exists>p buf. device_buf (heap w2 ! (bs ! i)) = Some p \<and>
                     device w2 p = Some buf \<and>
                     (tables w2 ! ctx) (tensor_name (e ! i)) = Some p))"
    if i: "i < length e" for i
  proof -
    have ba: "bound_address e addrs xs i =
        (if tensor_mode (e ! i) = INPUT \<and> shape_inference_io (e ! i)
         then ctypes_data (xs ! i) else addrs ! i)"
      using pre [OF i] sh [OF i] by (simp add: bound_address_def li)
    have "device_buf (heap w ! (bs ! i)) = Some (addrs ! i)"
      using arg_cong [OF dv, of "\<lambda>l. l ! i"] i b(2) l(1) by simp
    moreover from al i have "allocated w2 (bs ! i)"
      using allocated_same_buffers [OF sb2] by simp
    ultimately have "\<exists>buf. device_buf (heap w2 ! (bs ! i)) = Some (addrs ! i) \<and>
        device w2 (addrs ! i) = Some buf"
      by (auto simp: allocated_def h2)
    then show ?thesis
      using look [OF i] ba pre [OF i] li ni by auto
  qed
  show ?thesis
  proof (intro exI [of _ bs] conjI)
    show "bindings self n = Some bs" by (rule b(1))
    show "length bs = num_io_tensors e" using b(2) by (simp add: num_io_tensors_def)
    show "run_sequential_tasks en self n ins w = execute_and_fetch en n e ctx outs w2"
      by (rule run_after_validation [OF v])
    show "\<forall>i<num_io_tensors e.
             (tensor_mode (e ! i) = INPUT \<longrightarrow> i < length xs \<and> insb ! i = bs ! i) \<and>
             (if tensor_mode (e ! i) = INPUT \<and> shape_inference_io (e ! i)
              then (tables w2 ! ctx) (tensor_name (e ! i)) = Some (ctypes_data (xs ! i))
              else (\<exists>p buf. device_buf (heap w2 ! (bs ! i)) = Some p \<and>
                     device w2 p = Some buf \<and>
                     (tables w2 ! ctx) (tensor_name (e ! i)) = Some p))"
      unfolding num_io_tensors_def using main by blast
  qed
qed

subsection \<open>The outputs of a call\<close>

lemma filter_by_index:
  "filter P bs = map ((!) bs) (filter (\<lambda>i. P (bs ! i)) [0 ..< length bs])"
proof -
  have "filter P (map ((!) bs) [0 ..< length bs]) =
        map ((!) bs) (filter (\<lambda>i. P (bs ! i)) [0 ..< length bs])"
    by (simp add: filter_map comp_def)
  then show ?thesis by (simp add: map_nth)
qed

lemma run_outputs:
  assumes wf: "wf self w"
    and v: "validate_and_bind en self n ins w = (Inr (e, ctx, outs), w2)"
    and ex: "execute en e (tables w2 ! ctx) (device w2) = Completes ws"
  shows "\<exists>w3 w'. run_sequential_tasks en self n ins w =
           (Inr (PyList (map PyArray
              (map (fetched w3) (zip [next_host_ptr w3 ..< next_host_ptr w3 + length outs] outs)))),
            w')
         \<and> same_buffers w w3 \<and> same_buffers w w' \<and> device w' = device w3
         \<and> next_host_ptr w' = next_host_ptr w3 + length outs
         \<and> (\<forall>r\<in>set outs. allocated w3 r)
         \<and> trace w' = trace w3 @
             map (\<lambda>(h, r). Ev_memcpy_dtoh h (the (device_buf (heap w3 ! r))))
               (zip [next_host_ptr w3 ..< next_host_ptr w3 + length outs] outs)"
proof -
  define w3 where "w3 = log Ev_synchronize (log (Ev_execute_async_v3 ctx)
                     (w2\<lparr>device := apply_writes ws (device w2)\<rparr>))"
  have sb: "same_buffers w w2"
    using validate_and_bind_same_buffers [OF wf, of en n ins] v by simp
  have sb3: "same_buffers w2 w3"
    by (simp add: w3_def same_buffers_def log_def apply_writes_nbytes)
  note sbw3 = same_buffers_trans [OF sb sb3]
  from validate_and_bind_Inr [OF v]
  have "engines self n = Some e" "outputs self n = Some outs" by simp_all
  from wf_outputs_allocated [OF wf this]
  have al: "\<forall>r\<in>set outs. allocated w3 r"
    using allocated_same_buffers [OF sbw3] by blast
  from fetch_outputs_allocated [OF al, of en] obtain w' where
    f: "fetch_outputs en outs w3 =
           (Inr (map (fetched w3) (zip [next_host_ptr w3 ..< next_host_ptr w3 + length outs] outs)), w')"
    and r: "same_buffers w3 w'" "device w' = device w3"
      "next_host_ptr w' = next_host_ptr w3 + length outs"
      "trace w' = trace w3 @
             map (\<lambda>(h, r). Ev_memcpy_dtoh h (the (device_buf (heap w3 ! r))))
               (zip [next_host_ptr w3 ..< next_host_ptr w3 + length outs] outs)"
    by blast
  have "run_sequential_tasks en self n ins w =
           (Inr (PyList (map PyArray
              (map (fetched w3) (zip [next_host_ptr w3 ..< next_host_ptr w3 + length outs] outs)))),
            w')"
    using ex f
    by (simp add: run_after_validation [OF v] execute_and_fetch_cases w3_def [symmetric])
  then show ?thesis
    using sbw3 same_buffers_trans [OF sbw3 r(1)] r(2,3,4) al by blast
qed

lemma run_list_completes:
  assumes "run_sequential_tasks en self n ins w = (Inr v, w')" "v \<noteq> PyTuple [PyNone, PyInt 0]"
  shows "\<exists>e ctx outs w2 ws. validate_and_bind en self n ins w = (Inr (e, ctx, outs), w2) \<and>
           execute en e (tables w2 ! ctx) (device w2) = Completes ws"
proof (cases "validate_and_bind en self n ins w")
  case (Pair res w2)
  show ?thesis
  proof (cases res)
    case (Inl err)
    with Pair assms show ?thesis by (simp add: run_validation_fails)
  next
    case (Inr t)
    obtain e ctx outs where "t = (e, ctx, outs)" by (cases t)
    with Pair Inr have v: "validate_and_bind en self n ins w = (Inr (e, ctx, outs), w2)" by simp
    from assms have "fst (run_sequential_tasks en self n ins w) \<noteq> Inr (PyTuple [PyNone, PyInt 0])"
      by auto
    then have "\<exists>ws. execute en e (tables w2 ! ctx) (device w2) = Completes ws"
      unfolding run_after_validation [OF v] execute_and_fetch_pair_iff
      by (cases "execute en e (tables w2 ! ctx) (device w2)") auto
    with v show ?thesis by blast
  qed
qed

lemma fetched_nth:
  assumes "k < length outs"
  shows "map (fetched w3) (zip [h ..< h + length outs] outs) ! k = fetched w3 (h + k, outs ! k)"
  using assms by simp

lemma fetched_ptrs:
  "map ctypes_data (map (fetched w3) (zip [h ..< h + length outs] outs)) = [h ..< h + length outs]"
  by (rule nth_equalityI) (simp_all add: fetched_def)

lemma outputs_in_engine_order:
  assumes "length bs = length e" "\<forall>i<length e. describes e i (heap w ! (bs ! i))"
  shows "map (\<lambda>r. (shape (heap w ! r), Some (dtype (heap w ! r))))
           (filter (\<lambda>r. \<not> is_input (heap w ! r)) bs) =
         map (\<lambda>i. (get_tensor_shape e (get_tensor_name e i),
                    dtype_map (get_tensor_dtype e (get_tensor_name e i))))
           (filter (\<lambda>i. get_tensor_mode e (get_tensor_name e i) \<noteq> INPUT) [0 ..< length e])"
proof -
  have f: "filter (\<lambda>i. \<not> is_input (heap w ! (bs ! i))) [0 ..< length e] =
           filter (\<lambda>i. get_tensor_mode e (get_tensor_name e i) \<noteq> INPUT) [0 ..< length e]"
    using assms(2) by (intro filter_cong) (simp_all add: describes_def)
  have "map (\<lambda>r. (shape (heap w ! r), Some (dtype (heap w ! r))))
           (filter (\<lambda>r. \<not> is_input (heap w ! r)) bs) =
        map (\<lambda>i. (shape (heap w ! (bs ! i)), Some (dtype (heap w ! (bs ! i)))))
           (filter (\<lambda>i. \<not> is_input (heap w ! (bs ! i))) [0 ..< length e])"
    by (subst filter_by_index) (simp add: assms(1) comp_def)
  also have "\<dots> = map (\<lambda>i. (get_tensor_shape e (get_tensor_name e i),
                    dtype_map (get_tensor_dtype e (get_tensor_name e i))))
           (filter (\<lambda>i. \<not> is_input (heap w ! (bs ! i))) [0 ..< length e])"
    using assms(2) by (intro map_cong) (auto simp: describes_def)
  finally show ?thesis unfolding f .
qed

lemma run_completes_arrays:
  assumes wf: "wf self w"
    and v: "validate_and_bind en self n ins w = (Inr (e, ctx, outs), w2)"
    and ex: "execute en e (tables w2 ! ctx) (device w2) = Completes ws"
  shows "\<exists>arrays.
           fst (run_sequential_tasks en self n ins w) = Inr (PyList (map PyArray arrays)) \<and>
           outputs self n = Some outs \<and> length arrays = length outs \<and>
           (\<forall>k<length outs.
              a_shape (arrays ! k) = shape (heap w ! (outs ! k)) \<and>
              a_dtype (arrays ! k) = dtype (heap w ! (outs ! k)) \<and>
              (\<exists>p buf. device_buf (heap w ! (outs ! k)) = Some p \<and>
                 apply_writes ws (device w2) p = Some buf \<and>
                 a_data (arrays ! k) = contents buf))"
proof -
  define w3 where "w3 = log Ev_synchronize (log (Ev_execute_async_v3 ctx)
                     (w2\<lparr>device := apply_writes ws (device w2)\<rparr>))"
  have sb: "same_buffers w w2"
    using validate_and_bind_same_buffers [OF wf, of en n ins] v by simp
  have sb3: "same_buffers w2 w3"
    by (simp add: w3_def same_buffers_def log_def apply_writes_nbytes)
  note sbw3 = same_buffers_trans [OF sb sb3]
  then have h3: "heap w3 = heap w" by (simp add: same_buffers_def)
  have d3: "device w3 = apply_writes ws (device w2)" by (simp add: w3_def log_def)
  from validate_and_bind_Inr [OF v]
  have e: "engines self n = Some e" and o: "outputs self n = Some outs" by simp_all
  from wf_outputs_allocated [OF wf e o]
  have al: "\<forall>r\<in>set outs. allocated w3 r"
    using allocated_same_buffers [OF sbw3] by blast
  define h where "h = next_host_ptr w3"
  define arrays where "arrays = map (fetched w3) (zip [h ..< h + length outs] outs)"
  from fetch_outputs_allocated [OF al, of en] obtain w' where
    f: "fetch_outputs en outs w3 = (Inr arrays, w')"
    unfolding arrays_def h_def by blast
  have run: "fst (run_sequential_tasks en self n ins w) = Inr (PyList (map PyArray arrays))"
    using ex f
    by (simp add: run_after_validation [OF v] execute_and_fetch_cases w3_def [symmetric])
  have la: "length arrays = length outs" by (simp add: arrays_def)
  have item: "\<forall>k<length outs.
              a_shape (arrays ! k) = shape (heap w ! (outs ! k)) \<and>
              a_dtype (arrays ! k) = dtype (heap w ! (outs ! k)) \<and>
              (\<exists>p buf. device_buf (heap w ! (outs ! k)) = Some p \<and>
                 apply_writes ws (device w2) p = Some buf \<and>
                 a_data (arrays ! k) = contents buf)"
  proof (intro allI impI)
    fix k assume k: "k < length outs"
    have ak: "arrays ! k = fetched w3 (h + k, outs ! k)"
      unfolding arrays_def using fetched_nth [OF k] .
    from al k have "allocated w3 (outs ! k)" by simp
    then obtain p buf where
      pb: "device_buf (heap w ! (outs ! k)) = Some p" "device w3 p = Some buf"
      by (auto simp: allocated_def h3)
    show "a_shape (arrays ! k) = shape (heap w ! (outs ! k)) \<and>
              a_dtype (arrays ! k) = dtype (heap w ! (outs ! k)) \<and>
              (\<exists>p buf. device_buf (heap w ! (outs ! k)) = Some p \<and>
                 apply_writes ws (device w2) p = Some buf \<and>
                 a_data (arrays ! k) = contents buf)"
      unfolding ak using pb by (simp add: fetched_def h3 d3 [symmetric])
  qed
  show ?thesis
    apply (rule exI [of _ arrays])
    apply (intro conjI)
       apply (rule run)
      apply (rule o)
     apply (rule la)
    apply (rule item)
    done
qed

subsection \<open>Host addresses\<close>

lemma same_buffers_hosts_below: "same_buffers w w' \<Longrightarrow> hosts_below w \<Longrightarrow> hosts_below w'"
  unfolding hosts_below_def same_buffers_def
  by fastforce

lemma grows_hosts_below:
  assumes "grows w w'" "hosts_below w"
  shows "hosts_below w'"
proof -
  from assms(1) have l: "length (heap w') = length (heap w)" and p: "pinned w' = pinned w"
    and n: "next_host_ptr w' = next_host_ptr w"
    and r: "\<forall>r<length (heap w). host_buf (heap w' ! r) = host_buf (heap w ! r)"
    by (auto simp: grows_def)
  have "\<forall>b\<in>set (heap w'). \<forall>q. host_buf b = Some q \<longrightarrow> q < next_host_ptr w'"
  proof (intro ballI allI impI)
    fix b q assume "b \<in> set (heap w')" and q: "host_buf b = Some q"
    then obtain i where i: "i < length (heap w)" "b = heap w' ! i"
      using l by (auto simp: in_set_conv_nth)
    with r q have "host_buf (heap w ! i) = Some q" by simp
    with assms(2) i(1) show "q < next_host_ptr w'"
      unfolding hosts_below_def n using nth_mem by blast
  qed
  with assms(2) p n show ?thesis by (simp add: hosts_below_def)
qed

lemma load_model_hosts_below:
  assumes lm: "load_model en n path self w = (Inr self1, w')" and hb: "hosts_below w"
  shows "hosts_below w'"
proof -
  define w2 where "w2 = log (Ev_create_execution_context (length (tables w)))
          (log (Ev_deserialize_cuda_engine path) w\<lparr>tables := tables w @ [Map.empty]\<rparr>)"
  from load_model_Inr [OF lm] obtain e bs w3 where
    mb: "make_bindings e [0 ..< length e] w2 = (Inr bs, w3)"
    and w': "w' = force_device_buffers en
            (filter (\<lambda>r. is_input (heap (snd (device_ptrs en bs w3)) ! r)) bs @
             filter (\<lambda>r. \<not> is_input (heap (snd (device_ptrs en bs w3)) ! r)) bs)
            (snd (device_ptrs en bs w3))"
    unfolding w2_def by blast
  define w4 where "w4 = snd (device_ptrs en bs w3)"
  have w2f: "heap w2 = heap w" "pinned w2 = pinned w" "next_host_ptr w2 = next_host_ptr w"
    by (simp_all add: w2_def log_def)
  from make_bindings_effect [OF mb] obtain B where
    B: "w3 = w2\<lparr>heap := heap w2 @ B\<rparr>" "length B = length e"
       "bs = [length (heap w) ..< length (heap w) + length e]"
       "\<forall>k<length e. Binding_init e k = Inr (B ! k)"
    by (auto simp: w2f)
  have none: "\<forall>b\<in>set B. host_buf b = None"
    using B(2,4) Binding_init_describes(2) by (metis in_set_conv_nth)
  have hb3: "hosts_below w3"
    using hb none by (auto simp: hosts_below_def B(1) w2f)
  have good3: "\<forall>r\<in>set bs. good w3 r"
  proof
    fix r assume "r \<in> set bs"
    then have "length (heap w) \<le> r" "r < length (heap w) + length e"
      using B(3) by simp_all
    then obtain k where k: "k < length e" "r = length (heap w) + k"
      using le_Suc_ex by (metis nat_add_left_cancel_less)
    then have "heap w3 ! r = B ! k" "r < length (heap w3)"
      using B(1,2) by (simp_all add: w2f nth_append)
    moreover have "device_buf (B ! k) = None"
      using B(4) k(1) Binding_init_describes(3) by blast
    ultimately show "good w3 r" by (simp add: good_def)
  qed
  from device_ptrs_effect [OF good3, of en]
  have g4: "grows w3 w4" and al4: "\<forall>r\<in>set bs. allocated w4 r"
    by (simp_all add: w4_def)
  have "\<forall>r\<in>set (filter (\<lambda>r. is_input (heap w4 ! r)) bs @
                   filter (\<lambda>r. \<not> is_input (heap w4 ! r)) bs). allocated w4 r"
    using al4 by auto
  from force_device_buffers_allocated [OF this, of en]
  have "w' = w4" by (simp add: w' w4_def)
  with grows_hosts_below [OF g4 hb3] show ?thesis by simp
qed

lemma initialize_engines_hosts_below:
  "hosts_below w \<Longrightarrow> initialize_engines en paths self w = (Inr self', w') \<Longrightarrow> hosts_below w'"
proof (induction paths arbitrary: self w)
  case Nil
  then show ?case by simp
next
  case (Cons np paths)
  obtain n path where np: "np = (n, path)" by (cases np)
  from Cons.prems(2) np obtain self1 w1 where
    lm: "load_model en n path self w = (Inr self1, w1)"
    and ie: "initialize_engines en paths self1 w1 = (Inr self', w')"
    by (cases "load_model en n path self w") (auto split: sum.splits)
  from Cons.IH [OF load_model_hosts_below [OF lm Cons.prems(1)] ie] show ?case .
qed

lemma TensorRTEngine_init_hosts_below:
  assumes "TensorRTEngine_init en half kwargs w0 = (Inr self, w)" "hosts_below w0"
  shows "hosts_below w"
proof -
  from TensorRTEngine_init_Inr [OF assms(1)] obtain paths pp where
    ie: "initialize_engines en paths (no_manager kwargs paths pp)
             (log Ev_Stream (log Ev_init_libnvinfer_plugins (log (Ev_CDLL pp) w0))) = (Inr self, w)"
    by blast
  have "hosts_below (log Ev_Stream (log Ev_init_libnvinfer_plugins (log (Ev_CDLL pp) w0)))"
    using assms(2) by (simp add: hosts_below_def log_def)
  from initialize_engines_hosts_below [OF this ie] show ?thesis .
qed

lemma run_sequential_tasks_hosts_below:
  "wf self w \<Longrightarrow> hosts_below w \<Longrightarrow> hosts_below (snd (run_sequential_tasks en self n ins w))"
  using run_sequential_tasks_same_buffers same_buffers_hosts_below by blast

subsection \<open>The small installation\<close>

lemmas init_defs = tiny_engine_def unit_engine_def tiny_env_def tiny_cfg_def fresh_world_def
  TensorRTEngine_init_def load_model_def model_keys_def load_plugins_def load_engine_def log_def
  num_io_tensors_def Binding_init_def get_tensor_name_def get_tensor_def get_tensor_dtype_def
  get_tensor_mode_def get_tensor_shape_def device_buffer_def prepare_buffers_def volume_def
  Let_def

lemma tiny_init:
  "TensorRTEngine_init (tiny_env out) False tiny_cfg fresh_world = (Inr tiny_self, tiny_world)"
  by (simp add: init_defs tiny_self_def tiny_world_def unit_binding_def eval_nat_numeral)

lemmas run_defs = run_sequential_tasks_def validate_and_bind_def execute_and_fetch_def
  inference_tensorrt_def np_array_def as_list_def
  check_input_validity_def astype_int32_def astype_int64_def array_equal_def
  ascontiguousarray_def memcpy_htod_def memcpy_dtoh_def np_empty_def set_tensor_address_def
  device_buffer_def log_def num_io_tensors_def get_tensor_name_def is_shape_inference_io_def
  get_tensor_def Let_def

lemmas tiny_defs = tiny_world_def tiny_self_def tiny_env_def tiny_engine_def unit_engine_def
  unit_binding_def good_x_def scalar_s_def long_s_def

lemma tiny_wf: "wf tiny_self tiny_world"
  by (rule TensorRTEngine_init_wf(1) [OF tiny_init])

lemma tiny_hosts_below: "hosts_below tiny_world"
  by (simp add: hosts_below_def tiny_world_def unit_binding_def)

lemma tiny_validate:
  "validate_and_bind (tiny_env out) tiny_self ''feature_extractor'' (InList [good_x, scalar_s])
     tiny_world =
   (Inr (tiny_engine, 0, [2]),
    snd (validate_and_bind (tiny_env out) tiny_self ''feature_extractor''
           (InList [good_x, scalar_s]) tiny_world))"
  by (rule prod_eqI) (simp_all add: run_defs tiny_defs)

lemma tiny_run_ok:
  "run_sequential_tasks (tiny_env (Completes [(2, [5, 6])])) tiny_self ''feature_extractor''
     (InList [good_x, scalar_s]) tiny_world =
   (Inr (PyList [PyArray \<lparr>ctypes_data = 100, a_dtype = np_float32, a_shape = [2],
                          a_data = [5, 6]\<rparr>]),
    snd (run_sequential_tasks (tiny_env (Completes [(2, [5, 6])])) tiny_self
           ''feature_extractor'' (InList [good_x, scalar_s]) tiny_world))"
  by (rule prod_eqI) (simp_all add: run_defs tiny_defs)

lemma swapped_init:
  "TensorRTEngine_init (swapped_env out) False tiny_cfg fresh_world =
     (Inr swapped_self, swapped_world)"
  by (simp add: init_defs swapped_engine_def swapped_env_def swapped_self_def swapped_world_def
        unit_binding_def eval_nat_numeral)

lemmas swapped_defs = swapped_world_def swapped_self_def swapped_env_def swapped_engine_def
  unit_engine_def unit_binding_def scalar_s_def

section \<open>The claims\<close>

text \<open>
  C1. The spec has a 64-bit integer array accepted for a 32-bit slot exactly when every
  value is representable in 32 bits, and rejected with a type error otherwise. The code
  narrows first and then compares the narrowed array with itself, so nothing is ever
  rejected: no call of \<^verbatim>\<open>check_input_validity\<close> raises the error of line 124. For the
  feature extractor's input \<open>x\<close>, the values \<open>[1, 2\<^sup>3\<^sup>1]\<close> pass
  \<^verbatim>\<open>check_input_validity\<close> as \<open>[1, -2\<^sup>3\<^sup>1]\<close>, and both \<^verbatim>\<open>run_sequential_tasks\<close> and
  \<^verbatim>\<open>inference_tensorrt\<close> return outputs after copying the wrapped values to the device.
\<close>

theorem C1_unrepresentable_value_is_wrapped:
  "fst (check_input_validity i a b w) \<noteq> Inl (TypeError (CannotSafelyCast j d d'))
   \<and> fst (check_input_validity 0 wide_x (heap tiny_world ! 0) tiny_world) =
     Inr \<lparr>ctypes_data = 100, a_dtype = np_int32, a_shape = [2], a_data = [1, - 2147483648]\<rparr>
   \<and> fst (run_sequential_tasks (tiny_env (Completes [(2, [5, 6])])) tiny_self
            ''feature_extractor'' (InList [wide_x, scalar_s]) tiny_world) =
     Inr (PyList [PyArray \<lparr>ctypes_data = 102, a_dtype = np_float32, a_shape = [2],
                            a_data = [5, 6]\<rparr>])
   \<and> Ev_memcpy_htod 0
         \<lparr>ctypes_data = 100, a_dtype = np_int32, a_shape = [2], a_data = [1, - 2147483648]\<rparr>
       \<in> set (trace (snd (run_sequential_tasks (tiny_env (Completes [(2, [5, 6])])) tiny_self
                           ''feature_extractor'' (InList [wide_x, scalar_s]) tiny_world)))
   \<and> fst (inference_tensorrt (tiny_env (Completes [(2, [5, 6])])) tiny_self
            ''feature_extractor'' (InList [wide_x, scalar_s]) tiny_world) =
     Inr (PyList [PyArray \<lparr>ctypes_data = 104, a_dtype = np_float32, a_shape = [2],
                            a_data = [5, 6]\<rparr>])"
proof (rule conjI)
  show "fst (check_input_validity i a b w) \<noteq> Inl (TypeError (CannotSafelyCast j d d'))"
    by (simp add: check_input_validity_result)
qed (simp add: run_defs tiny_defs wide_x_def)

text \<open>
  C2. The spec has a validation error at any input position raised before any copy to
  the device. \<^verbatim>\<open>run_sequential_tasks\<close> validates and copies one input at a time: with a
  valid first input and a second input of the wrong shape it raises the shape error of
  input 1 after the first input has overwritten the device buffer of \<open>x\<close>.
  \<^verbatim>\<open>inference_tensorrt\<close>, which validates every input before it calls
  \<^verbatim>\<open>run_sequential_tasks\<close>, raises the same error with no copy and no device buffer
  changed.
\<close>

theorem C2_first_input_copied_before_second_is_rejected:
  "fst (run_sequential_tasks (tiny_env out) tiny_self ''feature_extractor''
          (InList [good_x, long_s]) tiny_world) = Inl (ValueError (WrongShape 1 [1] [3]))
   \<and> trace (snd (run_sequential_tasks (tiny_env out) tiny_self ''feature_extractor''
          (InList [good_x, long_s]) tiny_world)) = trace tiny_world @ [Ev_memcpy_htod 0 good_x]
   \<and> device tiny_world 0 = Some \<lparr>nbytes = 8, contents = []\<rparr>
   \<and> device (snd (run_sequential_tasks (tiny_env out) tiny_self ''feature_extractor''
          (InList [good_x, long_s]) tiny_world)) 0 = Some \<lparr>nbytes = 8, contents = [3, 4]\<rparr>
   \<and> fst (inference_tensorrt (tiny_env out) tiny_self ''feature_extractor''
          (InList [good_x, long_s]) tiny_world) = Inl (ValueError (WrongShape 1 [1] [3]))
   \<and> trace (snd (inference_tensorrt (tiny_env out) tiny_self ''feature_extractor''
          (InList [good_x, long_s]) tiny_world)) = trace tiny_world
   \<and> device (snd (inference_tensorrt (tiny_env out) tiny_self ''feature_extractor''
          (InList [good_x, long_s]) tiny_world)) = device tiny_world"
  by (simp add: run_defs tiny_defs)

text \<open>
  C3. The spec has, after construction, a host buffer and a device buffer allocated for
  every tensor of every supported model. The constructor allocates the device buffers only
  (line 100 and \<^verbatim>\<open>prepare_buffers\<close> read \<^verbatim>\<open>device_buffer\<close>, nothing reads
  \<^verbatim>\<open>host_buffer\<close>). What holds: after a successful construction, and after any number of
  calls to \<^verbatim>\<open>run_sequential_tasks\<close>, every supported model has one binding per tensor,
  each with a device buffer of volume times element size bytes and with no host buffer;
  the calls add no binding, no device buffer and no page-locked block.
\<close>

theorem C3_device_buffers_eager_host_buffers_lazy:
  assumes "TensorRTEngine_init en half kwargs w0 = (Inr self, w)"
    and "n \<in> fst ` set (model_keys half)"
    and "w' = run_calls en' self calls w"
  shows "\<exists>e bs. engines self n = Some e \<and> bindings self n = Some bs \<and>
           length bs = num_io_tensors e \<and>
           inputs self n = Some (filter (\<lambda>r. is_input (heap w' ! r)) bs) \<and>
           outputs self n = Some (filter (\<lambda>r. \<not> is_input (heap w' ! r)) bs) \<and>
           (\<forall>i<length bs.
              describes e i (heap w' ! (bs ! i)) \<and>
              (\<exists>p buf. device_buf (heap w' ! (bs ! i)) = Some p \<and> device w' p = Some buf \<and>
                 nbytes buf =
                   volume (shape (heap w' ! (bs ! i))) * itemsize (dtype (heap w' ! (bs ! i)))) \<and>
              host_buf (heap w' ! (bs ! i)) = None) \<and>
           heap w' = heap w \<and> dom (device w') = dom (device w) \<and> pinned w' = pinned w \<and>
           next_device_ptr w' = next_device_ptr w"
proof -
  note i = TensorRTEngine_init_wf [OF assms(1)]
  from i(3) assms(2) obtain e where e: "engines self n = Some e" by blast
  have sb: "same_buffers w w'"
    unfolding assms(3) by (rule run_calls_same_buffers [OF i(1)])
  then have h: "heap w' = heap w" by (simp add: same_buffers_def)
  from wf_modelD [OF wf_same_buffers [OF sb i(1)] e] obtain ctx bs addrs where
    mf: "model_facts self w' n e ctx bs addrs" by blast
  then have b: "bindings self n = Some bs" "length bs = length e" by (simp_all add: model_facts_def)
  have hb: "\<forall>i<length bs. host_buf (heap w' ! (bs ! i)) = None"
    using i(2) e b(1) h by (auto simp: lazy_hosts_def)
  have al: "\<forall>i<length bs. describes e i (heap w' ! (bs ! i)) \<and>
              (\<exists>p buf. device_buf (heap w' ! (bs ! i)) = Some p \<and> device w' p = Some buf \<and>
                 nbytes buf =
                   volume (shape (heap w' ! (bs ! i))) * itemsize (dtype (heap w' ! (bs ! i))))"
    using mf by (auto simp: model_facts_def allocated_def)
  show ?thesis
    apply (rule exI [of _ e], rule exI [of _ bs])
    using e b hb al mf sb same_buffers_dom [OF sb]
    by (simp add: model_facts_def num_io_tensors_def same_buffers_def)
qed

text \<open>
  The theorem at the small installation, for the feature extractor after a call for the
  feature extractor and a call for the generator, which have taken two host addresses
  for the arrays they return.
\<close>

theorem C3_witness:
  "TensorRTEngine_init (tiny_env (Completes [(2, [5, 6])])) False tiny_cfg fresh_world =
     (Inr tiny_self, tiny_world)
   \<and> ''feature_extractor'' \<in> fst ` set (model_keys False)
   \<and> next_host_ptr
       (run_calls (tiny_env (Completes [(2, [5, 6])])) tiny_self
          [(''feature_extractor'', InList [good_x, scalar_s]), (''generator'', InList [])]
          tiny_world) = 102
   \<and> (\<exists>e bs. engines tiny_self ''feature_extractor'' = Some e \<and>
           bindings tiny_self ''feature_extractor'' = Some bs \<and>
           length bs = num_io_tensors e \<and>
           (\<forall>i<length bs.
              (\<exists>p buf.
                 device_buf
                   (heap (run_calls (tiny_env (Completes [(2, [5, 6])])) tiny_self
                      [(''feature_extractor'', InList [good_x, scalar_s]),
                       (''generator'', InList [])] tiny_world) ! (bs ! i)) = Some p \<and>
                 device (run_calls (tiny_env (Completes [(2, [5, 6])])) tiny_self
                      [(''feature_extractor'', InList [good_x, scalar_s]),
                       (''generator'', InList [])] tiny_world) p = Some buf \<and>
                 nbytes buf =
                   volume (shape
                     (heap (run_calls (tiny_env (Completes [(2, [5, 6])])) tiny_self
                        [(''feature_extractor'', InList [good_x, scalar_s]),
                         (''generator'', InList [])] tiny_world) ! (bs ! i))) *
                   itemsize (dtype
                     (heap (run_calls (tiny_env (Completes [(2, [5, 6])])) tiny_self
                        [(''feature_extractor'', InList [good_x, scalar_s]),
                         (''generator'', InList [])] tiny_world) ! (bs ! i)))) \<and>
              host_buf
                (heap (run_calls (tiny_env (Completes [(2, [5, 6])])) tiny_self
                   [(''feature_extractor'', InList [good_x, scalar_s]),
                    (''generator'', InList [])] tiny_world) ! (bs ! i)) = None))
   \<and> heap (run_calls (tiny_env (Completes [(2, [5, 6])])) tiny_self
        [(''feature_extractor'', InList [good_x, scalar_s]), (''generator'', InList [])]
        tiny_world) = heap tiny_world
   \<and> dom (device (run_calls (tiny_env (Completes [(2, [5, 6])])) tiny_self
        [(''feature_extractor'', InList [good_x, scalar_s]), (''generator'', InList [])]
        tiny_world)) = dom (device tiny_world)
   \<and> pinned (run_calls (tiny_env (Completes [(2, [5, 6])])) tiny_self
        [(''feature_extractor'', InList [good_x, scalar_s]), (''generator'', InList [])]
        tiny_world) = pinned tiny_world"
proof -
  define w' where "w' = run_calls (tiny_env (Completes [(2, [5, 6])])) tiny_self
        [(''feature_extractor'', InList [good_x, scalar_s]), (''generator'', InList [])]
        tiny_world"
  have m: "''feature_extractor'' \<in> fst ` set (model_keys False)" by (simp add: model_keys_def)
  have n: "next_host_ptr w' = 102"
    unfolding w'_def by (simp add: run_defs tiny_defs)
  from C3_device_buffers_eager_host_buffers_lazy
    [OF tiny_init [of "Completes [(2, [5, 6])]"] m w'_def]
  have "(\<exists>e bs. engines tiny_self ''feature_extractor'' = Some e \<and>
           bindings tiny_self ''feature_extractor'' = Some bs \<and>
           length bs = num_io_tensors e \<and>
           (\<forall>i<length bs.
              (\<exists>p buf. device_buf (heap w' ! (bs ! i)) = Some p \<and>
                 device w' p = Some buf \<and>
                 nbytes buf = volume (shape (heap w' ! (bs ! i))) *
                   itemsize (dtype (heap w' ! (bs ! i)))) \<and>
              host_buf (heap w' ! (bs ! i)) = None))
   \<and> heap w' = heap tiny_world \<and> dom (device w') = dom (device tiny_world)
   \<and> pinned w' = pinned tiny_world"
    by auto
  with tiny_init [of "Completes [(2, [5, 6])]"] m n
  have "TensorRTEngine_init (tiny_env (Completes [(2, [5, 6])])) False tiny_cfg fresh_world =
     (Inr tiny_self, tiny_world)
   \<and> ''feature_extractor'' \<in> fst ` set (model_keys False)
   \<and> next_host_ptr w' = 102
   \<and> (\<exists>e bs. engines tiny_self ''feature_extractor'' = Some e \<and>
           bindings tiny_self ''feature_extractor'' = Some bs \<and>
           length bs = num_io_tensors e \<and>
           (\<forall>i<length bs.
              (\<exists>p buf. device_buf (heap w' ! (bs ! i)) = Some p \<and>
                 device w' p = Some buf \<and>
                 nbytes buf = volume (shape (heap w' ! (bs ! i))) *
                   itemsize (dtype (heap w' ! (bs ! i)))) \<and>
              host_buf (heap w' ! (bs ! i)) = None))
   \<and> heap w' = heap tiny_world \<and> dom (device w') = dom (device tiny_world)
   \<and> pinned w' = pinned tiny_world"
    by (intro conjI) blast+
  then show ?thesis unfolding w'_def .
qed

text \<open>
  Against C3 as stated: the small installation is what the constructor returns, and
  the three bindings of its feature extractor have a device buffer and no host buffer; no
  page-locked allocation is in the trace.
\<close>

theorem C3_counterexample:
  "TensorRTEngine_init (tiny_env (Completes [])) False tiny_cfg fresh_world =
     (Inr tiny_self, tiny_world)
   \<and> inputs tiny_self ''feature_extractor'' = Some [0, 1]
   \<and> outputs tiny_self ''feature_extractor'' = Some [2]
   \<and> host_buf (heap tiny_world ! 0) = None
   \<and> host_buf (heap tiny_world ! 1) = None
   \<and> host_buf (heap tiny_world ! 2) = None
   \<and> device_buf (heap tiny_world ! 0) = Some 0
   \<and> list_all (\<lambda>ev. case ev of Ev_pagelocked_empty p k \<Rightarrow> False | _ \<Rightarrow> True) (trace tiny_world)"
  using tiny_init [of "Completes []"] by (simp add: tiny_self_def tiny_world_def)

text \<open>
  C4. \<^verbatim>\<open>check_input_validity\<close> raises the shape error exactly when the shapes differ
  and the pair is not a 0-dimensional array for the declared shape \<open>(1,)\<close>. For
  \<^verbatim>\<open>run_sequential_tasks\<close> on a well-formed manager, with \<open>xs\<close> the arrays the call
  supplies (the list, or the dictionary's arrays in binding order): an input whose shape
  is wrong makes the call raise a \<^verbatim>\<open>ValueError\<close> or a \<^verbatim>\<open>TypeError\<close>; it is the shape error
  of that input when the count matches and every earlier input passes; and a call whose
  inputs all have the declared type and either the declared shape or the scalar-for-unit
  pairing raises nothing.
\<close>

theorem C4_shape_mismatch_rejected_except_scalar_for_unit:
  assumes "wf self w" and "engines self n = Some e" and "inputs self n = Some insb"
    and "as_list ins (map (\<lambda>r. heap w ! r) insb) = Inr xs"
  shows "(\<forall>i a b w0.
            (fst (check_input_validity i a b w0) = Inl (ValueError (WrongShape i (shape b) (a_shape a))))
            = (a_shape a \<noteq> shape b \<and> \<not> (shape b = [1] \<and> a_shape a = [])))
       \<and> (\<forall>k. k < length xs \<and> k < length insb \<and>
               a_shape (xs ! k) \<noteq> shape (heap w ! (insb ! k)) \<and>
               \<not> (shape (heap w ! (insb ! k)) = [1] \<and> a_shape (xs ! k) = []) \<longrightarrow>
               (\<exists>m. fst (run_sequential_tasks en self n ins w) = Inl (ValueError m) \<or>
                    fst (run_sequential_tasks en self n ins w) = Inl (TypeError m)))
       \<and> (\<forall>k. length xs = length insb \<and> k < length xs \<and>
               (\<forall>j<k. \<exists>a'. fst (check_input_validity j (xs ! j) (heap w ! (insb ! j)) w) = Inr a') \<and>
               a_shape (xs ! k) \<noteq> shape (heap w ! (insb ! k)) \<and>
               \<not> (shape (heap w ! (insb ! k)) = [1] \<and> a_shape (xs ! k) = []) \<longrightarrow>
               fst (run_sequential_tasks en self n ins w) =
                 Inl (ValueError (WrongShape k (shape (heap w ! (insb ! k))) (a_shape (xs ! k)))))
       \<and> (length xs = length insb \<and>
            (\<forall>k<length xs.
               (a_shape (xs ! k) = shape (heap w ! (insb ! k)) \<or>
                shape (heap w ! (insb ! k)) = [1] \<and> a_shape (xs ! k) = []) \<and>
               a_dtype (xs ! k) = dtype (heap w ! (insb ! k))) \<longrightarrow>
            (\<exists>v. fst (run_sequential_tasks en self n ins w) = Inr v))"
proof (intro conjI allI impI)
  fix i a b w0
  show "(fst (check_input_validity i a b w0) = Inl (ValueError (WrongShape i (shape b) (a_shape a))))
            = (a_shape a \<noteq> shape b \<and> \<not> (shape b = [1] \<and> a_shape a = []))"
    by (auto simp: check_input_validity_result)
next
  fix k
  assume a: "k < length xs \<and> k < length insb \<and>
               a_shape (xs ! k) \<noteq> shape (heap w ! (insb ! k)) \<and>
               \<not> (shape (heap w ! (insb ! k)) = [1] \<and> a_shape (xs ! k) = [])"
  then have "\<not> acceptable (xs ! k) (heap w ! (insb ! k))" by (auto simp: acceptable_def)
  with run_rejects_some [OF assms, of k en] a
  show "\<exists>m. fst (run_sequential_tasks en self n ins w) = Inl (ValueError m) \<or>
            fst (run_sequential_tasks en self n ins w) = Inl (TypeError m)" by blast
next
  fix k
  assume a: "length xs = length insb \<and> k < length xs \<and>
               (\<forall>j<k. \<exists>a'. fst (check_input_validity j (xs ! j) (heap w ! (insb ! j)) w) = Inr a') \<and>
               a_shape (xs ! k) \<noteq> shape (heap w ! (insb ! k)) \<and>
               \<not> (shape (heap w ! (insb ! k)) = [1] \<and> a_shape (xs ! k) = [])"
  then have bad: "\<not> acceptable (xs ! k) (heap w ! (insb ! k))" by (auto simp: acceptable_def)
  from a have before: "\<forall>j<k. acceptable (xs ! j) (heap w ! (insb ! j))"
    using check_input_validity_accepts by blast
  from run_rejects_first [OF assms _ _ before bad, of en] a
  show "fst (run_sequential_tasks en self n ins w) =
          Inl (ValueError (WrongShape k (shape (heap w ! (insb ! k))) (a_shape (xs ! k))))"
    by (simp add: rejection_def)
next
  assume a: "length xs = length insb \<and>
            (\<forall>k<length xs.
               (a_shape (xs ! k) = shape (heap w ! (insb ! k)) \<or>
                shape (heap w ! (insb ! k)) = [1] \<and> a_shape (xs ! k) = []) \<and>
               a_dtype (xs ! k) = dtype (heap w ! (insb ! k)))"
  then have "\<forall>k<length xs. acceptable (xs ! k) (heap w ! (insb ! k))"
    by (simp add: acceptable_def)
  from run_accepts [OF assms _ this, of en] a
  show "\<exists>v. fst (run_sequential_tasks en self n ins w) = Inr v" by simp
qed

text \<open>
  The theorem at the small installation: a second input of shape \<open>(3,)\<close> where
  \<open>(1,)\<close> is declared is rejected, a 0-dimensional second input is accepted.
\<close>

theorem C4_witness:
  "wf tiny_self tiny_world
   \<and> engines tiny_self ''feature_extractor'' = Some tiny_engine
   \<and> inputs tiny_self ''feature_extractor'' = Some [0, 1]
   \<and> as_list (InList [good_x, long_s]) (map (\<lambda>r. heap tiny_world ! r) [0, 1]) =
       Inr [good_x, long_s]
   \<and> a_shape ([good_x, long_s] ! 1) \<noteq> shape (heap tiny_world ! ([0, 1] ! 1))
   \<and> fst (run_sequential_tasks (tiny_env (Completes [])) tiny_self ''feature_extractor''
            (InList [good_x, long_s]) tiny_world) = Inl (ValueError (WrongShape 1 [1] [3]))
   \<and> (\<exists>v. fst (run_sequential_tasks (tiny_env (Completes [])) tiny_self ''feature_extractor''
            (InList [good_x, scalar_s]) tiny_world) = Inr v)"
proof -
  have e: "engines tiny_self ''feature_extractor'' = Some tiny_engine"
    and i: "inputs tiny_self ''feature_extractor'' = Some [0, 1]"
    by (simp_all add: tiny_self_def)
  have a1: "as_list (InList [good_x, long_s]) (map (\<lambda>r. heap tiny_world ! r) [0, 1]) =
       Inr [good_x, long_s]"
    and a2: "as_list (InList [good_x, scalar_s]) (map (\<lambda>r. heap tiny_world ! r) [0, 1]) =
       Inr [good_x, scalar_s]"
    by (simp_all add: as_list_def)
  have two: "\<And>P. (\<forall>k<Suc (Suc 0). P k) = (P 0 \<and> P (Suc 0))"
    by (auto simp: less_Suc_eq)
  note t1 = C4_shape_mismatch_rejected_except_scalar_for_unit
    [OF tiny_wf e i a1, of "tiny_env (Completes [])"]
  note t2 = C4_shape_mismatch_rejected_except_scalar_for_unit
    [OF tiny_wf e i a2, of "tiny_env (Completes [])"]
  have bad: "a_shape ([good_x, long_s] ! 1) \<noteq> shape (heap tiny_world ! ([0, 1] ! 1))"
    by (simp add: tiny_defs)
  have r1: "fst (run_sequential_tasks (tiny_env (Completes [])) tiny_self ''feature_extractor''
            (InList [good_x, long_s]) tiny_world) = Inl (ValueError (WrongShape 1 [1] [3]))"
    using t1 [THEN conjunct2, THEN conjunct2, THEN conjunct1, THEN spec, of 1]
    by (simp add: tiny_defs check_input_validity_def)
  have r2: "\<exists>v. fst (run_sequential_tasks (tiny_env (Completes [])) tiny_self ''feature_extractor''
            (InList [good_x, scalar_s]) tiny_world) = Inr v"
    using t2 [THEN conjunct2, THEN conjunct2, THEN conjunct2]
    by (simp add: tiny_defs two)
  show ?thesis using tiny_wf e i a1 bad r1 r2 by blast
qed

text \<open>
  C5. For a name that is not a key of \<^verbatim>\<open>self.engines\<close>,
  \<^verbatim>\<open>run_sequential_tasks\<close> raises the \<^verbatim>\<open>ValueError\<close> of line 133 and
  \<^verbatim>\<open>inference_tensorrt\<close>, given a list, that of line 177; whatever its inputs,
  \<^verbatim>\<open>inference_tensorrt\<close> raises. In each case the world is left as it was: nothing is
  allocated and no library call is made.
\<close>

theorem C5_unknown_model_is_refused_without_effect:
  assumes "wf self w" and "engines self n = None"
  shows "run_sequential_tasks en self n ins w = (Inl (ValueError (ModelNotFound n)), w)
       \<and> inference_tensorrt en self n (InList xs) w = (Inl (ValueError (TaskNotFound n)), w)
       \<and> (\<exists>err. inference_tensorrt en self n ins w = (Inl err, w))"
  using run_unknown_model [OF assms(2)] infer_unknown_task [OF wf_inputs_None [OF assms]]
  by (cases ins) simp_all

text \<open>
  The theorem at the small installation, for a model name it does not have.
\<close>

theorem C5_witness:
  "wf tiny_self tiny_world
   \<and> engines tiny_self ''head_pose'' = None
   \<and> run_sequential_tasks (tiny_env (Completes [])) tiny_self ''head_pose'' (InList [good_x])
        tiny_world = (Inl (ValueError (ModelNotFound ''head_pose'')), tiny_world)
   \<and> inference_tensorrt (tiny_env (Completes [])) tiny_self ''head_pose'' (InList [good_x])
        tiny_world = (Inl (ValueError (TaskNotFound ''head_pose'')), tiny_world)"
proof -
  have n: "engines tiny_self ''head_pose'' = None" by (simp add: tiny_self_def)
  from C5_unknown_model_is_refused_without_effect
    [OF tiny_wf n, of "tiny_env (Completes [])" "InList [good_x]" "[good_x]"]
  show ?thesis using tiny_wf n by simp
qed




text \<open>
  C7. On a well-formed manager, a call that returns and does not return the failure pair
  returns a list with one array per output binding, in the order of \<^verbatim>\<open>self.outputs\<close>,
  which is the engine's order of its tensors that are not inputs. Each array has the shape
  and type of its binding and the contents that the binding's device buffer has after the
  call, copied by a \<^verbatim>\<open>memcpy_dtoh\<close> of the trace. Its data address was handed out during
  the call: it is not below the allocator's mark before the call, the addresses of the
  list are distinct, and none is a page-locked block or the host buffer of any binding.
\<close>

theorem C7_outputs_fresh_in_declared_order:
  assumes wf: "wf self w" and hb: "hosts_below w"
    and run: "run_sequential_tasks en self n ins w = (Inr v, w')"
    and ok: "v \<noteq> PyTuple [PyNone, PyInt 0]"
  shows "\<exists>e bs outs arrays.
      engines self n = Some e \<and> bindings self n = Some bs \<and> outputs self n = Some outs \<and>
      outs = filter (\<lambda>r. \<not> is_input (heap w ! r)) bs \<and>
      v = PyList (map PyArray arrays) \<and> length arrays = length outs \<and>
      (\<forall>k<length outs.
          a_shape (arrays ! k) = shape (heap w ! (outs ! k)) \<and>
          a_dtype (arrays ! k) = dtype (heap w ! (outs ! k)) \<and>
          (\<exists>p buf. device_buf (heap w ! (outs ! k)) = Some p \<and> device w' p = Some buf \<and>
             a_data (arrays ! k) = contents buf \<and>
             Ev_memcpy_dtoh (ctypes_data (arrays ! k)) p \<in> set (trace w')) \<and>
          next_host_ptr w \<le> ctypes_data (arrays ! k) \<and>
          ctypes_data (arrays ! k) < next_host_ptr w' \<and>
          pinned w' (ctypes_data (arrays ! k)) = None \<and>
          list_all (\<lambda>b. host_buf b \<noteq> Some (ctypes_data (arrays ! k))) (heap w')) \<and>
      distinct (map ctypes_data arrays) \<and>
      map (\<lambda>a. (a_shape a, Some (a_dtype a))) arrays =
        map (\<lambda>i. (get_tensor_shape e (get_tensor_name e i),
                   dtype_map (get_tensor_dtype e (get_tensor_name e i))))
          (filter (\<lambda>i. get_tensor_mode e (get_tensor_name e i) \<noteq> INPUT) [0 ..< num_io_tensors e])"
proof -
  from run_list_completes [OF run ok] obtain e ctx outs w2 ws where
    v: "validate_and_bind en self n ins w = (Inr (e, ctx, outs), w2)"
    and ex: "execute en e (tables w2 ! ctx) (device w2) = Completes ws"
    by blast
  from run_outputs [OF wf v ex] run obtain w3 where
    val: "v = PyList (map PyArray
              (map (fetched w3) (zip [next_host_ptr w3 ..< next_host_ptr w3 + length outs] outs)))"
    and sb3: "same_buffers w w3" and sb': "same_buffers w w'" and dv: "device w' = device w3"
    and nh': "next_host_ptr w' = next_host_ptr w3 + length outs"
    and al: "\<forall>r\<in>set outs. allocated w3 r"
    and tr: "trace w' = trace w3 @
             map (\<lambda>(h, r). Ev_memcpy_dtoh h (the (device_buf (heap w3 ! r))))
               (zip [next_host_ptr w3 ..< next_host_ptr w3 + length outs] outs)"
    by auto
  define h where "h = next_host_ptr w3"
  define arrays where "arrays = map (fetched w3) (zip [h ..< h + length outs] outs)"
  have h3: "heap w3 = heap w" and hw': "heap w' = heap w" and pw': "pinned w' = pinned w"
    and hle: "next_host_ptr w \<le> h"
    using sb3 sb' by (simp_all add: same_buffers_def h_def)
  from validate_and_bind_Inr [OF v]
  have e: "engines self n = Some e" and o: "outputs self n = Some outs" by simp_all
  from wf_modelD [OF wf e] obtain ctx' bs addrs where
    mf: "model_facts self w n e ctx' bs addrs" by blast
  then have b: "bindings self n = Some bs" "length bs = length e"
    and outs: "outs = filter (\<lambda>r. \<not> is_input (heap w ! r)) bs"
    and ds: "\<forall>i<length e. describes e i (heap w ! (bs ! i))"
    using o by (simp_all add: model_facts_def)
  have la: "length arrays = length outs" by (simp add: arrays_def)
  have item: "a_shape (arrays ! k) = shape (heap w ! (outs ! k)) \<and>
          a_dtype (arrays ! k) = dtype (heap w ! (outs ! k)) \<and>
          (\<exists>p buf. device_buf (heap w ! (outs ! k)) = Some p \<and> device w' p = Some buf \<and>
             a_data (arrays ! k) = contents buf \<and>
             Ev_memcpy_dtoh (ctypes_data (arrays ! k)) p \<in> set (trace w')) \<and>
          next_host_ptr w \<le> ctypes_data (arrays ! k) \<and>
          ctypes_data (arrays ! k) < next_host_ptr w' \<and>
          pinned w' (ctypes_data (arrays ! k)) = None \<and>
          list_all (\<lambda>b. host_buf b \<noteq> Some (ctypes_data (arrays ! k))) (heap w')"
    if k: "k < length outs" for k
  proof -
    have ak: "arrays ! k = fetched w3 (h + k, outs ! k)"
      unfolding arrays_def using fetched_nth [OF k] .
    from al k have "allocated w3 (outs ! k)" by simp
    then obtain p buf where
      pb: "device_buf (heap w ! (outs ! k)) = Some p" "device w3 p = Some buf"
      by (auto simp: allocated_def h3)
    have "(h + k, outs ! k) \<in> set (zip [h ..< h + length outs] outs)"
      using k by (auto simp: in_set_zip intro!: exI [of _ k])
    then have ev: "Ev_memcpy_dtoh (h + k) p \<in> set (trace w')"
      using pb(1) by (force simp: tr h_def [symmetric] h3)
    have below: "\<not> h + k < next_host_ptr w" using hle by simp
    have pin: "pinned w' (h + k) = None"
      using hb below unfolding hosts_below_def pw' by blast
    have hosts: "list_all (\<lambda>b. host_buf b \<noteq> Some (h + k)) (heap w')"
      unfolding hw' list_all_iff
    proof
      fix b assume "b \<in> set (heap w)"
      with hb have "\<forall>q. host_buf b = Some q \<longrightarrow> q < next_host_ptr w"
        by (simp add: hosts_below_def)
      with below show "host_buf b \<noteq> Some (h + k)" by auto
    qed
    show ?thesis
      unfolding ak
      using pb ev pin hosts hle k
      by (simp add: fetched_def h3 dv nh' h_def [symmetric])
  qed
  have dist: "distinct (map ctypes_data arrays)"
    unfolding arrays_def fetched_ptrs by simp
  have "map (\<lambda>a. (a_shape a, Some (a_dtype a))) arrays =
        map (\<lambda>r. (shape (heap w ! r), Some (dtype (heap w ! r)))) outs"
    by (rule nth_equalityI) (simp_all add: arrays_def fetched_def h3)
  also have "\<dots> = map (\<lambda>i. (get_tensor_shape e (get_tensor_name e i),
                   dtype_map (get_tensor_dtype e (get_tensor_name e i))))
          (filter (\<lambda>i. get_tensor_mode e (get_tensor_name e i) \<noteq> INPUT) [0 ..< num_io_tensors e])"
    unfolding outs num_io_tensors_def by (rule outputs_in_engine_order [OF b(2) ds])
  finally have order: "map (\<lambda>a. (a_shape a, Some (a_dtype a))) arrays =
        map (\<lambda>i. (get_tensor_shape e (get_tensor_name e i),
                   dtype_map (get_tensor_dtype e (get_tensor_name e i))))
          (filter (\<lambda>i. get_tensor_mode e (get_tensor_name e i) \<noteq> INPUT) [0 ..< num_io_tensors e])" .
  have val': "v = PyList (map PyArray arrays)" using val by (simp add: arrays_def h_def)
  from item have item': "\<forall>k<length outs.
          a_shape (arrays ! k) = shape (heap w ! (outs ! k)) \<and>
          a_dtype (arrays ! k) = dtype (heap w ! (outs ! k)) \<and>
          (\<exists>p buf. device_buf (heap w ! (outs ! k)) = Some p \<and> device w' p = Some buf \<and>
             a_data (arrays ! k) = contents buf \<and>
             Ev_memcpy_dtoh (ctypes_data (arrays ! k)) p \<in> set (trace w')) \<and>
          next_host_ptr w \<le> ctypes_data (arrays ! k) \<and>
          ctypes_data (arrays ! k) < next_host_ptr w' \<and>
          pinned w' (ctypes_data (arrays ! k)) = None \<and>
          list_all (\<lambda>b. host_buf b \<noteq> Some (ctypes_data (arrays ! k))) (heap w')"
    by blast
  show ?thesis
    apply (rule exI [of _ e])
    apply (rule exI [of _ bs])
    apply (rule exI [of _ outs])
    apply (rule exI [of _ arrays])
    apply (intro conjI)
            apply (rule e)
           apply (rule b(1))
          apply (rule o)
         apply (rule outs)
        apply (rule val')
       apply (rule la)
      apply (rule item')
     apply (rule dist)
    apply (rule order)
    done
qed

text \<open>
  The theorem at the small installation, with a device that writes \<open>[5, 6]\<close> to
  the output buffer.
\<close>

theorem C7_witness:
  "wf tiny_self tiny_world \<and> hosts_below tiny_world
   \<and> run_sequential_tasks (tiny_env (Completes [(2, [5, 6])])) tiny_self ''feature_extractor''
        (InList [good_x, scalar_s]) tiny_world =
      (Inr (PyList [PyArray \<lparr>ctypes_data = 100, a_dtype = np_float32, a_shape = [2],
                             a_data = [5, 6]\<rparr>]),
       snd (run_sequential_tasks (tiny_env (Completes [(2, [5, 6])])) tiny_self
              ''feature_extractor'' (InList [good_x, scalar_s]) tiny_world))
   \<and> PyList [PyArray \<lparr>ctypes_data = 100, a_dtype = np_float32, a_shape = [2],
                        a_data = [5, 6]\<rparr>] \<noteq> PyTuple [PyNone, PyInt 0]
   \<and> (\<exists>e bs outs arrays.
        engines tiny_self ''feature_extractor'' = Some e \<and>
        bindings tiny_self ''feature_extractor'' = Some bs \<and>
        outputs tiny_self ''feature_extractor'' = Some outs \<and>
        PyList [PyArray \<lparr>ctypes_data = 100, a_dtype = np_float32, a_shape = [2],
                          a_data = [5, 6]\<rparr>] = PyList (map PyArray arrays) \<and>
        length arrays = length outs \<and>
        distinct (map ctypes_data arrays) \<and>
        map (\<lambda>a. (a_shape a, Some (a_dtype a))) arrays =
          map (\<lambda>i. (get_tensor_shape e (get_tensor_name e i),
                     dtype_map (get_tensor_dtype e (get_tensor_name e i))))
            (filter (\<lambda>i. get_tensor_mode e (get_tensor_name e i) \<noteq> INPUT)
               [0 ..< num_io_tensors e]))"
proof -
  have ne: "PyList [PyArray \<lparr>ctypes_data = 100, a_dtype = np_float32, a_shape = [2],
                        a_data = [5, 6]\<rparr>] \<noteq> PyTuple [PyNone, PyInt 0]" by simp
  from C7_outputs_fresh_in_declared_order [OF tiny_wf tiny_hosts_below tiny_run_ok ne]
  have "\<exists>e bs outs arrays.
        engines tiny_self ''feature_extractor'' = Some e \<and>
        bindings tiny_self ''feature_extractor'' = Some bs \<and>
        outputs tiny_self ''feature_extractor'' = Some outs \<and>
        PyList [PyArray \<lparr>ctypes_data = 100, a_dtype = np_float32, a_shape = [2],
                          a_data = [5, 6]\<rparr>] = PyList (map PyArray arrays) \<and>
        length arrays = length outs \<and>
        distinct (map ctypes_data arrays) \<and>
        map (\<lambda>a. (a_shape a, Some (a_dtype a))) arrays =
          map (\<lambda>i. (get_tensor_shape e (get_tensor_name e i),
                     dtype_map (get_tensor_dtype e (get_tensor_name e i))))
            (filter (\<lambda>i. get_tensor_mode e (get_tensor_name e i) \<noteq> INPUT)
               [0 ..< num_io_tensors e])"
    apply (elim exE conjE)
    subgoal for e bs outs arrays
      apply (rule exI [of _ e], rule exI [of _ bs], rule exI [of _ outs], rule exI [of _ arrays])
      apply (intro conjI; assumption)
      done
    done
  with tiny_wf tiny_hosts_below tiny_run_ok ne show ?thesis
    by (intro conjI)
qed

text \<open>
  C8. The spec has every shape-inference input tensor bound to the data address of the
  array supplied for it, and every other tensor to the device buffer of its descriptor.
  Lines 150 to 155 take a tensor for an input when its index is below the number of
  inputs, and take \<^verbatim>\<open>inputs[i]\<close> for its array, where line 16 asks
  \<^verbatim>\<open>get_tensor_mode\<close> and line 101 collects the inputs wherever they stand. The two
  agree only for an engine that lists its inputs first (lemma
  \<open>address_table_when_inputs_first\<close>). For the engine that lists the output \<open>y\<close> before
  the shape-inference input \<open>s\<close>, the constructor and the validation succeed and the
  address table binds \<open>s\<close> to its device buffer, address 1, and not to the address 11 of
  the supplied array; with the inputs first the same array is bound at its address 11.
\<close>

theorem C8_input_listed_after_output_is_misbound:
  "TensorRTEngine_init (swapped_env out) False tiny_cfg fresh_world =
     (Inr swapped_self, swapped_world)
   \<and> engines swapped_self ''feature_extractor'' = Some swapped_engine
   \<and> get_tensor_name swapped_engine 1 = ''s''
   \<and> get_tensor_mode swapped_engine ''s'' = INPUT
   \<and> is_shape_inference_io swapped_engine ''s''
   \<and> fst (validate_and_bind (swapped_env out) swapped_self ''feature_extractor''
             (InList [scalar_s]) swapped_world) = Inr (swapped_engine, 0, [0])
   \<and> ctypes_data scalar_s = 11
   \<and> device_buf (heap swapped_world ! 1) = Some 1
   \<and> (tables (snd (validate_and_bind (swapped_env out) swapped_self ''feature_extractor''
                      (InList [scalar_s]) swapped_world)) ! 0) ''s'' = Some 1
   \<and> (tables (snd (validate_and_bind (swapped_env out) swapped_self ''feature_extractor''
                      (InList [scalar_s]) swapped_world)) ! 0) ''y'' = Some 0
   \<and> (tables (snd (validate_and_bind (tiny_env out) tiny_self ''feature_extractor''
                      (InList [good_x, scalar_s]) tiny_world)) ! 0) ''s'' = Some 11"
proof -
  have a: "engines swapped_self ''feature_extractor'' = Some swapped_engine
   \<and> get_tensor_name swapped_engine 1 = ''s''
   \<and> get_tensor_mode swapped_engine ''s'' = INPUT
   \<and> is_shape_inference_io swapped_engine ''s''
   \<and> ctypes_data scalar_s = 11
   \<and> device_buf (heap swapped_world ! 1) = Some 1"
    by (simp add: swapped_defs get_tensor_name_def get_tensor_mode_def get_tensor_def
          is_shape_inference_io_def)
  have b: "fst (validate_and_bind (swapped_env out) swapped_self ''feature_extractor''
             (InList [scalar_s]) swapped_world) = Inr (swapped_engine, 0, [0])
   \<and> (tables (snd (validate_and_bind (swapped_env out) swapped_self ''feature_extractor''
                      (InList [scalar_s]) swapped_world)) ! 0) ''s'' = Some 1
   \<and> (tables (snd (validate_and_bind (swapped_env out) swapped_self ''feature_extractor''
                      (InList [scalar_s]) swapped_world)) ! 0) ''y'' = Some 0"
    by (simp add: run_defs swapped_defs)
  have c: "(tables (snd (validate_and_bind (tiny_env out) tiny_self ''feature_extractor''
                      (InList [good_x, scalar_s]) tiny_world)) ! 0) ''s'' = Some 11"
    by (simp add: run_defs tiny_defs)
  show ?thesis using swapped_init [of out] a b c by simp
qed

text \<open>
  C9. The spec has the plugin loaded and registered once per process. The constructor
  loads it on every call and keeps no record of having done so. What holds: the events
  of a successful construction begin with the load of the plugin named by
  \<^verbatim>\<open>grid_sample_3d\<close> and its registration, and no later event of that construction, so no
  event after any of its deserializations, is a load or a registration.
\<close>

theorem C9_plugin_once_per_construction:
  assumes "TensorRTEngine_init en half kwargs w0 = (Inr self, w)"
  shows "\<exists>pp evs. kwargs ''grid_sample_3d'' = Some pp \<and>
          trace w = trace w0 @ Ev_CDLL pp # Ev_init_libnvinfer_plugins # evs \<and>
          list_all (\<lambda>ev. \<not> plugin_event ev) evs"
proof -
  from TensorRTEngine_init_Inr [OF assms] obtain paths pp where
    pp: "kwargs ''grid_sample_3d'' = Some pp"
    and ie: "initialize_engines en paths (no_manager kwargs paths pp)
             (log Ev_Stream (log Ev_init_libnvinfer_plugins (log (Ev_CDLL pp) w0))) = (Inr self, w)"
    by blast
  define w1 where "w1 = log Ev_Stream (log Ev_init_libnvinfer_plugins (log (Ev_CDLL pp) w0))"
  have "quiet w1 w"
    using initialize_engines_quiet [of w1 en paths "no_manager kwargs paths pp"] ie
    by (simp add: w1_def)
  then obtain evs where "trace w = trace w1 @ evs" "list_all (\<lambda>ev. \<not> plugin_event ev) evs"
    by (auto simp: quiet_def)
  then have "trace w = trace w0 @ Ev_CDLL pp # Ev_init_libnvinfer_plugins # (Ev_Stream # evs)"
    "list_all (\<lambda>ev. \<not> plugin_event ev) (Ev_Stream # evs)"
    by (simp_all add: w1_def log_def plugin_event_def)
  with pp show ?thesis by blast
qed

text \<open>
  The theorem at the small installation.
\<close>

theorem C9_witness:
  "TensorRTEngine_init (tiny_env (Completes [])) False tiny_cfg fresh_world =
     (Inr tiny_self, tiny_world)
   \<and> (\<exists>pp evs. tiny_cfg ''grid_sample_3d'' = Some pp \<and>
          trace tiny_world = trace fresh_world @ Ev_CDLL pp # Ev_init_libnvinfer_plugins # evs \<and>
          list_all (\<lambda>ev. \<not> plugin_event ev) evs)"
  using C9_plugin_once_per_construction [OF tiny_init [of "Completes []"]]
    tiny_init [of "Completes []"] by simp

text \<open>
  Against C9 as stated: two constructions in one process, both successful, register
  the plugin twice, the second time (event 24) after the first manager's engines were
  deserialized (event 3).
\<close>

theorem C9_counterexample:
  "\<not> isl (fst (TensorRTEngine_init (tiny_env (Completes [])) False tiny_cfg fresh_world))
   \<and> \<not> isl (fst (TensorRTEngine_init (tiny_env (Completes [])) False tiny_cfg
                   (snd (TensorRTEngine_init (tiny_env (Completes [])) False tiny_cfg fresh_world))))
   \<and> count_list
        (trace (snd (TensorRTEngine_init (tiny_env (Completes [])) False tiny_cfg
           (snd (TensorRTEngine_init (tiny_env (Completes [])) False tiny_cfg fresh_world)))))
        Ev_init_libnvinfer_plugins = 2
   \<and> trace (snd (TensorRTEngine_init (tiny_env (Completes [])) False tiny_cfg
           (snd (TensorRTEngine_init (tiny_env (Completes [])) False tiny_cfg fresh_world)))) ! 3
       = Ev_deserialize_cuda_engine ''F.trt''
   \<and> trace (snd (TensorRTEngine_init (tiny_env (Completes [])) False tiny_cfg
           (snd (TensorRTEngine_init (tiny_env (Completes [])) False tiny_cfg fresh_world)))) ! 24
       = Ev_init_libnvinfer_plugins"
  unfolding tiny_init
  by (simp add: init_defs tiny_world_def unit_binding_def)

text \<open>
  C10. On a well-formed manager, \<^verbatim>\<open>run_sequential_tasks\<close> returns the pair
  \<open>(None, 0)\<close> exactly when validation passes and \<^verbatim>\<open>execute_async_v3\<close> or
  \<^verbatim>\<open>synchronize\<close> raises. When the execution completes it returns the list of the output
  arrays: one array for each binding of \<^verbatim>\<open>self.outputs[model_name]\<close>, in that order, with
  the shape and type of the binding and the contents that the execution left in the
  device buffer of the binding. It returns nothing else; and the pair, a tuple, differs
  from every list of arrays, the empty one included.
\<close>

theorem C10_failure_pair_exactly_on_execution_failure:
  assumes "wf self w"
  shows "(fst (run_sequential_tasks en self n ins w) = Inr (PyTuple [PyNone, PyInt 0]) \<longleftrightarrow>
          (\<exists>e ctx outs w2 msg.
             validate_and_bind en self n ins w = (Inr (e, ctx, outs), w2) \<and>
             (execute en e (tables w2 ! ctx) (device w2) = Raises_on_submit msg \<or>
              execute en e (tables w2 ! ctx) (device w2) = Raises_on_synchronize msg)))
       \<and> (\<forall>e ctx outs w2 ws.
             validate_and_bind en self n ins w = (Inr (e, ctx, outs), w2) \<longrightarrow>
             execute en e (tables w2 ! ctx) (device w2) = Completes ws \<longrightarrow>
             (\<exists>arrays.
                fst (run_sequential_tasks en self n ins w) = Inr (PyList (map PyArray arrays)) \<and>
                outputs self n = Some outs \<and> length arrays = length outs \<and>
                (\<forall>k<length outs.
                   a_shape (arrays ! k) = shape (heap w ! (outs ! k)) \<and>
                   a_dtype (arrays ! k) = dtype (heap w ! (outs ! k)) \<and>
                   (\<exists>p buf. device_buf (heap w ! (outs ! k)) = Some p \<and>
                      apply_writes ws (device w2) p = Some buf \<and>
                      a_data (arrays ! k) = contents buf))))
       \<and> (\<forall>v. fst (run_sequential_tasks en self n ins w) = Inr v \<longrightarrow>
             v = PyTuple [PyNone, PyInt 0] \<or> (\<exists>arrays. v = PyList (map PyArray arrays)))
       \<and> (\<forall>arrays. PyTuple [PyNone, PyInt 0] \<noteq> PyList (map PyArray arrays))"
proof (intro conjI allI impI)
  show "(fst (run_sequential_tasks en self n ins w) = Inr (PyTuple [PyNone, PyInt 0])) =
          (\<exists>e ctx outs w2 msg.
             validate_and_bind en self n ins w = (Inr (e, ctx, outs), w2) \<and>
             (execute en e (tables w2 ! ctx) (device w2) = Raises_on_submit msg \<or>
              execute en e (tables w2 ! ctx) (device w2) = Raises_on_synchronize msg))"
    by (rule run_pair_iff)
next
  fix e ctx outs w2 ws
  assume "validate_and_bind en self n ins w = (Inr (e, ctx, outs), w2)"
    and "execute en e (tables w2 ! ctx) (device w2) = Completes ws"
  from run_completes_arrays [OF assms this]
  show "\<exists>arrays.
                fst (run_sequential_tasks en self n ins w) = Inr (PyList (map PyArray arrays)) \<and>
                outputs self n = Some outs \<and> length arrays = length outs \<and>
                (\<forall>k<length outs.
                   a_shape (arrays ! k) = shape (heap w ! (outs ! k)) \<and>
                   a_dtype (arrays ! k) = dtype (heap w ! (outs ! k)) \<and>
                   (\<exists>p buf. device_buf (heap w ! (outs ! k)) = Some p \<and>
                      apply_writes ws (device w2) p = Some buf \<and>
                      a_data (arrays ! k) = contents buf))" .
next
  fix v assume "fst (run_sequential_tasks en self n ins w) = Inr v"
  then show "v = PyTuple [PyNone, PyInt 0] \<or> (\<exists>arrays. v = PyList (map PyArray arrays))"
    by (rule run_value)
next
  fix arrays show "PyTuple [PyNone, PyInt 0] \<noteq> PyList (map PyArray arrays)" by simp
qed

text \<open>
  The theorem at the small installation, with a failing device and with a device that
  writes \<open>[5, 6]\<close> to the output buffer.
\<close>

theorem C10_witness:
  "wf tiny_self tiny_world
   \<and> fst (run_sequential_tasks (tiny_env (Raises_on_submit ''device lost'')) tiny_self
            ''feature_extractor'' (InList [good_x, scalar_s]) tiny_world) =
      Inr (PyTuple [PyNone, PyInt 0])
   \<and> (\<exists>e ctx outs w2 msg.
         validate_and_bind (tiny_env (Raises_on_submit ''device lost'')) tiny_self
           ''feature_extractor'' (InList [good_x, scalar_s]) tiny_world = (Inr (e, ctx, outs), w2) \<and>
         (execute (tiny_env (Raises_on_submit ''device lost'')) e (tables w2 ! ctx) (device w2) =
            Raises_on_submit msg \<or>
          execute (tiny_env (Raises_on_submit ''device lost'')) e (tables w2 ! ctx) (device w2) =
            Raises_on_synchronize msg))
   \<and> validate_and_bind (tiny_env (Completes [(2, [5, 6])])) tiny_self ''feature_extractor''
        (InList [good_x, scalar_s]) tiny_world =
      (Inr (tiny_engine, 0, [2]),
       snd (validate_and_bind (tiny_env (Completes [(2, [5, 6])])) tiny_self ''feature_extractor''
              (InList [good_x, scalar_s]) tiny_world))
   \<and> outputs tiny_self ''feature_extractor'' = Some [2]
   \<and> (\<exists>arrays. fst (run_sequential_tasks (tiny_env (Completes [(2, [5, 6])])) tiny_self
                       ''feature_extractor'' (InList [good_x, scalar_s]) tiny_world) =
                 Inr (PyList (map PyArray arrays)) \<and>
               length arrays = 1 \<and> a_shape (arrays ! 0) = [2] \<and>
               a_dtype (arrays ! 0) = np_float32 \<and> a_data (arrays ! 0) = [5, 6])
   \<and> fst (run_sequential_tasks (tiny_env (Completes [(2, [5, 6])])) tiny_self
            ''feature_extractor'' (InList [good_x, scalar_s]) tiny_world) =
      Inr (PyList [PyArray \<lparr>ctypes_data = 100, a_dtype = np_float32, a_shape = [2],
                             a_data = [5, 6]\<rparr>])"
proof -
  define w2 where "w2 = snd (validate_and_bind (tiny_env (Completes [(2, [5, 6])])) tiny_self
    ''feature_extractor'' (InList [good_x, scalar_s]) tiny_world)"
  have r: "fst (run_sequential_tasks (tiny_env (Raises_on_submit ''device lost'')) tiny_self
            ''feature_extractor'' (InList [good_x, scalar_s]) tiny_world) =
      Inr (PyTuple [PyNone, PyInt 0])"
    by (simp add: run_defs tiny_defs)
  have x: "execute (tiny_env (Completes [(2, [5, 6])])) tiny_engine t d = Completes [(2, [5, 6])]"
    for t d
    by (simp add: tiny_env_def)
  have v: "validate_and_bind (tiny_env (Completes [(2, [5, 6])])) tiny_self ''feature_extractor''
        (InList [good_x, scalar_s]) tiny_world = (Inr (tiny_engine, 0, [2]), w2)"
    unfolding w2_def by (rule tiny_validate)
  have d2: "device w2 2 = Some \<lparr>nbytes = 8, contents = []\<rparr>"
    unfolding w2_def by (simp add: run_defs tiny_defs)
  have o: "outputs tiny_self ''feature_extractor'' = Some [2]" by (simp add: tiny_self_def)
  have h: "shape (heap tiny_world ! 2) = [2]" "dtype (heap tiny_world ! 2) = np_float32"
    "device_buf (heap tiny_world ! 2) = Some 2"
    by (simp_all add: tiny_world_def)
  note t1 = C10_failure_pair_exactly_on_execution_failure
    [OF tiny_wf, of "tiny_env (Raises_on_submit ''device lost'')" "''feature_extractor''"
      "InList [good_x, scalar_s]"]
  note t2 = C10_failure_pair_exactly_on_execution_failure
    [OF tiny_wf, of "tiny_env (Completes [(2, [5, 6])])" "''feature_extractor''"
      "InList [good_x, scalar_s]"]
  from t1 r have a: "\<exists>e ctx outs w2 msg.
         validate_and_bind (tiny_env (Raises_on_submit ''device lost'')) tiny_self
           ''feature_extractor'' (InList [good_x, scalar_s]) tiny_world = (Inr (e, ctx, outs), w2) \<and>
         (execute (tiny_env (Raises_on_submit ''device lost'')) e (tables w2 ! ctx) (device w2) =
            Raises_on_submit msg \<or>
          execute (tiny_env (Raises_on_submit ''device lost'')) e (tables w2 ! ctx) (device w2) =
            Raises_on_synchronize msg)"
    by blast
  from t2 [THEN conjunct2, THEN conjunct1, rule_format, OF v x]
  obtain arrays where
    b1: "fst (run_sequential_tasks (tiny_env (Completes [(2, [5, 6])])) tiny_self
               ''feature_extractor'' (InList [good_x, scalar_s]) tiny_world) =
         Inr (PyList (map PyArray arrays))"
    and b2: "length arrays = length [2::nat]"
    and b3: "\<forall>k<length [2::nat].
                   a_shape (arrays ! k) = shape (heap tiny_world ! ([2] ! k)) \<and>
                   a_dtype (arrays ! k) = dtype (heap tiny_world ! ([2] ! k)) \<and>
                   (\<exists>p buf. device_buf (heap tiny_world ! ([2] ! k)) = Some p \<and>
                      apply_writes [(2, [5, 6])] (device w2) p = Some buf \<and>
                      a_data (arrays ! k) = contents buf)"
    by blast
  from b3 [THEN spec, of 0] have b4: "a_shape (arrays ! 0) = [2] \<and>
               a_dtype (arrays ! 0) = np_float32 \<and> a_data (arrays ! 0) = [5, 6]"
    using h d2 by auto
  have b: "\<exists>arrays. fst (run_sequential_tasks (tiny_env (Completes [(2, [5, 6])])) tiny_self
                       ''feature_extractor'' (InList [good_x, scalar_s]) tiny_world) =
                 Inr (PyList (map PyArray arrays)) \<and>
               length arrays = 1 \<and> a_shape (arrays ! 0) = [2] \<and>
               a_dtype (arrays ! 0) = np_float32 \<and> a_data (arrays ! 0) = [5, 6]"
    using b1 b2 b4 by (intro exI [of _ arrays]) simp
  have c: "fst (run_sequential_tasks (tiny_env (Completes [(2, [5, 6])])) tiny_self
            ''feature_extractor'' (InList [good_x, scalar_s]) tiny_world) =
      Inr (PyList [PyArray \<lparr>ctypes_data = 100, a_dtype = np_float32, a_shape = [2],
                             a_data = [5, 6]\<rparr>])"
    by (subst tiny_run_ok) simp
  show ?thesis
    using tiny_wf r a v [unfolded w2_def] o b c by (intro conjI)
qed

end
